(* ===== verification/Prelude.thy ===== *)
theory Prelude
  imports Main "HOL-Library.AList" "HOL-Library.Word" "HOL-Library.Sublist"
    "HOL-Library.Char_ord" "HOL-Library.List_Lexorder"
begin

text \<open>
  Shared vocabulary of the development: the fact collections the component proofs draw on,
  the machine integers of the code, the collection idioms of the Rust standard library the
  crates use (\<^verbatim>\<open>HashMap\<close>, \<^verbatim>\<open>Vec::position\<close> followed by \<^verbatim>\<open>Vec::remove\<close>), and the two interfaces
  that several components implement: a key-value store and a bounded log that keeps the
  longest suffix of what was written to it.
\<close>

named_theorems result_simps \<open>case analysis of results (errors as the left summand)\<close>
named_theorems session_simps \<open>field-by-field effect of the session operations\<close>
named_theorems text_simps \<open>facts on the string operations\<close>
named_theorems client_simps \<open>field-by-field effect of the DAP client operations\<close>

section \<open>Machine integers\<close>

text \<open>
  \<^verbatim>\<open>i64\<close> values are integers; the three places where they are added (\<^verbatim>\<open>named + indexed\<close>,
  the request counter, a byte offset) wrap explicitly.
\<close>

type_synonym i64 = int
type_synonym u64 = "64 word"
type_synonym byte = "8 word"

definition wrap_i64 :: "int \<Rightarrow> i64" where
  "wrap_i64 n = signed_take_bit 63 n"

definition i64_min :: i64 where "i64_min = - (2 ^ 63)"
definition i64_max :: i64 where "i64_max = 2 ^ 63 - 1"

definition in_i64 :: "int \<Rightarrow> bool" where
  "in_i64 n \<longleftrightarrow> i64_min \<le> n \<and> n \<le> i64_max"

lemma wrap_i64_id: "in_i64 n \<Longrightarrow> wrap_i64 n = n"
  by (simp add: in_i64_def wrap_i64_def i64_min_def i64_max_def signed_take_bit_int_eq_self)

lemma wrap_i64_in: "in_i64 (wrap_i64 n)"
  using signed_take_bit_int_less_exp [of 63 n] signed_take_bit_int_greater_eq_minus_exp [of 63 n]
  by (simp add: in_i64_def wrap_i64_def i64_min_def i64_max_def)

lemma wrap_i64_add: "wrap_i64 (wrap_i64 a + b) = wrap_i64 (a + b)"
proof -
  have idem: "signed_take_bit 63 (signed_take_bit 63 a) = signed_take_bit 63 a" by simp
  have "signed_take_bit 63 (signed_take_bit 63 (signed_take_bit 63 a) + signed_take_bit 63 b) =
      signed_take_bit 63 (signed_take_bit 63 a + b)"
    by (rule signed_take_bit_add)
  with idem signed_take_bit_add [of 63 a b] show ?thesis unfolding wrap_i64_def by argo
qed

section \<open>Results\<close>

text \<open>A \<^verbatim>\<open>Result<T, E>\<close> is a sum with the error on the left.\<close>

definition map_err :: "('e \<Rightarrow> 'f) \<Rightarrow> 'e + 'a \<Rightarrow> 'f + 'a" where
  "map_err f r = (case r of Inl e \<Rightarrow> Inl (f e) | Inr x \<Rightarrow> Inr x)"

definition and_then :: "'e + 'a \<Rightarrow> ('a \<Rightarrow> 'e + 'b) \<Rightarrow> 'e + 'b" where
  "and_then r f = (case r of Inl e \<Rightarrow> Inl e | Inr x \<Rightarrow> f x)"

definition map_ok :: "('a \<Rightarrow> 'b) \<Rightarrow> 'e + 'a \<Rightarrow> 'e + 'b" where
  "map_ok f r = (case r of Inl e \<Rightarrow> Inl e | Inr x \<Rightarrow> Inr (f x))"

lemma map_err_simps [simp, result_simps]:
  "map_err f (Inl e) = Inl (f e)" "map_err f (Inr x) = Inr x"
  by (simp_all add: map_err_def)

lemma and_then_simps [simp, result_simps]:
  "and_then (Inl e) g = Inl e" "and_then (Inr x) g = g x"
  by (simp_all add: and_then_def)

lemma map_ok_simps [simp, result_simps]:
  "map_ok h (Inl e) = Inl e" "map_ok h (Inr x) = Inr (h x)"
  by (simp_all add: map_ok_def)

lemma and_then_Inr_iff [result_simps]:
  "and_then r f = Inr y \<longleftrightarrow> (\<exists>x. r = Inr x \<and> f x = Inr y)"
  by (cases r) auto

section \<open>Vectors\<close>

text \<open>\<^verbatim>\<open>iter().position(p)\<close>: the index of the first element satisfying \<open>p\<close>.\<close>

fun position :: "('a \<Rightarrow> bool) \<Rightarrow> 'a list \<Rightarrow> nat option" where
  "position p [] = None"
| "position p (x # xs) = (if p x then Some 0 else map_option Suc (position p xs))"

text \<open>\<^verbatim>\<open>Vec::remove(i)\<close> for an index in range.\<close>

definition vec_remove :: "nat \<Rightarrow> 'a list \<Rightarrow> 'a list" where
  "vec_remove i xs = take i xs @ drop (Suc i) xs"

text \<open>The idiom \<^verbatim>\<open>if let Some(pos) = v.iter().position(p) { v.remove(pos); }\<close>.\<close>

definition remove_first :: "('a \<Rightarrow> bool) \<Rightarrow> 'a list \<Rightarrow> 'a list" where
  "remove_first p xs = (case position p xs of None \<Rightarrow> xs | Some i \<Rightarrow> vec_remove i xs)"

lemma position_None_iff: "position p xs = None \<longleftrightarrow> (\<forall>x \<in> set xs. \<not> p x)"
  by (induction xs) auto

lemma position_SomeD:
  "position p xs = Some i \<Longrightarrow> i < length xs \<and> p (xs ! i) \<and> (\<forall>j < i. \<not> p (xs ! j))"
proof (induction xs arbitrary: i)
  case Nil
  then show ?case by simp
next
  case (Cons x xs)
  then show ?case
    by (cases i) (auto split: if_splits simp: less_Suc_eq_0_disj)
qed

lemma remove_first_Nil [simp]: "remove_first p [] = []"
  by (simp add: remove_first_def)

lemma remove_first_Cons [simp]:
  "remove_first p (x # xs) = (if p x then xs else x # remove_first p xs)"
  by (auto simp: remove_first_def vec_remove_def split: option.splits)

lemma remove_first_none: "\<forall>x \<in> set xs. \<not> p x \<Longrightarrow> remove_first p xs = xs"
  by (induction xs) auto

lemma remove_first_append:
  "remove_first p (xs @ ys) =
     (if \<exists>x \<in> set xs. p x then remove_first p xs @ ys else xs @ remove_first p ys)"
  by (induction xs) auto

lemma length_remove_first:
  "length (remove_first p xs) = length xs - (if \<exists>x \<in> set xs. p x then 1 else 0)"
proof (induction xs)
  case Nil
  then show ?case by simp
next
  case (Cons x xs)
  then show ?case by (cases xs) auto
qed

lemma set_remove_first: "set (remove_first p xs) \<subseteq> set xs"
  by (induction xs) auto

text \<open>\<^verbatim>\<open>Vec::last\<close> and \<^verbatim>\<open>Vec::first\<close>.\<close>

definition last_opt :: "'a list \<Rightarrow> 'a option" where
  "last_opt xs = (if xs = [] then None else Some (last xs))"

definition first_opt :: "'a list \<Rightarrow> 'a option" where
  "first_opt xs = (case xs of [] \<Rightarrow> None | x # _ \<Rightarrow> Some x)"

lemma last_opt_simps [simp]: "last_opt [] = None" "last_opt (xs @ [x]) = Some x"
  by (simp_all add: last_opt_def)

lemma first_opt_simps [simp]: "first_opt [] = None" "first_opt (x # xs) = Some x"
  by (simp_all add: first_opt_def)

section \<open>Key-value stores\<close>

text \<open>
  What the code relies on of a map: a lookup after an insertion or a removal, and that the
  invariant of the representation is kept. Hash maps (\<^verbatim>\<open>HashMap\<close>, association lists with
  distinct keys) and ordered maps (the \<^verbatim>\<open>BTreeMap\<close> behind a JSON object) both provide it.
\<close>

locale kv_store =
  fixes lookup :: "'m \<Rightarrow> 'k \<Rightarrow> 'v option"
    and insert :: "'k \<Rightarrow> 'v \<Rightarrow> 'm \<Rightarrow> 'm"
    and remove :: "'k \<Rightarrow> 'm \<Rightarrow> 'm"
    and blank :: 'm
    and valid :: "'m \<Rightarrow> bool"
  assumes lookup_blank: "lookup blank k = None"
    and lookup_insert: "valid m \<Longrightarrow> lookup (insert k v m) k' = (if k' = k then Some v else lookup m k')"
    and lookup_remove: "valid m \<Longrightarrow> lookup (remove k m) k' = (if k' = k then None else lookup m k')"
    and valid_blank: "valid blank"
    and valid_insert: "valid m \<Longrightarrow> valid (insert k v m)"
    and valid_remove: "valid m \<Longrightarrow> valid (remove k m)"
begin

lemma insert_all:
  "valid m \<Longrightarrow> valid (fold (\<lambda>(k, v). insert k v) kvs m) \<and>
     lookup (fold (\<lambda>(k, v). insert k v) kvs m) k =
       (case map_of (rev kvs) k of None \<Rightarrow> lookup m k | Some v \<Rightarrow> Some v)"
proof (induction kvs arbitrary: m)
  case Nil
  then show ?case by simp
next
  case (Cons kv kvs)
  obtain k' v' where kv: "kv = (k', v')" by (cases kv)
  from Cons.prems have "valid (insert k' v' m)" by (rule valid_insert)
  from Cons.IH [OF this] Cons.prems show ?case
    by (auto simp: kv lookup_insert map_add_def split: option.splits)
qed

lemma remove_insert_other:
  "valid m \<Longrightarrow> k \<noteq> k' \<Longrightarrow> lookup (remove k (insert k' v m)) k' = Some v"
  by (simp add: lookup_remove lookup_insert valid_insert)

end

text \<open>\<^verbatim>\<open>HashMap\<close> as an association list with distinct keys; its order is not meaningful.\<close>

type_synonym ('k, 'v) hash_map = "('k \<times> 'v) list"

definition hm_ok :: "('k, 'v) hash_map \<Rightarrow> bool" where
  "hm_ok m \<longleftrightarrow> distinct (map fst m)"

definition hm_get :: "('k, 'v) hash_map \<Rightarrow> 'k \<Rightarrow> 'v option" where
  "hm_get m k = map_of m k"

definition hm_insert :: "'k \<Rightarrow> 'v \<Rightarrow> ('k, 'v) hash_map \<Rightarrow> ('k, 'v) hash_map" where
  "hm_insert k v m = AList.update k v m"

definition hm_remove :: "'k \<Rightarrow> ('k, 'v) hash_map \<Rightarrow> ('k, 'v) hash_map" where
  "hm_remove k m = AList.delete k m"

lemma hm_get_insert [simp]:
  "hm_get (hm_insert k v m) k' = (if k' = k then Some v else hm_get m k')"
  by (simp add: hm_get_def hm_insert_def update_conv')

lemma hm_get_remove [simp]:
  "hm_get (hm_remove k m) k' = (if k' = k then None else hm_get m k')"
  by (simp add: hm_get_def hm_remove_def delete_conv')

lemma hm_get_Nil [simp]: "hm_get [] k = None"
  by (simp add: hm_get_def)

lemma hm_ok_intros [simp, intro]:
  "hm_ok []" "hm_ok m \<Longrightarrow> hm_ok (hm_insert k v m)" "hm_ok m \<Longrightarrow> hm_ok (hm_remove k m)"
  by (simp_all add: hm_ok_def hm_insert_def hm_remove_def distinct_update distinct_delete)

interpretation hm: kv_store hm_get hm_insert hm_remove "[]" hm_ok
  by unfold_locales auto

lemma hm_get_in_set: "hm_ok m \<Longrightarrow> hm_get m k = Some v \<longleftrightarrow> (k, v) \<in> set m"
  by (simp add: hm_get_def hm_ok_def map_of_eq_Some_iff)

lemma hm_dom: "hm_get m k \<noteq> None \<longleftrightarrow> k \<in> fst ` set m"
  by (simp add: hm_get_def map_of_eq_None_iff)

text \<open>\<^verbatim>\<open>entry(k).or_default().push(x)\<close> on a map of vectors.\<close>

definition hm_push :: "'k \<Rightarrow> 'a \<Rightarrow> ('k, 'a list) hash_map \<Rightarrow> ('k, 'a list) hash_map" where
  "hm_push k x m = hm_insert k (case hm_get m k of None \<Rightarrow> [x] | Some xs \<Rightarrow> xs @ [x]) m"

definition hm_extend :: "'k \<Rightarrow> 'a list \<Rightarrow> ('k, 'a list) hash_map \<Rightarrow> ('k, 'a list) hash_map" where
  "hm_extend k ys m = hm_insert k (case hm_get m k of None \<Rightarrow> ys | Some xs \<Rightarrow> xs @ ys) m"

definition hm_list :: "('k, 'a list) hash_map \<Rightarrow> 'k \<Rightarrow> 'a list" where
  "hm_list m k = (case hm_get m k of None \<Rightarrow> [] | Some xs \<Rightarrow> xs)"

lemma hm_list_push [simp]: "hm_list (hm_push k x m) k' = hm_list m k' @ (if k' = k then [x] else [])"
  by (auto simp: hm_list_def hm_push_def split: option.splits)

lemma hm_list_extend [simp]: "hm_list (hm_extend k ys m) k' = hm_list m k' @ (if k' = k then ys else [])"
  by (auto simp: hm_list_def hm_extend_def split: option.splits)

lemma hm_list_Nil [simp]: "hm_list [] k = []"
  by (simp add: hm_list_def)

lemma hm_ok_push [simp]: "hm_ok m \<Longrightarrow> hm_ok (hm_push k x m)" "hm_ok m \<Longrightarrow> hm_ok (hm_extend k ys m)"
  by (simp_all add: hm_push_def hm_extend_def)

section \<open>Longest suffixes within a budget\<close>

text \<open>
  \<open>keep_suffix w cap xs\<close> is the longest suffix of \<open>xs\<close> of total weight at most \<open>cap\<close>: the
  abstract contents of the two bounded buffers (program output, captured stderr).
\<close>

definition weight :: "('a \<Rightarrow> nat) \<Rightarrow> 'a list \<Rightarrow> nat" where
  "weight w xs = sum_list (map w xs)"

fun keep_suffix :: "('a \<Rightarrow> nat) \<Rightarrow> nat \<Rightarrow> 'a list \<Rightarrow> 'a list" where
  "keep_suffix w cap [] = []"
| "keep_suffix w cap (x # xs) = (if weight w (x # xs) \<le> cap then x # xs else keep_suffix w cap xs)"

lemma weight_simps [simp]:
  "weight w [] = 0" "weight w (x # xs) = w x + weight w xs"
  "weight w (xs @ ys) = weight w xs + weight w ys"
  by (simp_all add: weight_def)

lemma keep_suffix_weight: "weight w (keep_suffix w cap xs) \<le> cap"
  by (induction xs) auto

lemma keep_suffix_suffix: "suffix (keep_suffix w cap xs) xs"
  by (induction xs) (auto simp: suffix_ConsI)

lemma keep_suffix_id: "weight w xs \<le> cap \<Longrightarrow> keep_suffix w cap xs = xs"
  by (cases xs) auto

lemma keep_suffix_greatest:
  "suffix ys xs \<Longrightarrow> weight w ys \<le> cap \<Longrightarrow> suffix ys (keep_suffix w cap xs)"
proof (induction xs)
  case Nil
  then show ?case by simp
next
  case (Cons x xs)
  then show ?case by (auto simp: suffix_Cons)
qed

lemma keep_suffix_append:
  "keep_suffix w cap (keep_suffix w cap xs @ ys) = keep_suffix w cap (xs @ ys)"
  by (induction xs) (auto simp: keep_suffix_id)

lemma keep_suffix_unit: "keep_suffix (\<lambda>_. 1) cap xs = drop (length xs - cap) xs"
proof (induction xs)
  case Nil
  then show ?case by simp
next
  case (Cons x xs)
  have w: "weight (\<lambda>_. Suc 0) ys = length ys" for ys :: "'a list"
    by (induction ys) auto
  from Cons show ?case by (auto simp: w Suc_diff_le not_le)
qed

text \<open>
  The interface of a bounded log: \<open>push\<close> accepts a chunk, \<open>contents\<close> reads what is kept.
  The client's fact is about whole histories: whatever the chunking, what is kept is the
  longest suffix of everything written that fits the budget.
\<close>

locale suffix_log =
  fixes contents :: "'s \<Rightarrow> 'a list"
    and push :: "'s \<Rightarrow> 'a list \<Rightarrow> 's"
    and start :: "'s \<Rightarrow> bool"
    and inv :: "'s \<Rightarrow> bool"
    and wt :: "'a \<Rightarrow> nat"
    and cap :: "'s \<Rightarrow> nat"
  assumes start_contents: "start s \<Longrightarrow> contents s = []"
    and start_inv: "start s \<Longrightarrow> inv s"
    and push_inv: "inv s \<Longrightarrow> inv (push s xs)"
    and push_cap: "cap (push s xs) = cap s"
    and push_contents: "inv s \<Longrightarrow> contents (push s xs) = keep_suffix wt (cap s) (contents s @ xs)"
begin

lemma history_inv: "inv s \<Longrightarrow> inv (foldl push s chunks)"
  by (induction chunks arbitrary: s) (auto intro: push_inv)

lemma history_cap: "cap (foldl push s chunks) = cap s"
  by (induction chunks arbitrary: s) (auto simp: push_cap)

lemma history_from:
  "inv s \<Longrightarrow> chunks \<noteq> [] \<Longrightarrow>
     contents (foldl push s chunks) = keep_suffix wt (cap s) (contents s @ concat chunks)"
proof (induction chunks arbitrary: s)
  case Nil
  then show ?case by simp
next
  case (Cons c cs)
  show ?case
  proof (cases "cs = []")
    case True
    with Cons.prems show ?thesis by (simp add: push_contents)
  next
    case False
    with Cons show ?thesis
      by (simp add: push_inv push_cap push_contents) (metis append.assoc keep_suffix_append)
  qed
qed

lemma history:
  assumes "start s"
  shows "contents (foldl push s chunks) = keep_suffix wt (cap s) (concat chunks)"
proof (cases "chunks = []")
  case True
  with assms show ?thesis by (simp add: start_contents)
next
  case False
  with assms history_from [OF start_inv [OF assms] False] show ?thesis
    by (simp add: start_contents)
qed

lemma history_bounded:
  assumes "start s"
  shows "weight wt (contents (foldl push s chunks)) \<le> cap s"
  by (simp add: history [OF assms] keep_suffix_weight)

end

end
