(* ===== verification/Rust_Text.thy ===== *)
theory Rust_Text
  imports Prelude
begin

text \<open>
  The string operations the crates use. A Rust \<^verbatim>\<open>String\<close> is its UTF-8 byte sequence, so
  \<open>length\<close> is \<^verbatim>\<open>len()\<close> and slicing is by byte. The theory holds UTF-8 validation and the
  lossy decoder, \<^verbatim>\<open>trim\<close>, \<^verbatim>\<open>strip_prefix\<close>, \<^verbatim>\<open>find\<close>, \<^verbatim>\<open>split_once\<close>, \<^verbatim>\<open>to_lowercase\<close>, the decimal
  and hexadecimal formatting of \<^verbatim>\<open>format!\<close> and \<^verbatim>\<open>from_str_radix\<close>. The lemmas are the print/parse
  round trips and the facts on validity that the framing layer needs.
\<close>

section \<open>Searching and slicing\<close>

definition starts_with :: "string \<Rightarrow> string \<Rightarrow> bool" where
  "starts_with p s \<longleftrightarrow> take (length p) s = p"

definition strip_prefix :: "string \<Rightarrow> string \<Rightarrow> string option" where
  "strip_prefix p s = (if starts_with p s then Some (drop (length p) s) else None)"

text \<open>\<^verbatim>\<open>s.find(sep).map(|i| &s[i + sep.len()..])\<close>: what follows the first occurrence.\<close>

fun after_first :: "string \<Rightarrow> string \<Rightarrow> string option" where
  "after_first sep [] = (if sep = [] then Some [] else None)"
| "after_first sep (c # cs) =
     (if starts_with sep (c # cs) then Some (drop (length sep) (c # cs)) else after_first sep cs)"

definition str_contains :: "string \<Rightarrow> string \<Rightarrow> bool" where
  "str_contains s sep \<longleftrightarrow> after_first sep s \<noteq> None"

text \<open>\<^verbatim>\<open>s.split_once(c)\<close>.\<close>

definition split_once :: "char \<Rightarrow> string \<Rightarrow> (string \<times> string) option" where
  "split_once c s =
     (if c \<in> set s then Some (takeWhile (\<lambda>x. x \<noteq> c) s, tl (dropWhile (\<lambda>x. x \<noteq> c) s)) else None)"

fun join :: "string \<Rightarrow> string list \<Rightarrow> string" where
  "join sep [] = []"
| "join sep [x] = x"
| "join sep (x # y # xs) = x @ sep @ join sep (y # xs)"

lemma starts_with_append [simp, text_simps]: "starts_with p (p @ s)"
  by (simp add: starts_with_def)

lemma strip_prefix_append [simp, text_simps]: "strip_prefix p (p @ s) = Some s"
  by (simp add: strip_prefix_def)

lemma strip_prefix_SomeD: "strip_prefix p s = Some t \<Longrightarrow> s = p @ t"
  by (metis append_take_drop_id option.distinct(1) option.inject starts_with_def strip_prefix_def)

lemma after_first_occurs: "after_first sep s = Some t \<Longrightarrow> \<exists>p. s = p @ sep @ t"
proof (induction s)
  case Nil
  then show ?case by (simp split: if_splits)
next
  case (Cons c cs)
  show ?case
  proof (cases "starts_with sep (c # cs)")
    case True
    with Cons.prems have "t = drop (length sep) (c # cs)" by simp
    moreover from True have "c # cs = sep @ drop (length sep) (c # cs)"
      unfolding starts_with_def by (metis append_take_drop_id)
    ultimately show ?thesis by (metis append_Nil)
  next
    case False
    with Cons obtain p where "cs = p @ sep @ t" by auto
    then show ?thesis by (metis append_Cons)
  qed
qed

lemma after_first_complete: "after_first sep (p @ sep @ t) \<noteq> None"
proof (induction p)
  case Nil
  show ?case by (cases sep; cases t) (auto simp: starts_with_def)
next
  case (Cons c p)
  then show ?case by auto
qed

lemma str_contains_iff: "str_contains s sep \<longleftrightarrow> (\<exists>p t. s = p @ sep @ t)"
  unfolding str_contains_def using after_first_occurs after_first_complete by fastforce

text \<open>If no occurrence of \<open>sep\<close> starts inside \<open>p\<close>, searching \<open>p @ sep @ t\<close> stops at \<open>t\<close>.\<close>

lemma after_first_here:
  assumes "\<And>i. i < length p \<Longrightarrow> \<not> starts_with sep (drop i (p @ sep @ t))"
  shows "after_first sep (p @ sep @ t) = Some t"
  using assms
proof (induction p)
  case Nil
  show ?case by (cases sep; cases t) (auto simp: starts_with_def)
next
  case (Cons c p)
  from Cons.prems [of 0] have "\<not> starts_with sep (c # p @ sep @ t)" by simp
  moreover have "after_first sep (p @ sep @ t) = Some t"
  proof (rule Cons.IH)
    fix i assume "i < length p"
    with Cons.prems [of "Suc i"] show "\<not> starts_with sep (drop i (p @ sep @ t))" by simp
  qed
  ultimately show ?case by simp
qed

lemma split_once_here: "c \<notin> set p \<Longrightarrow> split_once c (p @ c # t) = Some (p, t)"
proof -
  assume "c \<notin> set p"
  then have "\<forall>x \<in> set p. x \<noteq> c" by blast
  then have "takeWhile (\<lambda>x. x \<noteq> c) (p @ c # t) = p" "dropWhile (\<lambda>x. x \<noteq> c) (p @ c # t) = c # t"
    by (induction p) auto
  then show ?thesis by (simp add: split_once_def)
qed

lemma split_once_none: "c \<notin> set s \<Longrightarrow> split_once c s = None"
  by (simp add: split_once_def)

section \<open>UTF-8\<close>

definition byte_of :: "char \<Rightarrow> nat" where
  "byte_of c = of_char c"

text \<open>The byte at an offset, 0 past the end (as the standard library's decoder reads it).\<close>

definition byte_at :: "string \<Rightarrow> nat \<Rightarrow> nat" where
  "byte_at s i = (if i < length s then byte_of (s ! i) else 0)"

definition between :: "nat \<Rightarrow> nat \<Rightarrow> nat \<Rightarrow> bool" where
  "between lo hi b \<longleftrightarrow> lo \<le> b \<and> b \<le> hi"

definition is_cont :: "nat \<Rightarrow> bool" where
  "is_cont b \<longleftrightarrow> between 0x80 0xBF b"

text \<open>
  The first character of a byte string: a well-formed sequence of \<open>n\<close> bytes, or an ill-formed
  one of which \<open>n\<close> bytes are skipped.
\<close>

datatype utf8_chunk = Valid nat | Invalid nat

definition utf8_head :: "string \<Rightarrow> utf8_chunk" where
  "utf8_head s =
     (let b0 = byte_at s 0; b1 = byte_at s 1; b2 = byte_at s 2; b3 = byte_at s 3 in
      if s = [] then Valid 0
      else if b0 < 0x80 then Valid 1
      else if between 0xC2 0xDF b0 then (if is_cont b1 then Valid 2 else Invalid 1)
      else if between 0xE0 0xEF b0 then
        (if \<not> (if b0 = 0xE0 then between 0xA0 0xBF b1
                else if b0 = 0xED then between 0x80 0x9F b1 else is_cont b1) then Invalid 1
         else if \<not> is_cont b2 then Invalid 2
         else Valid 3)
      else if between 0xF0 0xF4 b0 then
        (if \<not> (if b0 = 0xF0 then between 0x90 0xBF b1
                else if b0 = 0xF4 then between 0x80 0x8F b1 else is_cont b1) then Invalid 1
         else if \<not> is_cont b2 then Invalid 2
         else if \<not> is_cont b3 then Invalid 3
         else Valid 4)
      else Invalid 1)"

function valid_utf8 :: "string \<Rightarrow> bool" where
  "valid_utf8 s =
     (case utf8_head s of Invalid _ \<Rightarrow> False
      | Valid n \<Rightarrow> if n = 0 \<or> s = [] then True else valid_utf8 (drop n s))"
  by pat_completeness auto
termination
  by (relation "measure length") auto

declare valid_utf8.simps [simp del]

text \<open>\<^verbatim>\<open>String::from_utf8_lossy\<close>: each ill-formed sequence becomes U+FFFD.\<close>

definition replacement :: string where
  "replacement = [CHR 0xEF, CHR 0xBF, CHR 0xBD]"

function from_utf8_lossy :: "string \<Rightarrow> string" where
  "from_utf8_lossy s =
     (if s = [] then [] else
      case utf8_head s of
        Valid n \<Rightarrow> if n = 0 then [] else take n s @ from_utf8_lossy (drop n s)
      | Invalid n \<Rightarrow> if n = 0 then [] else replacement @ from_utf8_lossy (drop n s))"
  by pat_completeness auto
termination
  by (relation "measure length") auto

declare from_utf8_lossy.simps [simp del]

definition ascii :: "string \<Rightarrow> bool" where
  "ascii s \<longleftrightarrow> (\<forall>c \<in> set s. byte_of c < 0x80)"

lemma ascii_simps [simp]: "ascii []" "ascii (c # s) \<longleftrightarrow> byte_of c < 0x80 \<and> ascii s"
  "ascii (s @ t) \<longleftrightarrow> ascii s \<and> ascii t"
  by (auto simp: ascii_def)

lemma utf8_head_ascii: "byte_of c < 0x80 \<Longrightarrow> utf8_head (c # s) = Valid 1"
  by (simp add: utf8_head_def byte_at_def)

lemma valid_utf8_ascii: "ascii s \<Longrightarrow> valid_utf8 s"
proof (induction s)
  case Nil
  then show ?case by (subst valid_utf8.simps) (simp add: utf8_head_def)
next
  case (Cons c s)
  then show ?case by (subst valid_utf8.simps) (simp add: utf8_head_ascii)
qed

lemma from_utf8_lossy_valid: "valid_utf8 s \<Longrightarrow> from_utf8_lossy s = s"
proof (induction s rule: valid_utf8.induct)
  case (1 s)
  show ?case
  proof (cases "s = []")
    case True
    then show ?thesis by (simp add: from_utf8_lossy.simps)
  next
    case ne: False
    from "1.prems" obtain n where h: "utf8_head s = Valid n"
      by (subst (asm) valid_utf8.simps) (auto split: utf8_chunk.splits)
    have "n \<noteq> 0" using h ne by (auto simp: utf8_head_def Let_def split: if_splits)
    with h ne "1.prems" have "valid_utf8 (drop n s)"
      by (subst (asm) valid_utf8.simps) simp
    with "1.IH" [OF h] \<open>n \<noteq> 0\<close> ne have "from_utf8_lossy (drop n s) = drop n s" by simp
    with h ne \<open>n \<noteq> 0\<close> show ?thesis by (subst from_utf8_lossy.simps) simp
  qed
qed

section \<open>Trimming and case\<close>

text \<open>Number of bytes of the leading Unicode white-space character, 0 if there is none.\<close>

definition ws_len :: "string \<Rightarrow> nat" where
  "ws_len s =
     (let b0 = byte_at s 0; b1 = byte_at s 1; b2 = byte_at s 2 in
      if s = [] then 0
      else if between 9 13 b0 \<or> b0 = 32 then 1
      else if b0 = 0xC2 \<and> (b1 = 0x85 \<or> b1 = 0xA0) then 2
      else if b0 = 0xE1 \<and> b1 = 0x9A \<and> b2 = 0x80 then 3
      else if b0 = 0xE2 \<and> b1 = 0x80 \<and> (between 0x80 0x8A b2 \<or> b2 = 0xA8 \<or> b2 = 0xA9 \<or> b2 = 0xAF) then 3
      else if b0 = 0xE2 \<and> b1 = 0x81 \<and> b2 = 0x9F then 3
      else if b0 = 0xE3 \<and> b1 = 0x80 \<and> b2 = 0x80 then 3
      else 0)"

function trim_start :: "string \<Rightarrow> string" where
  "trim_start s = (if s = [] \<or> ws_len s = 0 then s else trim_start (drop (ws_len s) s))"
  by pat_completeness auto
termination
  by (relation "measure length") auto

declare trim_start.simps [simp del]

text \<open>Number of bytes of the trailing white-space character.\<close>

definition ws_len_end :: "string \<Rightarrow> nat" where
  "ws_len_end s =
     (let n = length s in
      if n \<ge> 1 \<and> ws_len (drop (n - 1) s) = 1 then 1
      else if n \<ge> 2 \<and> ws_len (drop (n - 2) s) = 2 then 2
      else if n \<ge> 3 \<and> ws_len (drop (n - 3) s) = 3 then 3
      else 0)"

function trim_end :: "string \<Rightarrow> string" where
  "trim_end s = (if s = [] \<or> ws_len_end s = 0 then s else trim_end (take (length s - ws_len_end s) s))"
  by pat_completeness auto
termination
  by (relation "measure length") auto

declare trim_end.simps [simp del]

definition trim :: "string \<Rightarrow> string" where
  "trim s = trim_end (trim_start s)"

text \<open>\<^verbatim>\<open>trim_end_matches(['\r', '\n'])\<close>.\<close>

definition trim_crlf :: "string \<Rightarrow> string" where
  "trim_crlf s = rev (dropWhile (\<lambda>c. c = CHR 0x0D \<or> c = CHR 0x0A) (rev s))"

text \<open>
  \<^verbatim>\<open>str::to_lowercase\<close>. On ASCII strings the mapping is written out; a string with other
  characters goes through the Unicode tables, which are the argument \<open>uni\<close>.
\<close>

definition ascii_lower :: "char \<Rightarrow> char" where
  "ascii_lower c = (if between 65 90 (byte_of c) then char_of (byte_of c + 32) else c)"

definition to_lowercase :: "(string \<Rightarrow> string) \<Rightarrow> string \<Rightarrow> string" where
  "to_lowercase uni s = (if ascii s then map ascii_lower s else uni s)"

section \<open>Numbers\<close>

definition hex_digit :: "nat \<Rightarrow> char" where
  "hex_digit d = ''0123456789abcdef'' ! d"

fun to_radix :: "nat \<Rightarrow> nat \<Rightarrow> string" where
  "to_radix b n = (if b < 2 \<or> n < b then [hex_digit n] else to_radix b (n div b) @ [hex_digit (n mod b)])"

declare to_radix.simps [simp del]

definition show_nat :: "nat \<Rightarrow> string" where
  "show_nat n = to_radix 10 n"

definition show_int :: "int \<Rightarrow> string" where
  "show_int n = (if n < 0 then ''-'' @ show_nat (nat (- n)) else show_nat (nat n))"

text \<open>\<^verbatim>\<open>{:0wx}\<close>: lower-case hexadecimal, padded with zeros to \<open>w\<close> digits.\<close>

definition hex_pad :: "nat \<Rightarrow> nat \<Rightarrow> string" where
  "hex_pad w n = (let s = to_radix 16 n in replicate (w - length s) (CHR ''0'') @ s)"

text \<open>\<^verbatim>\<open>char::to_digit\<close>, and \<^verbatim>\<open>from_str_radix\<close> for an unsigned type with maximum \<open>maxv\<close>.\<close>

definition to_digit :: "nat \<Rightarrow> char \<Rightarrow> nat option" where
  "to_digit r c =
     (let b = byte_of c;
          d = (if between 48 57 b then Some (b - 48)
               else if between 97 122 b then Some (b - 87)
               else if between 65 90 b then Some (b - 55) else None)
      in case d of None \<Rightarrow> None | Some v \<Rightarrow> if v < r then Some v else None)"

datatype int_error = Empty | InvalidDigit | PosOverflow

definition show_int_error :: "int_error \<Rightarrow> string" where
  "show_int_error e =
     (case e of Empty \<Rightarrow> ''cannot parse integer from empty string''
      | InvalidDigit \<Rightarrow> ''invalid digit found in string''
      | PosOverflow \<Rightarrow> ''number too large to fit in target type'')"

fun parse_digits :: "nat \<Rightarrow> nat \<Rightarrow> nat \<Rightarrow> string \<Rightarrow> int_error + nat" where
  "parse_digits r maxv acc [] = Inr acc"
| "parse_digits r maxv acc (c # cs) =
     (case to_digit r c of None \<Rightarrow> Inl InvalidDigit
      | Some d \<Rightarrow> if acc * r + d \<le> maxv then parse_digits r maxv (acc * r + d) cs
                 else Inl PosOverflow)"

definition from_str_radix :: "nat \<Rightarrow> nat \<Rightarrow> string \<Rightarrow> int_error + nat" where
  "from_str_radix r maxv s =
     (if s = [] then Inl Empty
      else if s = ''+'' \<or> s = ''-'' then Inl InvalidDigit
      else parse_digits r maxv 0 (if hd s = CHR ''+'' then tl s else s))"

definition u64_max :: nat where "u64_max = 2 ^ 64 - 1"

lemma less_16_cases:
  "(d::nat) < 16 \<Longrightarrow> d \<in> {0, 1, 2, 3, 4, 5, 6, 7, 8, 9, 10, 11, 12, 13, 14, 15}"
  by (simp only: insert_iff empty_iff) presburger

lemma hex_digit_facts:
  assumes "d < 16"
  shows "to_digit 16 (hex_digit d) = Some d" "byte_of (hex_digit d) < 0x80"
    "hex_digit d \<noteq> CHR ''+''" "hex_digit d \<noteq> CHR ''-''" "ws_len (hex_digit d # s) = 0"
    "hex_digit d \<noteq> CHR 0x0A" "hex_digit d \<noteq> CHR 0x0D" "hex_digit d \<noteq> CHR '':''"
  using less_16_cases [OF assms]
  by (auto simp: hex_digit_def to_digit_def byte_of_def between_def ws_len_def byte_at_def)

lemma to_digit_less: "to_digit r c = Some d \<Longrightarrow> d < r"
  by (auto simp: to_digit_def Let_def split: if_splits option.splits)

lemma hex_digit_radix:
  assumes "d < r" "r \<le> 16"
  shows "to_digit r (hex_digit d) = Some d"
proof -
  from assms have "d < 16" by simp
  from hex_digit_facts(1) [OF this] assms(1) show ?thesis
    by (auto simp: to_digit_def Let_def split: if_splits option.splits)
qed

lemma parse_digits_append:
  "parse_digits r m acc (xs @ ys) = and_then (parse_digits r m acc xs) (\<lambda>a. parse_digits r m a ys)"
  by (induction r m acc xs rule: parse_digits.induct) (auto split: option.splits)

text \<open>Printing in a radix and parsing back is the identity up to the type's maximum.\<close>

lemma parse_to_radix:
  assumes "2 \<le> r" "r \<le> 16" "n \<le> m"
  shows "parse_digits r m 0 (to_radix r n) = Inr n"
  using assms
proof (induction n rule: less_induct)
  case (less n)
  show ?case
  proof (cases "n < r")
    case True
    with less.prems show ?thesis
      by (subst to_radix.simps) (simp add: hex_digit_radix)
  next
    case False
    with less.prems have "n div r < n" "n div r \<le> m"
      by (auto intro: div_le_dividend le_trans)
    with less have "parse_digits r m 0 (to_radix r (n div r)) = Inr (n div r)" by blast
    moreover have "n mod r < r" using less.prems by simp
    moreover have "n div r * r + n mod r = n" by simp
    ultimately show ?thesis
      using False less.prems
      by (subst to_radix.simps) (simp add: parse_digits_append hex_digit_radix)
  qed
qed

lemma to_radix_chars:
  "2 \<le> r \<Longrightarrow> r \<le> 16 \<Longrightarrow> c \<in> set (to_radix r n) \<Longrightarrow> \<exists>d < 16. c = hex_digit d"
proof (induction n rule: less_induct)
  case (less n)
  show ?case
  proof (cases "n < r")
    case True
    with less.prems have "c = hex_digit n" "n < 16" by (simp_all add: to_radix.simps [of r n])
    then show ?thesis by blast
  next
    case False
    with less.prems have "n div r < n" "n mod r < 16"
      by (auto intro: less_le_trans [of _ r])
    moreover from less.prems False have "c \<in> set (to_radix r (n div r)) \<or> c = hex_digit (n mod r)"
      by (auto simp: to_radix.simps [of r n])
    ultimately show ?thesis using less.IH [of "n div r"] less.prems by blast
  qed
qed

lemma to_radix_nonempty [simp]: "to_radix r n \<noteq> []"
  by (subst to_radix.simps) simp

lemma from_str_to_radix:
  assumes "2 \<le> r" "r \<le> 16" "n \<le> m"
  shows "from_str_radix r m (to_radix r n) = Inr n"
proof -
  obtain d s where ds: "to_radix r n = hex_digit d # s" "d < 16"
    using to_radix_chars [OF assms(1,2)] by (metis list.set_intros(1) neq_Nil_conv to_radix_nonempty)
  from hex_digit_facts [OF ds(2)] ds(1) parse_to_radix [OF assms] show ?thesis
    by (simp add: from_str_radix_def)
qed

lemma ascii_to_radix: "2 \<le> r \<Longrightarrow> r \<le> 16 \<Longrightarrow> ascii (to_radix r n)"
  unfolding ascii_def using to_radix_chars hex_digit_facts(2) by blast

lemma length_to_radix_le: "2 \<le> b \<Longrightarrow> n < b ^ Suc k \<Longrightarrow> length (to_radix b n) \<le> Suc k"
proof (induction k arbitrary: n)
  case 0
  then show ?case by (subst to_radix.simps) simp
next
  case (Suc k)
  then have "n div b < b ^ Suc k" by (simp add: less_mult_imp_div_less mult.commute)
  with Suc show ?case by (subst to_radix.simps) auto
qed

lemma length_hex_pad: "n < 16 ^ Suc k \<Longrightarrow> length (hex_pad (Suc k) n) = Suc k"
  using length_to_radix_le [of 16 n k] by (simp add: hex_pad_def Let_def)

end
