(* ===== verification/Debugger_Core.thy ===== *)
theory Debugger_Core
  imports Rust_Text
begin

text \<open>
  The crate \<^verbatim>\<open>debugger-core\<close>: the neutral data types that cross the backend seam
  (\<^verbatim>\<open>types.rs\<close>), the error type with its rendering (\<^verbatim>\<open>error.rs\<close>) and the asynchronous events
  (\<^verbatim>\<open>event.rs\<close>). Fields carry a prefix per type because a record field is a constant.
\<close>

datatype granularity = Line | Instruction

datatype eval_mode = Expression | Repl

datatype step_kind = Over | Into | Out

record stop_info =
  si_reason :: string
  si_thread_id :: i64
  si_description :: string
  si_hit_breakpoint_ids :: "i64 list"

datatype stop_outcome =
    Stopped stop_info
  | Exited "i64 option"
  | Terminated

record source_bp =
  sb_line :: i64
  sb_condition :: string

record function_bp =
  fb_name :: string
  fb_condition :: string

record launch_spec =
  ls_program :: string
  ls_args :: "string list"
  ls_cwd :: "string option"
  ls_env :: "(string \<times> string) list"
  ls_stop_on_entry :: bool
  ls_source_breakpoints :: "(string \<times> source_bp list) list"
  ls_function_breakpoints :: "function_bp list"

datatype launch_outcome =
    LStopped stop_info
  | LRunning
  | LExited "i64 option"

record attach_spec =
  as_pid :: "i64 option"
  as_wait_for :: "string option"

datatype attach_outcome =
    AStopped stop_info
  | AExited "i64 option"
  | ATerminated

record frame =
  fr_index :: i64
  fr_id :: i64
  fr_name :: string
  fr_source_path :: "string option"
  fr_line :: i64
  fr_instruction_pointer :: "string option"

record thread_info =
  th_id :: i64
  th_name :: string

record scope =
  sc_name :: string
  sc_variables_reference :: i64

record variable =
  va_name :: string
  va_value :: string
  va_ty :: string
  va_variables_reference :: i64
  va_named :: i64
  va_indexed :: i64

record breakpoint_result =
  br_id :: i64
  br_verified :: bool
  br_line :: i64
  br_message :: string

record eval_result =
  er_result :: string
  er_ty :: string
  er_variables_reference :: i64

record memory_read =
  mr_address :: string
  mr_data :: "byte list"

record instruction =
  in_address :: string
  in_instruction :: string
  in_bytes :: string
  in_symbol :: string
  in_source_path :: "string option"
  in_line :: i64

section \<open>Errors and events\<close>

datatype backend_error =
    Detect string
  | Spawn string
  | Send string
  | Protocol string
  | Dap string
  | Closed
  | Timeout

text \<open>The \<^verbatim>\<open>Display\<close> form (the \<^verbatim>\<open>#[error(...)]\<close> attributes).\<close>

fun show_backend_error :: "backend_error \<Rightarrow> string" where
  "show_backend_error (Detect m) = ''failed to detect debugger: '' @ m"
| "show_backend_error (Spawn m) = ''failed to spawn debugger: '' @ m"
| "show_backend_error (Send m) = ''failed to send request: '' @ m"
| "show_backend_error (Protocol ty) = ''unexpected response type: '' @ ty"
| "show_backend_error (Dap m) = ''debugger error: '' @ m"
| "show_backend_error Closed = ''connection closed''"
| "show_backend_error Timeout = ''operation timed out''"

datatype backend_event =
    Output string string
  | TerminatedEv "i64 option"

end
