(* ===== verification/Json_Value.thy ===== *)
theory Json_Value
  imports Rust_Text
begin

text \<open>
  JSON values as \<^verbatim>\<open>serde_json\<close> represents them: numbers keep their integer or floating form,
  an object is a \<^verbatim>\<open>BTreeMap\<close>, that is an association list sorted by key. The theory holds the
  numeric conversions the handlers rely on (\<^verbatim>\<open>as_f64\<close>, the saturating \<^verbatim>\<open>f as i64\<close> cast,
  \<^verbatim>\<open>as_i64\<close>) and the ordered map; the text form of a value is the business of \<^verbatim>\<open>serde_json\<close>
  and a parameter where it is needed.
\<close>

section \<open>Numbers\<close>

text \<open>A finite \<^verbatim>\<open>f64\<close> is \<open>m / 2 ^ e\<close>; both zeros are \<open>F64 0 0\<close>.\<close>

datatype f64 = F64 int nat

datatype jnumber = PosInt nat | NegInt int | Float f64

text \<open>\<^verbatim>\<open>n as f64\<close> for an unsigned integer: round to 53 significant bits, ties to even.\<close>

fun bit_length :: "nat \<Rightarrow> nat" where
  "bit_length n = (if n = 0 then 0 else Suc (bit_length (n div 2)))"

declare bit_length.simps [simp del]

definition f64_round :: "nat \<Rightarrow> nat" where
  "f64_round n =
     (if n \<le> 2 ^ 53 then n
      else let k = bit_length n - 53; q = n div 2 ^ k; r = n mod 2 ^ k; half = 2 ^ (k - 1);
               q' = (if half < r \<or> (r = half \<and> odd q) then q + 1 else q)
           in q' * 2 ^ k)"

definition int_to_f64 :: "int \<Rightarrow> f64" where
  "int_to_f64 n = F64 (if n < 0 then - int (f64_round (nat (- n))) else int (f64_round (nat n))) 0"

definition number_as_f64 :: "jnumber \<Rightarrow> f64" where
  "number_as_f64 n =
     (case n of PosInt k \<Rightarrow> int_to_f64 (int k) | NegInt k \<Rightarrow> int_to_f64 k | Float f \<Rightarrow> f)"

text \<open>\<^verbatim>\<open>f as i64\<close>: truncation toward zero, saturating at the bounds of the type.\<close>

definition f64_trunc :: "f64 \<Rightarrow> int" where
  "f64_trunc f = (case f of F64 m e \<Rightarrow> if m < 0 then - ((- m) div 2 ^ e) else m div 2 ^ e)"

definition f64_as_i64 :: "f64 \<Rightarrow> i64" where
  "f64_as_i64 f = max i64_min (min i64_max (f64_trunc f))"

definition f64_pos :: "f64 \<Rightarrow> bool" where
  "f64_pos f \<longleftrightarrow> (case f of F64 m e \<Rightarrow> 0 < m)"

definition f64_nonneg :: "f64 \<Rightarrow> bool" where
  "f64_nonneg f \<longleftrightarrow> (case f of F64 m e \<Rightarrow> 0 \<le> m)"

definition number_as_i64 :: "jnumber \<Rightarrow> i64 option" where
  "number_as_i64 n =
     (case n of PosInt k \<Rightarrow> if int k \<le> i64_max then Some (int k) else None
      | NegInt k \<Rightarrow> Some k | Float f \<Rightarrow> None)"

text \<open>\<^verbatim>\<open>Number::from(i64)\<close>.\<close>

definition number_of_int :: "int \<Rightarrow> jnumber" where
  "number_of_int n = (if n < 0 then NegInt n else PosInt (nat n))"

lemma f64_as_i64_in: "in_i64 (f64_as_i64 f)"
  by (simp add: f64_as_i64_def in_i64_def i64_min_def i64_max_def)

lemma f64_as_i64_small:
  assumes "\<bar>n\<bar> \<le> 2 ^ 53"
  shows "f64_as_i64 (int_to_f64 n) = n"
proof -
  from assms have "nat (- n) \<le> 2 ^ 53" "nat n \<le> 2 ^ 53" by auto
  with assms show ?thesis
    by (auto simp: int_to_f64_def f64_round_def f64_as_i64_def f64_trunc_def i64_min_def i64_max_def)
qed

text \<open>Truncation of a fraction never leaves the interval between 0 and the value.\<close>

lemma f64_trunc_pos: "0 \<le> m \<Longrightarrow> 0 \<le> f64_trunc (F64 m e) \<and> f64_trunc (F64 m e) * 2 ^ e \<le> m"
proof -
  assume m: "0 \<le> m"
  have "m div 2 ^ e * 2 ^ e + m mod 2 ^ e = m" by (rule div_mult_mod_eq)
  moreover have "0 \<le> m mod 2 ^ e" by (rule pos_mod_sign) simp
  ultimately have "m div 2 ^ e * 2 ^ e \<le> m" by linarith
  with m show ?thesis by (simp add: f64_trunc_def pos_imp_zdiv_nonneg_iff)
qed

section \<open>Values and objects\<close>

datatype json =
    JNull
  | JBool bool
  | JNum jnumber
  | JStr string
  | JArr "json list"
  | JObj "(string \<times> json) list"

type_synonym jmap = "(string \<times> json) list"

definition jint :: "int \<Rightarrow> json" where
  "jint n = JNum (number_of_int n)"

definition jnat :: "nat \<Rightarrow> json" where
  "jnat n = JNum (PosInt n)"

definition json_as_f64 :: "json \<Rightarrow> f64 option" where
  "json_as_f64 v = (case v of JNum n \<Rightarrow> Some (number_as_f64 n) | _ \<Rightarrow> None)"

definition json_as_str :: "json \<Rightarrow> string option" where
  "json_as_str v = (case v of JStr s \<Rightarrow> Some s | _ \<Rightarrow> None)"

text \<open>\<^verbatim>\<open>BTreeMap::insert\<close>, \<^verbatim>\<open>get\<close> and \<^verbatim>\<open>remove\<close>.\<close>

fun bt_insert :: "'k::linorder \<Rightarrow> 'v \<Rightarrow> ('k \<times> 'v) list \<Rightarrow> ('k \<times> 'v) list" where
  "bt_insert k v [] = [(k, v)]"
| "bt_insert k v ((k', v') # m) =
     (if k < k' then (k, v) # (k', v') # m
      else if k = k' then (k, v) # m
      else (k', v') # bt_insert k v m)"

definition bt_get :: "('k \<times> 'v) list \<Rightarrow> 'k \<Rightarrow> 'v option" where
  "bt_get m k = map_of m k"

definition bt_remove :: "'k \<Rightarrow> ('k \<times> 'v) list \<Rightarrow> ('k \<times> 'v) list" where
  "bt_remove k m = filter (\<lambda>kv. fst kv \<noteq> k) m"

definition bt_ok :: "('k::linorder \<times> 'v) list \<Rightarrow> bool" where
  "bt_ok m \<longleftrightarrow> sorted_wrt (<) (map fst m)"

lemma bt_get_simps [simp]:
  "bt_get [] k = None" "bt_get ((k', v) # m) k = (if k = k' then Some v else bt_get m k)"
  by (simp_all add: bt_get_def)

lemma bt_get_insert [simp]: "bt_get (bt_insert k v m) k' = (if k' = k then Some v else bt_get m k')"
  by (induction k v m rule: bt_insert.induct) auto

lemma set_bt_insert: "fst ` set (bt_insert k v m) = insert k (fst ` set m)"
  by (induction k v m rule: bt_insert.induct) auto

lemma bt_ok_Nil [simp]: "bt_ok []"
  by (simp add: bt_ok_def)

lemma bt_ok_insert [simp]: "bt_ok m \<Longrightarrow> bt_ok (bt_insert k v m)"
proof (induction k v m rule: bt_insert.induct)
  case (1 k v)
  then show ?case by (simp add: bt_ok_def)
next
  case (2 k v k' v' m)
  from "2.prems" have m: "bt_ok m" "\<forall>x \<in> fst ` set m. k' < x" by (auto simp: bt_ok_def)
  show ?case
  proof (cases "k' < k")
    case True
    with m have "\<forall>x \<in> fst ` set (bt_insert k v m). k' < x" by (simp add: set_bt_insert)
    with True "2.IH" m(1) show ?thesis by (auto simp: bt_ok_def)
  next
    case False
    with "2.prems" show ?thesis by (auto simp: bt_ok_def)
  qed
qed

lemma bt_get_remove [simp]: "bt_get (bt_remove k m) k' = (if k' = k then None else bt_get m k')"
  by (induction m) (auto simp: bt_remove_def)

lemma bt_ok_remove [simp]: "bt_ok m \<Longrightarrow> bt_ok (bt_remove k m)"
  unfolding bt_ok_def bt_remove_def by (induction m) auto

interpretation bt: kv_store bt_get bt_insert bt_remove "[]" bt_ok
  by unfold_locales auto

text \<open>Two objects with the same entries are the same value.\<close>

lemma bt_ext: "bt_ok m \<Longrightarrow> bt_ok m' \<Longrightarrow> (\<And>k. bt_get m k = bt_get m' k) \<Longrightarrow> m = m'"
proof -
  assume ok: "bt_ok m" "bt_ok m'" and eq: "\<And>k. bt_get m k = bt_get m' k"
  from ok have s: "sorted (map fst m)" "distinct (map fst m)" "sorted (map fst m')" "distinct (map fst m')"
    by (auto simp: bt_ok_def strict_sorted_iff)
  from eq have "map_of m = map_of m'" by (auto simp: bt_get_def)
  with s have "set m = set m'" by (metis map_of_inject_set)
  with s show ?thesis
    by (intro map_sorted_distinct_set_unique [of fst]) (auto simp: distinct_map)
qed

definition bt_of_list :: "('k::linorder \<times> 'v) list \<Rightarrow> ('k \<times> 'v) list" where
  "bt_of_list kvs = fold (\<lambda>(k, v). bt_insert k v) kvs []"

lemma bt_of_list_ok [simp]: "bt_ok (bt_of_list kvs)"
  using bt.insert_all [of "[]" kvs] by (simp add: bt_of_list_def)

lemma bt_of_list_get: "bt_get (bt_of_list kvs) k = map_of (rev kvs) k"
  using bt.insert_all [of "[]" kvs k] by (simp add: bt_of_list_def split: option.splits)

text \<open>The object literal \<^verbatim>\<open>json!({...})\<close>.\<close>

definition json_obj :: "(string \<times> json) list \<Rightarrow> json" where
  "json_obj kvs = JObj (bt_of_list kvs)"

text \<open>\<^verbatim>\<open>value.get(key)\<close>: \<open>None\<close> unless the value is an object with that key.\<close>

definition json_get :: "json \<Rightarrow> string \<Rightarrow> json option" where
  "json_get v k = (case v of JObj m \<Rightarrow> bt_get m k | _ \<Rightarrow> None)"

lemma json_get_obj [simp]: "json_get (JObj m) k = bt_get m k"
  by (simp add: json_get_def)

end
