(* ===== verification/Serde.thy ===== *)
theory Serde
  imports Json_Value
begin

text \<open>
  Deserialisation of structs the way the \<^verbatim>\<open>Deserialize\<close> derive does it, over an already parsed
  document. A struct is read from an object (a repeated known field is an error, unknown fields
  are ignored) or from an array (positionally, missing tail elements as absent fields). Each
  field is required, defaulted or optional. Where a document has several faults the code reports
  the first it meets; which one that is, is not modelled.
\<close>

datatype json_error =
    Syntax string
  | DuplicateField string
  | MissingField string
  | InvalidType string
  | InvalidLength nat

fun struct_fields :: "string list \<Rightarrow> json \<Rightarrow> json_error + json option list" where
  "struct_fields names (JObj kvs) =
     (case find (\<lambda>n. 1 < length (filter (\<lambda>kv. fst kv = n) kvs)) names of
        Some n \<Rightarrow> Inl (DuplicateField n)
      | None \<Rightarrow> Inr (map (map_of kvs) names))"
| "struct_fields names (JArr vs) =
     (if length names < length vs then Inl (InvalidLength (length vs))
      else Inr (map Some vs @ replicate (length names - length vs) None))"
| "struct_fields names _ = Inl (InvalidType ''struct'')"

definition dec_string :: "json \<Rightarrow> json_error + string" where
  "dec_string v = (case v of JStr s \<Rightarrow> Inr s | _ \<Rightarrow> Inl (InvalidType ''string''))"

definition dec_bool :: "json \<Rightarrow> json_error + bool" where
  "dec_bool v = (case v of JBool b \<Rightarrow> Inr b | _ \<Rightarrow> Inl (InvalidType ''bool''))"

definition dec_i64 :: "json \<Rightarrow> json_error + i64" where
  "dec_i64 v =
     (case v of JNum n \<Rightarrow> (case number_as_i64 n of Some i \<Rightarrow> Inr i | None \<Rightarrow> Inl (InvalidType ''i64''))
      | _ \<Rightarrow> Inl (InvalidType ''i64''))"

fun dec_all :: "(json \<Rightarrow> json_error + 'a) \<Rightarrow> json list \<Rightarrow> json_error + 'a list" where
  "dec_all f [] = Inr []"
| "dec_all f (v # vs) = and_then (f v) (\<lambda>x. map_ok (\<lambda>xs. x # xs) (dec_all f vs))"

definition dec_vec :: "(json \<Rightarrow> json_error + 'a) \<Rightarrow> json \<Rightarrow> json_error + 'a list" where
  "dec_vec f v = (case v of JArr vs \<Rightarrow> dec_all f vs | _ \<Rightarrow> Inl (InvalidType ''sequence''))"

definition dec_opt :: "(json \<Rightarrow> json_error + 'a) \<Rightarrow> json \<Rightarrow> json_error + 'a option" where
  "dec_opt f v = (if v = JNull then Inr None else map_ok Some (f v))"

definition dec_value :: "json \<Rightarrow> json_error + json" where
  "dec_value v = Inr v"

text \<open>A required field, a field with \<^verbatim>\<open>#[serde(default)]\<close> and an \<^verbatim>\<open>Option\<close> field.\<close>

definition req :: "string \<Rightarrow> (json \<Rightarrow> json_error + 'a) \<Rightarrow> json option \<Rightarrow> json_error + 'a" where
  "req n f ov = (case ov of None \<Rightarrow> Inl (MissingField n) | Some v \<Rightarrow> f v)"

definition dflt :: "'a \<Rightarrow> (json \<Rightarrow> json_error + 'a) \<Rightarrow> json option \<Rightarrow> json_error + 'a" where
  "dflt d f ov = (case ov of None \<Rightarrow> Inr d | Some v \<Rightarrow> f v)"

definition optf :: "(json \<Rightarrow> json_error + 'a) \<Rightarrow> json option \<Rightarrow> json_error + 'a option" where
  "optf f ov = (case ov of None \<Rightarrow> Inr None | Some v \<Rightarrow> dec_opt f v)"

lemma dec_simps [simp]:
  "dec_string (JStr s) = Inr s" "dec_bool (JBool b) = Inr b" "dec_value v = Inr v"
  "dec_vec f (JArr vs) = dec_all f vs" "dec_opt f JNull = Inr None"
  "req n f (Some v) = f v" "req n f None = Inl (MissingField n)"
  "dflt d f None = Inr d" "dflt d f (Some v) = f v" "optf f None = Inr None" "optf f (Some v) = dec_opt f v"
  by (simp_all add: dec_string_def dec_bool_def dec_value_def dec_vec_def dec_opt_def req_def dflt_def optf_def)

lemma dec_opt_Some [simp]: "v \<noteq> JNull \<Longrightarrow> dec_opt f v = map_ok Some (f v)"
  by (simp add: dec_opt_def)

lemma dec_i64_jint [simp]: "in_i64 n \<Longrightarrow> dec_i64 (jint n) = Inr n"
  by (simp add: dec_i64_def jint_def number_of_int_def number_as_i64_def in_i64_def)

lemma dec_all_map: "(\<And>x. x \<in> set xs \<Longrightarrow> f (g x) = Inr x) \<Longrightarrow> dec_all f (map g xs) = Inr xs"
  by (induction xs) auto

lemma dec_all_map2: "(\<And>x. x \<in> set xs \<Longrightarrow> f (g x) = Inr (h x)) \<Longrightarrow> dec_all f (map g xs) = Inr (map h xs)"
  by (induction xs) auto

text \<open>An object with distinct keys is read field by field.\<close>

lemma struct_fields_distinct:
  assumes "distinct (map fst kvs)"
  shows "struct_fields names (JObj kvs) = Inr (map (map_of kvs) names)"
proof -
  have "length (filter (\<lambda>kv. fst kv = n) kvs) \<le> 1" for n
    using assms by (induction kvs) (auto simp: filter_empty_conv image_iff)
  then have "find (\<lambda>n. 1 < length (filter (\<lambda>kv. fst kv = n) kvs)) names = None"
    by (simp add: find_None_iff not_less)
  then show ?thesis by simp
qed

lemma struct_fields_bt: "bt_ok m \<Longrightarrow> struct_fields names (JObj m) = Inr (map (bt_get m) names)"
  by (simp add: struct_fields_distinct bt_ok_def strict_sorted_iff bt_get_def[abs_def] del: struct_fields.simps)

lemma struct_fields_length: "struct_fields names v = Inr fs \<Longrightarrow> length fs = length names"
  by (cases "(names, v)" rule: struct_fields.cases) (auto split: option.splits if_splits)

end
