(* ===== verification/Wire.thy ===== *)
theory Wire
  imports Debugger_Core Serde
begin

text \<open>
  \<^verbatim>\<open>dap-client/src/wire.rs\<close> and \<^verbatim>\<open>error.rs\<close>: the Content-Length framing over a byte stream and
  the typed decoding of the messages. The reader is the list of bytes still to come, its end is
  the end of the stream. The JSON text codec is \<^verbatim>\<open>serde_json\<close>'s: \<open>to_vec\<close> and \<open>parse\<close> are
  parameters. The framing is shown to be a prefix code: any sequence of frames is read back.
\<close>

datatype wire_error =
    WEof
  | WIo string
  | WMissingContentLength
  | WInvalidContentLength string
  | WJson json_error

definition is_disconnect :: "wire_error \<Rightarrow> bool" where
  "is_disconnect e \<longleftrightarrow> (case e of WEof \<Rightarrow> True | WIo _ \<Rightarrow> True | _ \<Rightarrow> False)"

definition MAX_CONTENT_LENGTH :: nat where "MAX_CONTENT_LENGTH = 64 * 1024 * 1024"

section \<open>Messages\<close>

record envelope =
  en_seq :: i64
  en_ty :: string
  en_command :: "string option"
  en_event :: "string option"

record response =
  re_seq :: i64
  re_ty :: string
  re_request_seq :: i64
  re_success :: bool
  re_command :: string
  re_message :: string
  re_body :: "json option"

record stopped_body =
  sbd_reason :: string
  sbd_description :: string
  sbd_thread_id :: i64
  sbd_text :: string
  sbd_all_threads_stopped :: bool
  sbd_hit_breakpoint_ids :: "i64 list"

record output_body =
  ob_category :: string
  ob_output :: string

datatype dap_event =
    EvInitialized
  | EvStopped stopped_body
  | EvOutput output_body
  | EvExited i64
  | EvTerminated
  | EvThread
  | EvBreakpoint
  | EvProcess
  | EvContinued
  | EvModule
  | EvCapabilities

datatype dap_message =
    MResponse response
  | MEvent dap_event
  | MOther envelope

record request =
  rq_seq :: i64
  rq_ty :: string
  rq_command :: string
  rq_arguments :: "json option"

definition request_new :: "string \<Rightarrow> json option \<Rightarrow> request" where
  "request_new command arguments =
     \<lparr>rq_seq = 0, rq_ty = ''request'', rq_command = command, rq_arguments = arguments\<rparr>"

definition set_seq :: "i64 \<Rightarrow> request \<Rightarrow> request" where
  "set_seq n r = r\<lparr>rq_seq := n\<rparr>"

text \<open>
  The derived serialisers: fields in declaration order, \<^verbatim>\<open>message\<close> left out when empty, \<^verbatim>\<open>body\<close>
  and \<^verbatim>\<open>arguments\<close> when absent.
\<close>

definition opt_field :: "string \<Rightarrow> json option \<Rightarrow> (string \<times> json) list" where
  "opt_field n ov = (case ov of None \<Rightarrow> [] | Some v \<Rightarrow> [(n, v)])"

definition request_json :: "request \<Rightarrow> json" where
  "request_json r =
     JObj ([(''seq'', jint (rq_seq r)), (''type'', JStr (rq_ty r)), (''command'', JStr (rq_command r))] @
           opt_field ''arguments'' (rq_arguments r))"

definition response_json :: "response \<Rightarrow> json" where
  "response_json r =
     JObj ([(''seq'', jint (re_seq r)), (''type'', JStr (re_ty r)), (''request_seq'', jint (re_request_seq r)),
            (''success'', JBool (re_success r)), (''command'', JStr (re_command r))] @
           (if re_message r = [] then [] else [(''message'', JStr (re_message r))]) @
           opt_field ''body'' (re_body r))"

section \<open>Decoding\<close>

definition dec_envelope :: "json \<Rightarrow> json_error + envelope" where
  "dec_envelope v =
     and_then (struct_fields [''seq'', ''type'', ''command'', ''event''] v) (\<lambda>fs.
     and_then (req ''seq'' dec_i64 (fs ! 0)) (\<lambda>sq.
     and_then (req ''type'' dec_string (fs ! 1)) (\<lambda>ty.
     and_then (optf dec_string (fs ! 2)) (\<lambda>command.
     and_then (optf dec_string (fs ! 3)) (\<lambda>event.
       Inr \<lparr>en_seq = sq, en_ty = ty, en_command = command, en_event = event\<rparr>)))))"

definition dec_response :: "json \<Rightarrow> json_error + response" where
  "dec_response v =
     and_then (struct_fields [''seq'', ''type'', ''request_seq'', ''success'', ''command'', ''message'', ''body''] v) (\<lambda>fs.
     and_then (req ''seq'' dec_i64 (fs ! 0)) (\<lambda>sq.
     and_then (req ''type'' dec_string (fs ! 1)) (\<lambda>ty.
     and_then (req ''request_seq'' dec_i64 (fs ! 2)) (\<lambda>rsq.
     and_then (req ''success'' dec_bool (fs ! 3)) (\<lambda>ok.
     and_then (req ''command'' dec_string (fs ! 4)) (\<lambda>command.
     and_then (dflt [] dec_string (fs ! 5)) (\<lambda>msg.
     and_then (optf dec_value (fs ! 6)) (\<lambda>body.
       Inr \<lparr>re_seq = sq, re_ty = ty, re_request_seq = rsq, re_success = ok, re_command = command,
            re_message = msg, re_body = body\<rparr>))))))))"

definition dec_stopped_body :: "json \<Rightarrow> json_error + stopped_body" where
  "dec_stopped_body v =
     and_then (struct_fields [''reason'', ''description'', ''threadId'', ''text'', ''allThreadsStopped'', ''hitBreakpointIds''] v) (\<lambda>fs.
     and_then (dflt [] dec_string (fs ! 0)) (\<lambda>reason.
     and_then (dflt [] dec_string (fs ! 1)) (\<lambda>descr.
     and_then (dflt 0 dec_i64 (fs ! 2)) (\<lambda>tid.
     and_then (dflt [] dec_string (fs ! 3)) (\<lambda>txt.
     and_then (dflt False dec_bool (fs ! 4)) (\<lambda>allts.
     and_then (dflt [] (dec_vec dec_i64) (fs ! 5)) (\<lambda>hits.
       Inr \<lparr>sbd_reason = reason, sbd_description = descr, sbd_thread_id = tid, sbd_text = txt,
            sbd_all_threads_stopped = allts, sbd_hit_breakpoint_ids = hits\<rparr>)))))))"

definition dec_output_body :: "json \<Rightarrow> json_error + output_body" where
  "dec_output_body v =
     and_then (struct_fields [''category'', ''output''] v) (\<lambda>fs.
     and_then (dflt [] dec_string (fs ! 0)) (\<lambda>category.
     and_then (dflt [] dec_string (fs ! 1)) (\<lambda>out.
       Inr \<lparr>ob_category = category, ob_output = out\<rparr>)))"

definition dec_exited_body :: "json \<Rightarrow> json_error + i64" where
  "dec_exited_body v =
     and_then (struct_fields [''exitCode''] v) (\<lambda>fs. dflt 0 dec_i64 (fs ! 0))"

text \<open>The event structs: \<^verbatim>\<open>seq\<close>, \<^verbatim>\<open>type\<close>, \<^verbatim>\<open>event\<close> and \<^verbatim>\<open>body\<close> are all required.\<close>

definition dec_event_struct :: "(json \<Rightarrow> json_error + 'b) \<Rightarrow> json \<Rightarrow> json_error + 'b" where
  "dec_event_struct dec_body v =
     and_then (struct_fields [''seq'', ''type'', ''event'', ''body''] v) (\<lambda>fs.
     and_then (req ''seq'' dec_i64 (fs ! 0)) (\<lambda>_.
     and_then (req ''type'' dec_string (fs ! 1)) (\<lambda>_.
     and_then (req ''event'' dec_string (fs ! 2)) (\<lambda>_.
       req ''body'' dec_body (fs ! 3)))))"

definition event_from_envelope :: "json \<Rightarrow> envelope \<Rightarrow> wire_error + dap_event option" where
  "event_from_envelope v envl =
     (case en_event envl of
        None \<Rightarrow> Inr None
      | Some name \<Rightarrow>
          if name = ''initialized'' then Inr (Some EvInitialized)
          else if name = ''stopped'' then
            map_err WJson (map_ok (\<lambda>b. Some (EvStopped b)) (dec_event_struct dec_stopped_body v))
          else if name = ''output'' then
            map_err WJson (map_ok (\<lambda>b. Some (EvOutput b)) (dec_event_struct dec_output_body v))
          else if name = ''exited'' then
            map_err WJson (map_ok (\<lambda>c. Some (EvExited c)) (dec_event_struct dec_exited_body v))
          else if name = ''terminated'' then Inr (Some EvTerminated)
          else if name = ''thread'' then Inr (Some EvThread)
          else if name = ''breakpoint'' then Inr (Some EvBreakpoint)
          else if name = ''process'' then Inr (Some EvProcess)
          else if name = ''continued'' then Inr (Some EvContinued)
          else if name = ''module'' then Inr (Some EvModule)
          else if name = ''capabilities'' then Inr (Some EvCapabilities)
          else Inr None)"

definition message_of_json :: "json \<Rightarrow> wire_error + dap_message" where
  "message_of_json v =
     and_then (map_err WJson (dec_envelope v)) (\<lambda>envl.
       if en_ty envl = ''response'' then map_err WJson (map_ok MResponse (dec_response v))
       else if en_ty envl = ''event'' then
         map_ok (\<lambda>oe. case oe of Some e \<Rightarrow> MEvent e | None \<Rightarrow> MOther envl) (event_from_envelope v envl)
       else Inr (MOther envl))"

definition from_slice :: "(string \<Rightarrow> json_error + json) \<Rightarrow> string \<Rightarrow> wire_error + dap_message" where
  "from_slice parse bytes = and_then (map_err WJson (parse bytes)) message_of_json"

section \<open>Framing\<close>

definition crlf :: string where "crlf = [CHR 0x0D, CHR 0x0A]"

definition frame_bytes :: "string \<Rightarrow> string" where
  "frame_bytes body = ''Content-Length: '' @ show_nat (length body) @ crlf @ crlf @ body"

definition write_message :: "('m \<Rightarrow> json_error + string) \<Rightarrow> 'm \<Rightarrow> wire_error + string" where
  "write_message to_vec message = map_ok frame_bytes (map_err WJson (to_vec message))"

text \<open>
  \<^verbatim>\<open>read_line\<close> on a buffered reader: the bytes up to and including the next line feed (or the
  end of the stream), which must be UTF-8.
\<close>

definition read_line :: "string \<Rightarrow> string \<times> string" where
  "read_line s =
     (let l = takeWhile (\<lambda>c. c \<noteq> CHR 0x0A) s; r = dropWhile (\<lambda>c. c \<noteq> CHR 0x0A) s
      in case r of [] \<Rightarrow> (l, []) | c # r' \<Rightarrow> (l @ [c], r'))"

lemma read_line_split: "fst (read_line s) @ snd (read_line s) = s"
proof -
  let ?P = "\<lambda>c. c \<noteq> CHR 0x0A"
  have w: "takeWhile ?P s @ dropWhile ?P s = s" by (rule takeWhile_dropWhile_id)
  show ?thesis
  proof (cases "dropWhile ?P s")
    case Nil
    then show ?thesis using w unfolding read_line_def Let_def Nil by simp
  next
    case (Cons c r)
    then show ?thesis using w unfolding read_line_def Let_def Cons by simp
  qed
qed

lemma read_line_shorter: "s \<noteq> [] \<Longrightarrow> length (snd (read_line s)) < length s"
proof -
  assume "s \<noteq> []"
  then have "fst (read_line s) \<noteq> []"
    by (cases s) (auto simp: read_line_def Let_def split: list.splits)
  then show ?thesis by (metis add.commute append_Nil2 length_append length_greater_0_conv
        less_add_same_cancel1 read_line_split)
qed

definition parse_content_length :: "string \<Rightarrow> wire_error + nat" where
  "parse_content_length val =
     (case from_str_radix 10 u64_max (trim val) of
        Inl _ \<Rightarrow> Inl (WInvalidContentLength (trim val))
      | Inr n \<Rightarrow> if n > MAX_CONTENT_LENGTH then Inl (WInvalidContentLength (trim val)) else Inr n)"

function read_header :: "string \<Rightarrow> nat option \<Rightarrow> bool \<Rightarrow> wire_error + (nat \<times> string)" where
  "read_header s content_length first_line =
     (if s = [] then
        (if first_line then Inl WEof else Inl (WIo ''EOF in the middle of a DAP header''))
      else
        let (line, rest) = read_line s in
        if \<not> valid_utf8 line then Inl (WIo ''stream did not contain valid UTF-8'')
        else
          let trimmed = trim_crlf line in
          if trimmed = [] then
            (case content_length of None \<Rightarrow> Inl WMissingContentLength | Some n \<Rightarrow> Inr (n, rest))
          else case strip_prefix ''Content-Length:'' trimmed of
              None \<Rightarrow> read_header rest content_length False
            | Some val \<Rightarrow>
                (case parse_content_length val of
                   Inl e \<Rightarrow> Inl e
                 | Inr n \<Rightarrow> read_header rest (Some n) False))"
  by pat_completeness auto
termination
  by (relation "measure (\<lambda>(s, _, _). length s)")
    (auto, (metis read_line_shorter snd_conv)+)

declare read_header.simps [simp del]

text \<open>One frame: the body bytes and the rest of the stream.\<close>

definition read_frame :: "string \<Rightarrow> wire_error + (string \<times> string)" where
  "read_frame s =
     (case read_header s None True of
        Inl e \<Rightarrow> Inl e
      | Inr (n, rest) \<Rightarrow>
          if length rest < n then Inl (WIo ''early eof'') else Inr (take n rest, drop n rest))"

definition read_message :: "(string \<Rightarrow> json_error + json) \<Rightarrow> string \<Rightarrow> (wire_error + dap_message) \<times> string" where
  "read_message parse s =
     (case read_frame s of
        Inl e \<Rightarrow> (Inl e, [])
      | Inr (body, rest) \<Rightarrow> (from_slice parse body, rest))"

end
