(* ===== verification/Wire_Laws.thy ===== *)
theory Wire_Laws
  imports Wire
begin

text \<open>
  The framing is a prefix code: frames written one after the other are read back one by one, a
  cut frame yields no message, and what a read consumes is a header and a body of the announced
  length. The interface is the locale \<open>framed_codec\<close>; the reader and writer of \<^verbatim>\<open>wire.rs\<close> are its
  interpretation. The response struct survives a round trip through its serialised object.
\<close>

section \<open>Lines and header fields\<close>

lemma read_line_LF:
  assumes "CHR 0x0A \<notin> set p"
  shows "read_line (p @ CHR 0x0A # r) = (p @ [CHR 0x0A], r)"
proof -
  have "takeWhile (\<lambda>c. c \<noteq> CHR 0x0A) (p @ CHR 0x0A # r) = p"
    "dropWhile (\<lambda>c. c \<noteq> CHR 0x0A) (p @ CHR 0x0A # r) = CHR 0x0A # r"
    using assms by (induction p) auto
  then show ?thesis by (simp add: read_line_def)
qed

lemma read_line_no_LF:
  assumes "CHR 0x0A \<notin> set s"
  shows "read_line s = (s, [])"
proof -
  have "takeWhile (\<lambda>c. c \<noteq> CHR 0x0A) s = s" "dropWhile (\<lambda>c. c \<noteq> CHR 0x0A) s = []"
    using assms by (induction s) auto
  then show ?thesis unfolding read_line_def Let_def by (simp only: list.case)
qed

text \<open>Strings of decimal digits, as \<open>show_nat\<close> prints them.\<close>

definition digits :: "string \<Rightarrow> bool" where
  "digits s \<longleftrightarrow> (\<forall>c \<in> set s. \<exists>d < 16. c = hex_digit d)"

lemma digits_show_nat: "digits (show_nat n)"
  using to_radix_chars [of 10] by (auto simp: digits_def show_nat_def)

lemma show_nat_nonempty [simp]: "show_nat n \<noteq> []"
  by (simp add: show_nat_def)

lemma digits_ws_len: "digits s \<Longrightarrow> ws_len s = 0"
proof (cases s)
  case (Cons c r)
  assume "digits s"
  with Cons obtain d where "d < 16" "c = hex_digit d" by (auto simp: digits_def)
  with Cons show ?thesis by (simp add: hex_digit_facts)
qed (simp add: ws_len_def)

lemma digits_drop: "digits s \<Longrightarrow> digits (drop k s)"
  by (auto simp: digits_def dest: in_set_dropD)

lemma digits_trim_end: "digits s \<Longrightarrow> trim_end s = s"
  by (subst trim_end.simps) (simp add: ws_len_end_def Let_def digits_ws_len digits_drop)

lemma trim_digits: "digits s \<Longrightarrow> trim (CHR '' '' # s) = s"
proof -
  assume d: "digits s"
  have "ws_len (CHR '' '' # s) = 1"
    by (simp add: ws_len_def byte_at_def byte_of_def between_def)
  then have "trim_start (CHR '' '' # s) = trim_start s" by (simp add: trim_start.simps [of "CHR '' '' # s"])
  also have "\<dots> = s" using digits_ws_len [OF d] by (simp add: trim_start.simps [of s])
  finally show ?thesis by (simp add: trim_def digits_trim_end [OF d])
qed

lemma digits_chars: "digits s \<Longrightarrow> CHR 0x0A \<notin> set s \<and> CHR 0x0D \<notin> set s \<and> ascii s"
proof -
  assume d: "digits s"
  have "c \<noteq> CHR 0x0A \<and> c \<noteq> CHR 0x0D \<and> byte_of c < 0x80" if "c \<in> set s" for c
    using d that hex_digit_facts(2,6,7) unfolding digits_def by metis
  then show ?thesis unfolding ascii_def by blast
qed

lemma parse_content_length_show:
  "n \<le> MAX_CONTENT_LENGTH \<Longrightarrow> parse_content_length (CHR '' '' # show_nat n) = Inr n"
  by (simp add: parse_content_length_def trim_digits [OF digits_show_nat])
    (simp add: show_nat_def from_str_to_radix u64_max_def MAX_CONTENT_LENGTH_def)

lemma trim_crlf_crlf:
  assumes "CHR 0x0D \<notin> set p" "CHR 0x0A \<notin> set p"
  shows "trim_crlf (p @ [CHR 0x0D, CHR 0x0A]) = p"
proof -
  have "dropWhile (\<lambda>c. c = CHR 0x0D \<or> c = CHR 0x0A) (rev p) = rev p"
  proof (cases "rev p")
    case (Cons c r)
    then have "c \<in> set p" by (metis list.set_intros(1) set_rev)
    with assms Cons show ?thesis by auto
  qed simp
  then show ?thesis by (simp add: trim_crlf_def)
qed

abbreviation length_line :: "nat \<Rightarrow> string" where
  "length_line n \<equiv> ''Content-Length: '' @ show_nat n"

lemma length_line_facts:
  "CHR 0x0A \<notin> set (length_line n)" "CHR 0x0D \<notin> set (length_line n)" "ascii (length_line n)"
  using digits_chars [OF digits_show_nat [of n]] by (auto simp: byte_of_def)

lemma read_header_length_line:
  assumes "n \<le> MAX_CONTENT_LENGTH"
  shows "read_header (length_line n @ crlf @ r) cl fl = read_header r (Some n) False"
proof -
  let ?l = "length_line n @ [CHR 0x0D, CHR 0x0A]"
  have rl: "read_line (length_line n @ crlf @ r) = (?l, r)"
    using read_line_LF [of "length_line n @ [CHR 0x0D]" r] length_line_facts(1) [of n]
    by (simp add: crlf_def)
  have "valid_utf8 ?l" using length_line_facts(3) [of n] by (intro valid_utf8_ascii) (simp add: byte_of_def)
  moreover have "trim_crlf ?l = length_line n"
    by (intro trim_crlf_crlf length_line_facts)
  moreover have "strip_prefix ''Content-Length:'' (length_line n) = Some (CHR '' '' # show_nat n)"
    by (simp add: strip_prefix_def starts_with_def)
  ultimately show ?thesis
    using rl parse_content_length_show [OF assms]
    by (subst read_header.simps) simp
qed

lemma read_header_blank: "read_header (crlf @ r) (Some n) fl = Inr (n, r)"
proof -
  have "read_line (crlf @ r) = (crlf, r)"
    using read_line_LF [of "[CHR 0x0D]" r] by (simp add: crlf_def)
  moreover have "valid_utf8 crlf" by (intro valid_utf8_ascii) (simp add: crlf_def byte_of_def)
  moreover have "trim_crlf crlf = []" by (simp add: trim_crlf_def crlf_def)
  ultimately show ?thesis by (subst read_header.simps) (simp add: crlf_def)
qed

section \<open>Frames\<close>

lemma read_frame_frame:
  assumes "length b \<le> MAX_CONTENT_LENGTH"
  shows "read_frame (frame_bytes b @ r) = Inr (b, r)"
proof -
  have "read_header (frame_bytes b @ r) None True = Inr (length b, b @ r)"
    using read_header_length_line [OF assms, of "crlf @ b @ r" None True]
    by (simp add: frame_bytes_def read_header_blank)
  then show ?thesis by (simp add: read_frame_def)
qed

lemma read_frame_Nil [simp]: "read_frame [] = Inl WEof"
  by (simp add: read_frame_def read_header.simps)

lemma read_header_suffix: "read_header s cl fl = Inr (n, r) \<Longrightarrow> strict_suffix r s"
proof (induction s cl fl rule: read_header.induct)
  case (1 s cl fl)
  from "1.prems" have ne: "s \<noteq> []" by (auto simp: read_header.simps [of s] split: if_splits)
  obtain l r' where rl: "read_line s = (l, r')" by (cases "read_line s")
  from read_line_split [of s] read_line_shorter [OF ne] rl have suf: "strict_suffix r' s"
    by (auto simp: strict_suffix_def suffix_def)
  from "1.prems" have v: "valid_utf8 l"
    by (auto simp: read_header.simps [of s] rl ne split: if_splits)
  show ?case
  proof (cases "trim_crlf l = []")
    case True
    with "1.prems" v rl ne have "r = r'"
      by (auto simp: read_header.simps [of s] split: option.splits)
    with suf show ?thesis by simp
  next
    case False
    show ?thesis
    proof (cases "strip_prefix ''Content-Length:'' (trim_crlf l)")
      case None
      with "1.prems" v rl ne False have "read_header r' cl False = Inr (n, r)"
        by (simp add: read_header.simps [of s])
      with "1.IH"(1) [OF ne rl [symmetric] refl _ refl False None] v suf show ?thesis
        by (auto intro: suffix_order.less_trans)
    next
      case (Some val)
      with "1.prems" v rl ne False obtain m where m: "parse_content_length val = Inr m"
        "read_header r' (Some m) False = Inr (n, r)"
        by (auto simp: read_header.simps [of s] split: sum.splits)
      with "1.IH"(2) [OF ne rl [symmetric] refl _ refl False Some m(1)] v suf show ?thesis
        by (auto intro: suffix_order.less_trans)
    qed
  qed
qed

lemma read_frame_sound:
  "read_frame s = Inr (b, r) \<Longrightarrow> \<exists>h. h \<noteq> [] \<and> s = h @ b @ r"
proof -
  assume "read_frame s = Inr (b, r)"
  then obtain n rest where h: "read_header s None True = Inr (n, rest)" "b = take n rest" "r = drop n rest"
    by (auto simp: read_frame_def split: sum.splits if_splits)
  from read_header_suffix [OF h(1)] h(2,3) show ?thesis
    by (auto simp: strict_suffix_def suffix_def)
qed

text \<open>The announced length is the one the code accepts.\<close>

lemma parse_content_length_le: "parse_content_length v = Inr n \<Longrightarrow> n \<le> MAX_CONTENT_LENGTH"
  by (auto simp: parse_content_length_def split: sum.splits if_splits)

lemma read_header_le:
  "read_header s cl fl = Inr (n, r) \<Longrightarrow> (\<forall>m. cl = Some m \<longrightarrow> m \<le> MAX_CONTENT_LENGTH) \<Longrightarrow> n \<le> MAX_CONTENT_LENGTH"
proof (induction s cl fl rule: read_header.induct)
  case (1 s cl fl)
  from "1.prems" have ne: "s \<noteq> []" by (auto simp: read_header.simps [of s] split: if_splits)
  obtain l r' where rl: "read_line s = (l, r')" by (cases "read_line s")
  from "1.prems" have v: "valid_utf8 l"
    by (auto simp: read_header.simps [of s] rl ne split: if_splits)
  show ?case
  proof (cases "trim_crlf l = []")
    case True
    with "1.prems" v rl ne show ?thesis
      by (auto simp: read_header.simps [of s] split: option.splits)
  next
    case False
    show ?thesis
    proof (cases "strip_prefix ''Content-Length:'' (trim_crlf l)")
      case None
      with "1.prems" v rl ne False have "read_header r' cl False = Inr (n, r)"
        by (simp add: read_header.simps [of s])
      with "1.IH"(1) [OF ne rl [symmetric] refl _ refl False None] v "1.prems"(2) show ?thesis by blast
    next
      case (Some val)
      with "1.prems" v rl ne False obtain m where m: "parse_content_length val = Inr m"
        "read_header r' (Some m) False = Inr (n, r)"
        by (auto simp: read_header.simps [of s] split: sum.splits)
      with "1.IH"(2) [OF ne rl [symmetric] refl _ refl False Some m(1)] v parse_content_length_le
      show ?thesis by blast
    qed
  qed
qed

lemma read_frame_length: "read_frame s = Inr (b, r) \<Longrightarrow> length b \<le> MAX_CONTENT_LENGTH"
  using read_header_le [of s None True]
  by (auto simp: read_frame_def split: sum.splits if_splits)


section \<open>The codec interface\<close>

locale framed_codec =
  fixes good :: "'b \<Rightarrow> bool"
    and enc :: "'b \<Rightarrow> 'c list"
    and dec :: "'c list \<Rightarrow> 'e + ('b \<times> 'c list)"
    and eof :: 'e
  assumes dec_enc: "good b \<Longrightarrow> dec (enc b @ r) = Inr (b, r)"
    and dec_empty: "dec [] = Inl eof"
    and dec_sound: "dec s = Inr (b, r) \<Longrightarrow> strict_suffix r s \<and> good b"
begin

lemma enc_nonempty: "good b \<Longrightarrow> enc b \<noteq> []"
  using dec_enc [of b "[]"] dec_empty by auto

lemma enc_prefix_free: "good a \<Longrightarrow> good b \<Longrightarrow> enc a @ r = enc b @ s \<Longrightarrow> a = b \<and> r = s"
  by (metis Pair_inject dec_enc sum.inject(2))

text \<open>Unique decodability: a stream is the concatenation of at most one list of frames.\<close>

lemma stream_inj:
  "list_all good as \<Longrightarrow> list_all good bs \<Longrightarrow> concat (map enc as) = concat (map enc bs) \<Longrightarrow> as = bs"
proof (induction as arbitrary: bs)
  case Nil
  then show ?case using enc_nonempty by (cases bs) auto
next
  case (Cons a as)
  show ?case
  proof (cases bs)
    case Nil
    with Cons.prems show ?thesis using enc_nonempty by auto
  next
    case (Cons b bs')
    with Cons.prems enc_prefix_free [of a b "concat (map enc as)" "concat (map enc bs')"] Cons.IH [of bs']
    show ?thesis by auto
  qed
qed

end

lemma read_frame_strict: "read_frame s = Inr (b, r) \<Longrightarrow> strict_suffix r s"
  using read_frame_sound [of s b r] by (force simp: strict_suffix_def suffix_def)

interpretation dap_frames: framed_codec "\<lambda>b. length b \<le> MAX_CONTENT_LENGTH" frame_bytes read_frame WEof
  by unfold_locales (auto simp: read_frame_frame read_frame_strict read_frame_length)

section \<open>Reading a stream\<close>

text \<open>The messages of a stream up to the error that ends it (the reading side of \<^verbatim>\<open>ReadLoop::run\<close>).\<close>

function read_all :: "(string \<Rightarrow> json_error + json) \<Rightarrow> string \<Rightarrow> dap_message list \<times> wire_error" where
  "read_all parse s =
     (case read_message parse s of
        (Inl e, _) \<Rightarrow> ([], e)
      | (Inr m, rest) \<Rightarrow> let (ms, e) = read_all parse rest in (m # ms, e))"
  by pat_completeness auto

lemma read_message_shorter:
  "read_message parse s = (Inr m, rest) \<Longrightarrow> length rest < length s"
  using read_frame_strict [of s]
  by (auto simp: read_message_def split: sum.splits intro: suffix_length_less)

termination read_all
  by (relation "measure (\<lambda>(_, s). length s)") (auto dest!: sym [of _ "read_message _ _"] simp: read_message_shorter)

declare read_all.simps [simp del]

lemma read_all_Nil [simp]: "read_all parse [] = ([], WEof)"
  by (simp add: read_all.simps read_message_def)

lemma read_all_frame:
  "length b \<le> MAX_CONTENT_LENGTH \<Longrightarrow> from_slice parse b = Inr m \<Longrightarrow>
     read_all parse (frame_bytes b @ s) = (m # fst (read_all parse s), snd (read_all parse s))"
  by (simp add: read_all.simps [of parse "frame_bytes b @ s"] read_message_def read_frame_frame split_beta)

text \<open>A frame whose bytes stop short, when its body is not empty, ends the stream with an error.\<close>

lemma read_header_no_LF:
  assumes "CHR 0x0A \<notin> set s"
  shows "\<exists>e. read_header s None fl = Inl e"
proof (cases "s = []")
  case False
  have nil: "\<exists>e. read_header [] cl False = Inl e" for cl by (simp add: read_header.simps)
  from False nil read_line_no_LF [OF assms] show ?thesis
    by (subst read_header.simps) (auto simp: Let_def split: option.split sum.split)
qed (simp add: read_header.simps)

lemma read_header_cr: "read_header [CHR 0x0D] (Some n) False = Inr (n, [])"
proof -
  have "valid_utf8 [CHR 0x0D]" by (intro valid_utf8_ascii) (simp add: byte_of_def)
  moreover have "read_line [CHR 0x0D] = ([CHR 0x0D], [])" by (rule read_line_no_LF) simp
  ultimately show ?thesis by (subst read_header.simps) (simp add: trim_crlf_def)
qed

lemma read_frame_cut:
  assumes b: "b \<noteq> []" "length b \<le> MAX_CONTENT_LENGTH" and k: "k < length (frame_bytes b)"
  shows "\<exists>e. read_frame (take k (frame_bytes b)) = Inl e"
proof -
  define l where "l = length_line (length b) @ [CHR 0x0D]"
  let ?n = "length l"
  have f: "frame_bytes b = l @ CHR 0x0A # crlf @ b"
    by (simp add: frame_bytes_def crlf_def l_def)
  have full: "read_header (l @ CHR 0x0A # t) None True = read_header t (Some (length b)) False" for t
    using read_header_length_line [OF b(2), of t] by (simp add: crlf_def l_def)
  have noLF: "CHR 0x0A \<notin> set l"
    using length_line_facts(1) [of "length b"] by (simp add: l_def)
  consider "k \<le> ?n" | j where "k = ?n + Suc j" "j < Suc (Suc (length b))"
    using k by (cases "k \<le> ?n") (auto simp: f crlf_def not_le less_iff_Suc_add)
  then show ?thesis
  proof cases
    case 1
    then have "take k (frame_bytes b) = take k l" by (simp add: f)
    moreover have "CHR 0x0A \<notin> set (take k l)"
      using noLF in_set_takeD [of _ k l] by auto
    ultimately obtain e where "read_header (take k (frame_bytes b)) None True = Inl e"
      using read_header_no_LF [of "take k l" True] by auto
    then show ?thesis by (simp add: read_frame_def)
  next
    case 2
    then have t: "take k (frame_bytes b) = l @ CHR 0x0A # take j (crlf @ b)"
      by (simp add: f)
    consider "j = 0" | "j = 1" | i where "j = Suc (Suc i)" "i < length b"
      using 2(2) by (metis One_nat_def less_SucE less_imp_Suc_add not0_implies_Suc not_less_eq)
    then show ?thesis
    proof cases
      assume "j = 0"
      then show ?thesis
        using full [of "[]"] by (simp add: read_frame_def t read_header.simps [of "[]"])
    next
      assume "j = 1"
      with b(1) show ?thesis by (simp add: read_frame_def t full crlf_def read_header_cr)
    next
      fix i assume "j = Suc (Suc i)" "i < length b"
      then have "take j (crlf @ b) = crlf @ take i b" by (simp add: crlf_def)
      with \<open>i < length b\<close> show ?thesis
        by (simp add: read_frame_def t full read_header_blank)
    qed
  qed
qed

text \<open>
  C13. Frames of bodies of at most 64 MiB, each a decodable message, written one after the other
  are read back as exactly those messages in order, and the loop then ends with a clean end of
  stream; if the last frame is cut anywhere, the messages before it are still read and the
  loop ends without inventing one.
\<close>

theorem frames_read_back:
  assumes "list_all (\<lambda>(b, m). length b \<le> MAX_CONTENT_LENGTH \<and> from_slice parse b = Inr m) bms"
    and "b \<noteq> []" "length b \<le> MAX_CONTENT_LENGTH" "k < length (frame_bytes b)"
  shows "read_all parse (concat (map (frame_bytes \<circ> fst) bms)) = (map snd bms, WEof) \<and>
    (\<exists>e. read_all parse (concat (map (frame_bytes \<circ> fst) bms) @ take k (frame_bytes b)) = (map snd bms, e))"
proof -
  obtain e where e: "read_frame (take k (frame_bytes b)) = Inl e"
    using read_frame_cut [OF assms(2-)] by blast
  have cut: "read_all parse (take k (frame_bytes b)) = ([], e)"
    by (simp add: read_all.simps [of _ "take k (frame_bytes b)"] read_message_def e)
  from assms(1) show ?thesis
  proof (induction bms)
    case Nil
    with cut show ?case by auto
  next
    case (Cons bm bms)
    then show ?case by (auto simp: read_all_frame split_beta)
  qed
qed

definition sample_parse :: "string \<Rightarrow> json_error + json" where
  "sample_parse s =
     (if s = ''{}'' then
        Inr (JObj [(''seq'', jint 1), (''type'', JStr ''event''), (''event'', JStr ''terminated'')])
      else Inl (Syntax s))"

lemma sample_parse_message: "from_slice sample_parse ''{}'' = Inr (MEvent EvTerminated)"
  by (simp add: sample_parse_def from_slice_def message_of_json_def dec_envelope_def
      event_from_envelope_def in_i64_def i64_min_def i64_max_def)

lemma frames_read_back_witness:
  "read_all sample_parse (concat (map (frame_bytes \<circ> fst) [(''{}'', MEvent EvTerminated)])) =
     ([MEvent EvTerminated], WEof)"
  using frames_read_back [of sample_parse "[(''{}'', MEvent EvTerminated)]" "''{}''" 0] sample_parse_message
  by (simp add: MAX_CONTENT_LENGTH_def frame_bytes_def)

section \<open>Responses\<close>

text \<open>
  A response written by the derived serialiser is read back as the same response, unless its
  body is an explicit \<^verbatim>\<open>null\<close> (which reads as no body).
\<close>

theorem response_round_trip:
  assumes "re_ty r = ''response''" "in_i64 (re_seq r)" "in_i64 (re_request_seq r)" "re_body r \<noteq> Some JNull"
  shows "message_of_json (response_json r) = Inr (MResponse r)"
proof -
  have "dec_envelope (response_json r) =
      Inr \<lparr>en_seq = re_seq r, en_ty = re_ty r, en_command = Some (re_command r), en_event = None\<rparr>"
    using assms by (cases "re_message r = []"; cases "re_body r")
      (simp_all add: dec_envelope_def response_json_def opt_field_def)
  moreover have "dec_response (response_json r) = Inr r"
    using assms by (cases "re_message r = []"; cases "re_body r"; cases r)
      (simp_all add: dec_response_def response_json_def opt_field_def)
  ultimately show ?thesis using assms(1) by (simp add: message_of_json_def)
qed

definition sample_response :: response where
  "sample_response = \<lparr>re_seq = 2, re_ty = ''response'', re_request_seq = 1, re_success = True,
     re_command = ''threads'', re_message = [], re_body = Some (JObj [])\<rparr>"

lemma response_round_trip_witness:
  "message_of_json (response_json sample_response) = Inr (MResponse sample_response)"
  by (rule response_round_trip) (simp_all add: sample_response_def in_i64_def i64_min_def i64_max_def)

end
