(* ===== verification/Dap_Client.thy ===== *)
theory Dap_Client
  imports Wire_Laws
begin

text \<open>
  \<^verbatim>\<open>dap-client/src/client.rs\<close>, \<^verbatim>\<open>stop_waiter.rs\<close> and \<^verbatim>\<open>read_loop.rs\<close>: the state shared between the
  callers and the read loop, with every lock-protected section as one function of it. A oneshot
  channel is a cell of a store, its sender the cell's index: a cell is waiting until its sender
  sends or is dropped. A receiver that is dropped is not modelled: sending to it has no effect
  anybody can see. The cells of responses carry the request number they were made for, which the
  code has in the local variable next to the receiver.
\<close>

section \<open>Oneshot channels\<close>

datatype 'a cell = Waiting | Delivered 'a | Abandoned

definition cell_send :: "nat \<Rightarrow> 'a \<Rightarrow> 'a cell list \<Rightarrow> 'a cell list" where
  "cell_send t v cs = cs[t := Delivered v]"

definition cell_drop :: "nat option \<Rightarrow> 'a cell list \<Rightarrow> 'a cell list" where
  "cell_drop ot cs = (case ot of None \<Rightarrow> cs | Some t \<Rightarrow> cs[t := Abandoned])"

section \<open>State\<close>

type_synonym pending_result = "backend_error + dap_message"

record client =
  cl_seq :: i64
  cl_pending :: "(i64, nat) hash_map"
  cl_responses :: "pending_result cell list"
  cl_made_for :: "i64 list"
  cl_stop_slot :: "nat option"
  cl_stops :: "stop_outcome cell list"
  cl_fired :: bool
  cl_init_waiter :: "nat option"
  cl_inits :: "unit cell list"
  cl_output :: "(string \<times> string) list"
  cl_term_tx :: bool
  cl_term :: "i64 option cell"
  cl_last_exit :: "i64 option"
  cl_closed :: "wire_error option"

definition client_new :: client where
  "client_new =
     \<lparr>cl_seq = 0, cl_pending = [], cl_responses = [], cl_made_for = [], cl_stop_slot = None, cl_stops = [],
      cl_fired = False, cl_init_waiter = None, cl_inits = [], cl_output = [], cl_term_tx = True,
      cl_term = Waiting, cl_last_exit = None, cl_closed = None\<rparr>"

section \<open>Requests and responses\<close>

definition next_seq :: "client \<Rightarrow> i64 \<times> client" where
  "next_seq c = (let n = wrap_i64 (cl_seq c + 1) in (n, c\<lparr>cl_seq := n\<rparr>))"

text \<open>A second registration under the same number drops the first sender.\<close>

definition register_pending :: "i64 \<Rightarrow> client \<Rightarrow> nat \<times> client" where
  "register_pending sq c =
     (let t = length (cl_responses c) in
      (t, c\<lparr>cl_responses := cell_drop (hm_get (cl_pending c) sq) (cl_responses c) @ [Waiting],
            cl_made_for := cl_made_for c @ [sq],
            cl_pending := hm_insert sq t (cl_pending c)\<rparr>))"

definition remove_pending :: "i64 \<Rightarrow> client \<Rightarrow> nat option \<times> client" where
  "remove_pending sq c = (hm_get (cl_pending c) sq, c\<lparr>cl_pending := hm_remove sq (cl_pending c)\<rparr>)"

text \<open>\<^verbatim>\<open>AbortGuard::drop\<close> and the rollback of a failed write: the removed sender is dropped.\<close>

definition abort_pending :: "i64 \<Rightarrow> client \<Rightarrow> client" where
  "abort_pending sq c =
     (case remove_pending sq c of (ot, c') \<Rightarrow> c'\<lparr>cl_responses := cell_drop ot (cl_responses c')\<rparr>)"

definition dispatch_response :: "i64 \<Rightarrow> dap_message \<Rightarrow> client \<Rightarrow> bool \<times> client" where
  "dispatch_response sq m c =
     (case remove_pending sq c of
        (None, c') \<Rightarrow> (False, c')
      | (Some t, c') \<Rightarrow> (True, c'\<lparr>cl_responses := cell_send t (Inr m) (cl_responses c')\<rparr>))"

definition cancel_all_pending :: "backend_error \<Rightarrow> client \<Rightarrow> client" where
  "cancel_all_pending err c =
     (let drained = map snd (cl_pending c) in
      c\<lparr>cl_pending := [],
        cl_responses := fold (\<lambda>t cs. cell_send t (Inl err) cs) drained (cl_responses c)\<rparr>)"

definition show_wire_error :: "(json_error \<Rightarrow> string) \<Rightarrow> wire_error \<Rightarrow> string" where
  "show_wire_error show_json e =
     (case e of
        WEof \<Rightarrow> ''connection closed (EOF)''
      | WIo m \<Rightarrow> ''io error: '' @ m
      | WMissingContentLength \<Rightarrow> ''missing Content-Length header''
      | WInvalidContentLength v \<Rightarrow> ''invalid Content-Length header: '' @ v
      | WJson j \<Rightarrow> ''malformed DAP message body: '' @ show_json j)"

text \<open>
  A send in its steps, between which other tasks run: the number and the registration, the write
  (whose outcome is the transport's), the wait. \<open>send_start\<close> gives the receiver, the number and
  the frame's request; \<open>send_written\<close> what the sender sees after the write.
\<close>

definition send_start :: "request \<Rightarrow> client \<Rightarrow> (nat \<times> i64 \<times> request) \<times> client" where
  "send_start r c =
     (case next_seq c of (sq, c1) \<Rightarrow>
        case register_pending sq c1 of (t, c2) \<Rightarrow> ((t, sq, set_seq sq r), c2))"

definition send_written ::
  "(json_error \<Rightarrow> string) \<Rightarrow> i64 \<Rightarrow> wire_error option \<Rightarrow> client \<Rightarrow> (backend_error + unit) \<times> client" where
  "send_written show_json sq failed c =
     (case failed of
        None \<Rightarrow> (Inr (), c)
      | Some e \<Rightarrow> (Inl (Send (show_wire_error show_json e)), abort_pending sq c))"

text \<open>What a receiver sees when polled: nothing yet, or the result.\<close>

definition poll_response :: "nat \<Rightarrow> client \<Rightarrow> pending_result option" where
  "poll_response t c =
     (case cl_responses c ! t of
        Waiting \<Rightarrow> None
      | Delivered r \<Rightarrow> Some r
      | Abandoned \<Rightarrow> Some (Inl Closed))"

section \<open>The stop waiter\<close>

definition stop_register :: "client \<Rightarrow> nat \<times> client" where
  "stop_register c =
     (let t = length (cl_stops c) in
      (t, c\<lparr>cl_stops := cell_drop (cl_stop_slot c) (cl_stops c) @ [Waiting], cl_stop_slot := Some t\<rparr>))"

definition stop_send :: "stop_outcome \<Rightarrow> client \<Rightarrow> client" where
  "stop_send outcome c =
     (case cl_stop_slot c of
        None \<Rightarrow> c
      | Some t \<Rightarrow> c\<lparr>cl_stop_slot := None, cl_stops := cell_send t outcome (cl_stops c)\<rparr>)"

definition stop_info_from_event :: "stopped_body \<Rightarrow> stop_info" where
  "stop_info_from_event b =
     \<lparr>si_reason = sbd_reason b, si_thread_id = sbd_thread_id b, si_description = sbd_description b,
      si_hit_breakpoint_ids = sbd_hit_breakpoint_ids b\<rparr>"

definition stop_deliver :: "stopped_body \<Rightarrow> client \<Rightarrow> client" where
  "stop_deliver b = stop_send (Stopped (stop_info_from_event b))"

definition stop_deliver_exit :: "i64 \<Rightarrow> client \<Rightarrow> client" where
  "stop_deliver_exit code = stop_send (Exited (Some code))"

definition stop_cancel :: "client \<Rightarrow> client" where
  "stop_cancel = stop_send Terminated"

definition poll_stop :: "nat \<Rightarrow> client \<Rightarrow> stop_outcome option option" where
  "poll_stop t c =
     (case cl_stops c ! t of Waiting \<Rightarrow> None | Delivered r \<Rightarrow> Some (Some r) | Abandoned \<Rightarrow> Some None)"

section \<open>The initialized latch\<close>

definition signal_initialized :: "client \<Rightarrow> client" where
  "signal_initialized c =
     (case cl_init_waiter c of
        None \<Rightarrow> c\<lparr>cl_fired := True\<rparr>
      | Some t \<Rightarrow> c\<lparr>cl_fired := True, cl_init_waiter := None, cl_inits := cell_send t () (cl_inits c)\<rparr>)"

text \<open>\<^verbatim>\<open>wait_initialized\<close> up to its await: no receiver when the event has come already.\<close>

definition wait_initialized :: "client \<Rightarrow> nat option \<times> client" where
  "wait_initialized c =
     (if cl_fired c then (None, c)
      else let t = length (cl_inits c) in
        (Some t, c\<lparr>cl_inits := cell_drop (cl_init_waiter c) (cl_inits c) @ [Waiting], cl_init_waiter := Some t\<rparr>))"

definition init_done :: "nat option \<Rightarrow> client \<Rightarrow> bool" where
  "init_done ot c = (case ot of None \<Rightarrow> True | Some t \<Rightarrow> cl_inits c ! t \<noteq> Waiting)"

section \<open>The read loop\<close>

definition fire_terminated :: "client \<Rightarrow> client" where
  "fire_terminated c =
     (if cl_term_tx c then c\<lparr>cl_term_tx := False, cl_term := Delivered (cl_last_exit c)\<rparr> else c)"

definition record_exit :: "i64 \<Rightarrow> client \<Rightarrow> client" where
  "record_exit code c = c\<lparr>cl_last_exit := Some code\<rparr>"

definition send_output :: "output_body \<Rightarrow> client \<Rightarrow> client" where
  "send_output b c = c\<lparr>cl_output := cl_output c @ [(ob_category b, ob_output b)]\<rparr>"

fun dispatch_event :: "dap_event \<Rightarrow> client \<Rightarrow> client" where
  "dispatch_event (EvStopped b) c = stop_deliver b c"
| "dispatch_event EvInitialized c = signal_initialized c"
| "dispatch_event (EvOutput b) c = send_output b c"
| "dispatch_event (EvExited code) c = stop_deliver_exit code (record_exit code c)"
| "dispatch_event EvTerminated c = stop_cancel (fire_terminated c)"
| "dispatch_event EvThread c = c"
| "dispatch_event EvBreakpoint c = c"
| "dispatch_event EvProcess c = c"
| "dispatch_event EvContinued c = c"
| "dispatch_event EvModule c = c"
| "dispatch_event EvCapabilities c = c"

fun dispatch_message :: "dap_message \<Rightarrow> client \<Rightarrow> client" where
  "dispatch_message (MEvent e) c = dispatch_event e c"
| "dispatch_message (MResponse r) c = snd (dispatch_response (re_request_seq r) (MResponse r) c)"
| "dispatch_message (MOther envl) c = c"

definition close_once :: "wire_error \<Rightarrow> client \<Rightarrow> bool \<times> client" where
  "close_once e c = (if cl_closed c = None then (True, c\<lparr>cl_closed := Some e\<rparr>) else (False, c))"

definition recover :: "wire_error \<Rightarrow> client \<Rightarrow> client" where
  "recover e c = fire_terminated (stop_cancel (cancel_all_pending Closed (snd (close_once e c))))"

text \<open>The loop on its own: the messages of the stream one by one, then the recovery.\<close>

definition run_loop :: "(string \<Rightarrow> json_error + json) \<Rightarrow> string \<Rightarrow> client \<Rightarrow> client" where
  "run_loop parse stream c =
     (case read_all parse stream of (ms, e) \<Rightarrow> recover e (fold dispatch_message ms c))"

section \<open>Interleavings\<close>

text \<open>
  The atomic steps of all the tasks that share the client. The read loop's steps end with its
  recovery; callers may go on after it.
\<close>

inductive client_step :: "client \<Rightarrow> client \<Rightarrow> bool" where
  step_send: "snd (send_start r c) = c' \<Longrightarrow> client_step c c'"
| step_write_failed: "abort_pending sq c = c' \<Longrightarrow> client_step c c'"
| step_register_stop: "snd (stop_register c) = c' \<Longrightarrow> client_step c c'"
| step_wait_initialized: "snd (wait_initialized c) = c' \<Longrightarrow> client_step c c'"
| step_message: "cl_closed c = None \<Longrightarrow> dispatch_message m c = c' \<Longrightarrow> client_step c c'"
| step_recover: "cl_closed c = None \<Longrightarrow> recover e c = c' \<Longrightarrow> client_step c c'"

inductive client_steps :: "client \<Rightarrow> client \<Rightarrow> bool" where
  steps_refl: "client_steps c c"
| steps_step: "client_steps c c' \<Longrightarrow> client_step c' c'' \<Longrightarrow> client_steps c c''"

definition reachable_client :: "client \<Rightarrow> bool" where
  "reachable_client c \<longleftrightarrow> client_steps client_new c"

inductive_cases client_stepE: "client_step c c'"

end
