(* ===== verification/Lldb_Requests.thy ===== *)
theory Lldb_Requests
  imports Wire
begin

text \<open>
  \<^verbatim>\<open>lldb-backend/src/requests.rs\<close> and \<^verbatim>\<open>args.rs\<close>: the requests the backend sends, with the
  argument objects lldb-dap reads, and the omission rules of the launch and attach arguments.
  Objects are ordered maps, so the order in which the code inserts fields is not visible.
\<close>

section \<open>Requests\<close>

definition json_map :: "(string \<times> json) list \<Rightarrow> jmap" where
  "json_map kvs = fold (\<lambda>(k, v). bt_insert k v) kvs []"

lemma json_map_get: "bt_get (json_map kvs) k = map_of (rev kvs) k"
  using bt_of_list_get [of kvs k] by (simp add: json_map_def bt_of_list_def)

lemma json_map_ok [simp]: "bt_ok (json_map kvs)"
  using bt_of_list_ok [of kvs] by (simp add: json_map_def bt_of_list_def)

definition req_initialize :: request where
  "req_initialize =
     request_new ''initialize''
       (Some (json_obj
          [(''clientID'', JStr ''lldb-debug-mcp''),
           (''adapterID'', JStr ''lldb-dap''),
           (''pathFormat'', JStr ''path''),
           (''linesStartAt1'', JBool True),
           (''columnsStartAt1'', JBool True),
           (''supportsVariableType'', JBool True),
           (''supportsRunInTerminalRequest'', JBool False)]))"

definition req_launch :: "json \<Rightarrow> request" where
  "req_launch args = request_new ''launch'' (Some args)"

definition req_attach :: "json \<Rightarrow> request" where
  "req_attach args = request_new ''attach'' (Some args)"

definition source_bp_json :: "source_bp \<Rightarrow> json" where
  "source_bp_json b =
     (let m = bt_insert ''line'' (jint (sb_line b)) []
      in JObj (if sb_condition b \<noteq> [] then bt_insert ''condition'' (JStr (sb_condition b)) m else m))"

definition req_set_breakpoints :: "string \<Rightarrow> source_bp list \<Rightarrow> request" where
  "req_set_breakpoints file bps =
     request_new ''setBreakpoints''
       (Some (json_obj
          [(''source'', json_obj [(''path'', JStr file)]),
           (''breakpoints'', JArr (map source_bp_json bps))]))"

definition function_bp_json :: "function_bp \<Rightarrow> json" where
  "function_bp_json b =
     (let m = bt_insert ''name'' (JStr (fb_name b)) []
      in JObj (if fb_condition b \<noteq> [] then bt_insert ''condition'' (JStr (fb_condition b)) m else m))"

definition req_set_function_breakpoints :: "function_bp list \<Rightarrow> request" where
  "req_set_function_breakpoints bps =
     request_new ''setFunctionBreakpoints''
       (Some (json_obj [(''breakpoints'', JArr (map function_bp_json bps))]))"

definition req_set_exception_breakpoints :: request where
  "req_set_exception_breakpoints =
     request_new ''setExceptionBreakpoints'' (Some (json_obj [(''filters'', JArr [])]))"

definition req_configuration_done :: request where
  "req_configuration_done = request_new ''configurationDone'' None"

definition req_cont :: "i64 \<Rightarrow> request" where
  "req_cont thread_id = request_new ''continue'' (Some (json_obj [(''threadId'', jint thread_id)]))"

definition req_step :: "string \<Rightarrow> i64 \<Rightarrow> string option \<Rightarrow> request" where
  "req_step command thread_id gran =
     (let args = bt_insert ''threadId'' (jint thread_id) []
      in request_new command
           (Some (JObj (case gran of None \<Rightarrow> args | Some g \<Rightarrow> bt_insert ''granularity'' (JStr g) args))))"

definition req_pause :: request where
  "req_pause = request_new ''pause'' (Some (json_obj [(''threadId'', jint 0)]))"

definition req_threads :: request where
  "req_threads = request_new ''threads'' None"

definition req_stack_trace :: "i64 \<Rightarrow> i64 \<Rightarrow> i64 \<Rightarrow> request" where
  "req_stack_trace thread_id start levels =
     request_new ''stackTrace''
       (Some (json_obj
          [(''threadId'', jint thread_id),
           (''startFrame'', jint start),
           (''levels'', jint levels)]))"

definition req_scopes :: "i64 \<Rightarrow> request" where
  "req_scopes frame_id = request_new ''scopes'' (Some (json_obj [(''frameId'', jint frame_id)]))"

definition req_variables :: "i64 \<Rightarrow> request" where
  "req_variables reference =
     request_new ''variables'' (Some (json_obj [(''variablesReference'', jint reference)]))"

definition req_evaluate :: "string \<Rightarrow> i64 option \<Rightarrow> string \<Rightarrow> request" where
  "req_evaluate expression frame_id ctxt =
     (let args = bt_insert ''expression'' (JStr expression) [];
          args = (case frame_id of None \<Rightarrow> args | Some fid \<Rightarrow> bt_insert ''frameId'' (jint fid) args)
      in request_new ''evaluate'' (Some (JObj (bt_insert ''context'' (JStr ctxt) args))))"

definition req_read_memory :: "string \<Rightarrow> i64 \<Rightarrow> request" where
  "req_read_memory address count =
     request_new ''readMemory''
       (Some (json_obj [(''memoryReference'', JStr address), (''count'', jint count)]))"

definition req_disassemble :: "string \<Rightarrow> i64 \<Rightarrow> request" where
  "req_disassemble address count =
     request_new ''disassemble''
       (Some (json_obj [(''memoryReference'', JStr address), (''instructionCount'', jint count)]))"

definition req_disconnect :: "bool \<Rightarrow> request" where
  "req_disconnect terminate =
     request_new ''disconnect'' (Some (json_obj [(''terminateDebuggee'', JBool terminate)]))"

section \<open>Launch and attach arguments\<close>

record lldb_launch_args =
  la_program :: string
  la_args :: "string list"
  la_cwd :: string
  la_env :: "(string \<times> string) list"
  la_stop_on_entry :: bool
  la_init_commands :: "string list"
  la_pre_run_commands :: "string list"
  la_post_run_commands :: "string list"
  la_stop_commands :: "string list"
  la_exit_commands :: "string list"
  la_terminate_commands :: "string list"

definition lldb_launch_args_new ::
  "string \<Rightarrow> string list \<Rightarrow> string option \<Rightarrow> (string \<times> string) list \<Rightarrow> bool \<Rightarrow> lldb_launch_args" where
  "lldb_launch_args_new program args cwd envs stop_on_entry =
     \<lparr>la_program = program, la_args = args, la_cwd = (case cwd of None \<Rightarrow> [] | Some d \<Rightarrow> d), la_env = envs,
      la_stop_on_entry = stop_on_entry, la_init_commands = [], la_pre_run_commands = [],
      la_post_run_commands = [], la_stop_commands = [], la_exit_commands = [], la_terminate_commands = []\<rparr>"

record lldb_attach_args =
  aa_pid :: i64
  aa_program :: string
  aa_wait_for :: bool
  aa_stop_on_entry :: bool
  aa_attach_commands :: "string list"
  aa_core_file :: string

definition lldb_attach_args_new :: "i64 option \<Rightarrow> string option \<Rightarrow> lldb_attach_args" where
  "lldb_attach_args_new pid wait_for_name =
     (let a = \<lparr>aa_pid = 0, aa_program = [], aa_wait_for = False, aa_stop_on_entry = True,
               aa_attach_commands = [], aa_core_file = []\<rparr>;
          by_name = a\<lparr>aa_wait_for := True,
                      aa_program := (case wait_for_name of None \<Rightarrow> [] | Some n \<Rightarrow> n)\<rparr>
      in case pid of
           Some p \<Rightarrow> if p > 0 then a\<lparr>aa_pid := p\<rparr> else by_name
         | None \<Rightarrow> by_name)"

definition json_strs :: "string list \<Rightarrow> json" where
  "json_strs xs = JArr (map JStr xs)"

definition insert_if :: "bool \<Rightarrow> string \<Rightarrow> json \<Rightarrow> jmap \<Rightarrow> jmap" where
  "insert_if present key v m = (if present then bt_insert key v m else m)"

definition insert_str_list :: "string \<Rightarrow> string list \<Rightarrow> jmap \<Rightarrow> jmap" where
  "insert_str_list key xs m = (if xs \<noteq> [] then bt_insert key (json_strs xs) m else m)"

definition launch_args_to_value :: "lldb_launch_args \<Rightarrow> json" where
  "launch_args_to_value a =
     (let m = bt_insert ''program'' (JStr (la_program a)) [];
          m = insert_if (la_args a \<noteq> []) ''args'' (json_strs (la_args a)) m;
          m = insert_if (la_cwd a \<noteq> []) ''cwd'' (JStr (la_cwd a)) m;
          m = insert_if (la_env a \<noteq> []) ''env'' (JObj (json_map (map (\<lambda>(k, v). (k, JStr v)) (la_env a)))) m;
          m = insert_if (la_stop_on_entry a) ''stopOnEntry'' (JBool True) m;
          m = insert_str_list ''initCommands'' (la_init_commands a) m;
          m = insert_str_list ''preRunCommands'' (la_pre_run_commands a) m;
          m = insert_str_list ''postRunCommands'' (la_post_run_commands a) m;
          m = insert_str_list ''stopCommands'' (la_stop_commands a) m;
          m = insert_str_list ''exitCommands'' (la_exit_commands a) m;
          m = insert_str_list ''terminateCommands'' (la_terminate_commands a) m
      in JObj m)"

definition attach_args_to_value :: "lldb_attach_args \<Rightarrow> json" where
  "attach_args_to_value a =
     (let m = insert_if (aa_pid a \<noteq> 0) ''pid'' (jint (aa_pid a)) [];
          m = insert_if (aa_program a \<noteq> []) ''program'' (JStr (aa_program a)) m;
          m = insert_if (aa_wait_for a) ''waitFor'' (JBool True) m;
          m = insert_if (aa_stop_on_entry a) ''stopOnEntry'' (JBool True) m;
          m = insert_str_list ''attachCommands'' (aa_attach_commands a) m;
          m = insert_if (aa_core_file a \<noteq> []) ''coreFile'' (JStr (aa_core_file a)) m
      in JObj m)"

section \<open>Which fields reach the debugger\<close>

lemma get_insert_if: "bt_get (insert_if p k v m) k' = (if p \<and> k' = k then Some v else bt_get m k')"
  by (simp add: insert_if_def)

lemma get_insert_str_list:
  "bt_get (insert_str_list k xs m) k' = (if xs \<noteq> [] \<and> k' = k then Some (json_strs xs) else bt_get m k')"
  by (simp add: insert_str_list_def)

lemma launch_args_lookup:
  "json_get (launch_args_to_value (lldb_launch_args_new prog args cwd envs soe)) k =
     (if k = ''program'' then Some (JStr prog)
      else if k = ''args'' \<and> args \<noteq> [] then Some (json_strs args)
      else if k = ''cwd'' \<and> cwd \<noteq> None \<and> cwd \<noteq> Some [] then Some (JStr (the cwd))
      else if k = ''env'' \<and> envs \<noteq> [] then Some (JObj (json_map (map (\<lambda>(k, v). (k, JStr v)) envs)))
      else if k = ''stopOnEntry'' \<and> soe then Some (JBool True)
      else None)"
  by (cases cwd)
    (simp_all add: launch_args_to_value_def Let_def get_insert_if get_insert_str_list lldb_launch_args_new_def)

lemma env_lookup:
  "bt_get (json_map (map (\<lambda>(k, v). (k, JStr v)) envs)) n = map_option JStr (map_of (rev envs) n)"
proof -
  have "map_of (rev (map (\<lambda>(k, v). (k, JStr v)) envs)) n = map_of (map (\<lambda>(k, v). (k, JStr v)) (rev envs)) n"
    by (simp add: rev_map)
  also have "\<dots> = map_option JStr (map_of (rev envs) n)"
    by (simp add: map_of_map)
  finally show ?thesis by (simp add: json_map_get)
qed

text \<open>
  The launch arguments hold the program always, and the arguments, the working directory, the
  environment and stopOnEntry exactly when they are non-empty or true; nothing else. In the
  environment object a later setting of a variable wins.
\<close>

theorem launch_args_omit_empty:
  "json_get (launch_args_to_value (lldb_launch_args_new prog args cwd envs soe)) k =
     (if k = ''program'' then Some (JStr prog)
      else if k = ''args'' \<and> args \<noteq> [] then Some (json_strs args)
      else if k = ''cwd'' \<and> cwd \<noteq> None \<and> cwd \<noteq> Some [] then Some (JStr (the cwd))
      else if k = ''env'' \<and> envs \<noteq> [] then Some (JObj (json_map (map (\<lambda>(k, v). (k, JStr v)) envs)))
      else if k = ''stopOnEntry'' \<and> soe then Some (JBool True)
      else None) \<and>
   bt_get (json_map (map (\<lambda>(k, v). (k, JStr v)) envs)) n = map_option JStr (map_of (rev envs) n)"
  by (intro conjI launch_args_lookup env_lookup)

text \<open>
  Attaching by a positive pid sends the pid and stopOnEntry only; in every other case it
  waits for the process by name (the name left out when it is empty).
\<close>

theorem attach_args_by_pid_or_name:
  "json_get (attach_args_to_value (lldb_attach_args_new pid name)) k =
     (case pid of
        Some p \<Rightarrow>
          if p > 0 then (if k = ''pid'' then Some (jint p) else if k = ''stopOnEntry'' then Some (JBool True) else None)
          else json_get (attach_args_to_value (lldb_attach_args_new None name)) k
      | None \<Rightarrow>
          (if k = ''waitFor'' \<or> k = ''stopOnEntry'' then Some (JBool True)
           else if k = ''program'' \<and> name \<noteq> None \<and> name \<noteq> Some [] then Some (JStr (the name)) else None))"
  by (cases pid; cases name)
    (simp_all add: attach_args_to_value_def Let_def get_insert_if get_insert_str_list lldb_attach_args_new_def)

end
