(* ===== verification/Lldb_Body.thy ===== *)
theory Lldb_Body
  imports Debugger_Core Serde
begin

text \<open>
  \<^verbatim>\<open>lldb-backend/src/body.rs\<close>: the typed decoding of response bodies into the neutral types. The
  base64 decoder (a third-party crate) and the text of a JSON error are parameters.
\<close>

section \<open>The body structs\<close>

definition dec_source :: "json \<Rightarrow> json_error + string" where
  "dec_source v = and_then (struct_fields [''path''] v) (\<lambda>fs. dflt [] dec_string (fs ! 0))"

record dap_stack_frame =
  df_id :: i64
  df_name :: string
  df_source :: "string option"
  df_line :: i64
  df_instruction_pointer_reference :: string

definition dec_stack_frame :: "json \<Rightarrow> json_error + dap_stack_frame" where
  "dec_stack_frame v =
     and_then (struct_fields [''id'', ''name'', ''source'', ''line'', ''instructionPointerReference''] v) (\<lambda>fs.
     and_then (req ''id'' dec_i64 (fs ! 0)) (\<lambda>fid.
     and_then (dflt [] dec_string (fs ! 1)) (\<lambda>name.
     and_then (dflt None (dec_opt dec_source) (fs ! 2)) (\<lambda>source.
     and_then (dflt 0 dec_i64 (fs ! 3)) (\<lambda>line.
     and_then (dflt [] dec_string (fs ! 4)) (\<lambda>ip.
       Inr \<lparr>df_id = fid, df_name = name, df_source = source, df_line = line,
            df_instruction_pointer_reference = ip\<rparr>))))))"

definition dec_stack_trace_body :: "json \<Rightarrow> json_error + (dap_stack_frame list \<times> i64)" where
  "dec_stack_trace_body v =
     and_then (struct_fields [''stackFrames'', ''totalFrames''] v) (\<lambda>fs.
     and_then (dflt [] (dec_vec dec_stack_frame) (fs ! 0)) (\<lambda>frames.
     and_then (dflt 0 dec_i64 (fs ! 1)) (\<lambda>total. Inr (frames, total))))"

definition dec_thread :: "json \<Rightarrow> json_error + thread_info" where
  "dec_thread v =
     and_then (struct_fields [''id'', ''name''] v) (\<lambda>fs.
     and_then (req ''id'' dec_i64 (fs ! 0)) (\<lambda>tid.
     and_then (dflt [] dec_string (fs ! 1)) (\<lambda>name. Inr \<lparr>th_id = tid, th_name = name\<rparr>)))"

definition dec_scope :: "json \<Rightarrow> json_error + scope" where
  "dec_scope v =
     and_then (struct_fields [''name'', ''variablesReference''] v) (\<lambda>fs.
     and_then (dflt [] dec_string (fs ! 0)) (\<lambda>name.
     and_then (dflt 0 dec_i64 (fs ! 1)) (\<lambda>r. Inr \<lparr>sc_name = name, sc_variables_reference = r\<rparr>)))"

definition dec_variable :: "json \<Rightarrow> json_error + variable" where
  "dec_variable v =
     and_then (struct_fields [''name'', ''value'', ''type'', ''variablesReference'', ''namedVariables'', ''indexedVariables''] v) (\<lambda>fs.
     and_then (dflt [] dec_string (fs ! 0)) (\<lambda>name.
     and_then (dflt [] dec_string (fs ! 1)) (\<lambda>val.
     and_then (dflt [] dec_string (fs ! 2)) (\<lambda>ty.
     and_then (dflt 0 dec_i64 (fs ! 3)) (\<lambda>r.
     and_then (dflt 0 dec_i64 (fs ! 4)) (\<lambda>named.
     and_then (dflt 0 dec_i64 (fs ! 5)) (\<lambda>indexed.
       Inr \<lparr>va_name = name, va_value = val, va_ty = ty, va_variables_reference = r,
            va_named = named, va_indexed = indexed\<rparr>)))))))"

definition dec_evaluate_body :: "json \<Rightarrow> json_error + eval_result" where
  "dec_evaluate_body v =
     and_then (struct_fields [''result'', ''type'', ''variablesReference''] v) (\<lambda>fs.
     and_then (dflt [] dec_string (fs ! 0)) (\<lambda>res.
     and_then (dflt [] dec_string (fs ! 1)) (\<lambda>ty.
     and_then (dflt 0 dec_i64 (fs ! 2)) (\<lambda>r.
       Inr \<lparr>er_result = res, er_ty = ty, er_variables_reference = r\<rparr>))))"

definition dec_read_memory_body :: "json \<Rightarrow> json_error + (string \<times> string)" where
  "dec_read_memory_body v =
     and_then (struct_fields [''address'', ''data''] v) (\<lambda>fs.
     and_then (dflt [] dec_string (fs ! 0)) (\<lambda>address.
     and_then (dflt [] dec_string (fs ! 1)) (\<lambda>data. Inr (address, data))))"

record dap_instruction =
  di_address :: string
  di_instruction :: string
  di_instruction_bytes :: string
  di_symbol :: string
  di_location :: "string option"
  di_line :: i64

definition dec_instruction :: "json \<Rightarrow> json_error + dap_instruction" where
  "dec_instruction v =
     and_then (struct_fields [''address'', ''instruction'', ''instructionBytes'', ''symbol'', ''location'', ''line''] v) (\<lambda>fs.
     and_then (dflt [] dec_string (fs ! 0)) (\<lambda>address.
     and_then (dflt [] dec_string (fs ! 1)) (\<lambda>ins.
     and_then (dflt [] dec_string (fs ! 2)) (\<lambda>bytes.
     and_then (dflt [] dec_string (fs ! 3)) (\<lambda>sym.
     and_then (dflt None (dec_opt dec_source) (fs ! 4)) (\<lambda>location.
     and_then (dflt 0 dec_i64 (fs ! 5)) (\<lambda>line.
       Inr \<lparr>di_address = address, di_instruction = ins, di_instruction_bytes = bytes,
            di_symbol = sym, di_location = location, di_line = line\<rparr>)))))))"

definition dec_breakpoint :: "json \<Rightarrow> json_error + breakpoint_result" where
  "dec_breakpoint v =
     and_then (struct_fields [''id'', ''verified'', ''line'', ''message''] v) (\<lambda>fs.
     and_then (dflt 0 dec_i64 (fs ! 0)) (\<lambda>bid.
     and_then (dflt False dec_bool (fs ! 1)) (\<lambda>verified.
     and_then (dflt 0 dec_i64 (fs ! 2)) (\<lambda>line.
     and_then (dflt [] dec_string (fs ! 3)) (\<lambda>msg.
       Inr \<lparr>br_id = bid, br_verified = verified, br_line = line, br_message = msg\<rparr>)))))"

text \<open>A struct of one defaulted list field.\<close>

definition dec_list_body :: "string \<Rightarrow> (json \<Rightarrow> json_error + 'a) \<Rightarrow> json \<Rightarrow> json_error + 'a list" where
  "dec_list_body field dec v =
     and_then (struct_fields [field] v) (\<lambda>fs. dflt [] (dec_vec dec) (fs ! 0))"

section \<open>Response bodies\<close>

definition decode_body ::
  "(json_error \<Rightarrow> string) \<Rightarrow> (json \<Rightarrow> json_error + 'a) \<Rightarrow> json option \<Rightarrow> backend_error + 'a" where
  "decode_body show_json dec body =
     map_err (\<lambda>e. Dap (''malformed response body: '' @ show_json e))
       (dec (case body of None \<Rightarrow> JObj [] | Some v \<Rightarrow> v))"

definition nonempty_opt :: "string option \<Rightarrow> string option" where
  "nonempty_opt os = (case os of None \<Rightarrow> None | Some s \<Rightarrow> if s = [] then None else Some s)"

definition frame_of_dap :: "nat \<Rightarrow> dap_stack_frame \<Rightarrow> frame" where
  "frame_of_dap i f =
     \<lparr>fr_index = int i, fr_id = df_id f, fr_name = df_name f, fr_source_path = nonempty_opt (df_source f),
      fr_line = df_line f, fr_instruction_pointer = nonempty_opt (Some (df_instruction_pointer_reference f))\<rparr>"

definition body_stack_trace :: "(json_error \<Rightarrow> string) \<Rightarrow> json option \<Rightarrow> backend_error + (frame list \<times> i64)" where
  "body_stack_trace show_json body =
     map_ok (\<lambda>(frames, total). (map (\<lambda>(i, f). frame_of_dap i f) (enumerate 0 frames), total))
       (decode_body show_json dec_stack_trace_body body)"

definition body_threads :: "(json_error \<Rightarrow> string) \<Rightarrow> json option \<Rightarrow> backend_error + thread_info list" where
  "body_threads show_json body = decode_body show_json (dec_list_body ''threads'' dec_thread) body"

definition body_scopes :: "(json_error \<Rightarrow> string) \<Rightarrow> json option \<Rightarrow> backend_error + scope list" where
  "body_scopes show_json body = decode_body show_json (dec_list_body ''scopes'' dec_scope) body"

definition body_variables :: "(json_error \<Rightarrow> string) \<Rightarrow> json option \<Rightarrow> backend_error + variable list" where
  "body_variables show_json body = decode_body show_json (dec_list_body ''variables'' dec_variable) body"

definition body_evaluate :: "(json_error \<Rightarrow> string) \<Rightarrow> json option \<Rightarrow> backend_error + eval_result" where
  "body_evaluate show_json body = decode_body show_json dec_evaluate_body body"

definition body_read_memory ::
  "(json_error \<Rightarrow> string) \<Rightarrow> (string \<Rightarrow> string + byte list) \<Rightarrow> json option \<Rightarrow> backend_error + memory_read" where
  "body_read_memory show_json base64 body =
     and_then (decode_body show_json dec_read_memory_body body) (\<lambda>(address, data).
       map_ok (\<lambda>bytes. \<lparr>mr_address = address, mr_data = bytes\<rparr>)
         (if data = [] then Inr []
          else map_err (\<lambda>e. Dap (''failed to decode memory data: '' @ e)) (base64 data)))"

definition instruction_of_dap :: "dap_instruction \<Rightarrow> instruction" where
  "instruction_of_dap i =
     \<lparr>in_address = di_address i, in_instruction = di_instruction i, in_bytes = di_instruction_bytes i,
      in_symbol = di_symbol i, in_source_path = nonempty_opt (di_location i), in_line = di_line i\<rparr>"

definition body_disassemble :: "(json_error \<Rightarrow> string) \<Rightarrow> json option \<Rightarrow> backend_error + instruction list" where
  "body_disassemble show_json body =
     map_ok (map instruction_of_dap)
       (decode_body show_json (dec_list_body ''instructions'' dec_instruction) body)"

definition body_breakpoints :: "(json_error \<Rightarrow> string) \<Rightarrow> json option \<Rightarrow> backend_error + breakpoint_result list" where
  "body_breakpoints show_json body =
     decode_body show_json (dec_list_body ''breakpoints'' dec_breakpoint) body"

section \<open>What a body decodes to\<close>

text \<open>The wire shape of a frame and of a variable, as the protocol has it.\<close>

definition stack_frame_json :: "dap_stack_frame \<Rightarrow> json" where
  "stack_frame_json f =
     json_obj ([(''id'', jint (df_id f)), (''name'', JStr (df_name f)), (''line'', jint (df_line f)),
                (''column'', jint 0), (''instructionPointerReference'', JStr (df_instruction_pointer_reference f))] @
               (case df_source f of None \<Rightarrow> [] | Some p \<Rightarrow> [(''source'', json_obj [(''path'', JStr p)])]))"

definition variable_json :: "variable \<Rightarrow> json" where
  "variable_json v =
     json_obj [(''name'', JStr (va_name v)), (''value'', JStr (va_value v)), (''type'', JStr (va_ty v)),
               (''variablesReference'', jint (va_variables_reference v)),
               (''namedVariables'', jint (va_named v)), (''indexedVariables'', jint (va_indexed v))]"

lemma struct_fields_obj: "struct_fields names (json_obj kvs) = Inr (map (map_of (rev kvs)) names)"
  using struct_fields_bt [of "bt_of_list kvs" names] bt_of_list_get [of kvs]
  by (simp add: json_obj_def bt_of_list_get[abs_def] del: struct_fields.simps)

definition variable_in_range :: "variable \<Rightarrow> bool" where
  "variable_in_range v \<longleftrightarrow> in_i64 (va_variables_reference v) \<and> in_i64 (va_named v) \<and> in_i64 (va_indexed v)"

lemma dec_variable_json: "variable_in_range v \<Longrightarrow> dec_variable (variable_json v) = Inr v"
  by (simp add: dec_variable_def variable_json_def struct_fields_obj variable_in_range_def)

lemma dec_source_obj: "dec_source (json_obj [(''path'', JStr p)]) = Inr p"
  by (simp add: dec_source_def struct_fields_obj)

lemma json_obj_not_null [simp]: "json_obj kvs \<noteq> JNull"
  by (simp add: json_obj_def)

lemma dec_stack_frame_json:
  "in_i64 (df_id f) \<Longrightarrow> in_i64 (df_line f) \<Longrightarrow> dec_stack_frame (stack_frame_json f) = Inr f"
  by (cases "df_source f"; cases f)
    (simp_all add: dec_stack_frame_def stack_frame_json_def struct_fields_obj dec_source_obj)

lemma list_body_json:
  assumes "\<And>x. x \<in> set xs \<Longrightarrow> dec (enc x) = Inr x"
  shows "dec_list_body field dec (json_obj [(field, JArr (map enc xs))]) = Inr xs"
  using dec_all_map [of xs dec enc] assms by (simp add: dec_list_body_def struct_fields_obj)

text \<open>
  A stackTrace body decodes to the frames in order, numbered from 0, with an absent or empty
  source path and an empty instruction pointer read as none; a missing body is an empty trace.
\<close>

theorem stack_trace_decoded:
  assumes "\<forall>f \<in> set fs. in_i64 (df_id f) \<and> in_i64 (df_line f)" "in_i64 n"
  shows "body_stack_trace show_json
       (Some (json_obj [(''stackFrames'', JArr (map stack_frame_json fs)), (''totalFrames'', jint n)])) =
     Inr (map (\<lambda>i. frame_of_dap i (fs ! i)) [0..<length fs], n) \<and>
   body_stack_trace show_json None = Inr ([], 0)"
proof -
  have "dec_all dec_stack_frame (map stack_frame_json fs) = Inr fs"
    using assms(1) by (intro dec_all_map) (simp add: dec_stack_frame_json)
  then have "decode_body show_json dec_stack_trace_body
       (Some (json_obj [(''stackFrames'', JArr (map stack_frame_json fs)), (''totalFrames'', jint n)])) =
     Inr (fs, n)"
    using assms(2) by (simp add: decode_body_def dec_stack_trace_body_def struct_fields_obj)
  moreover have "map (\<lambda>(i, f). frame_of_dap i f) (enumerate 0 fs) = map (\<lambda>i. frame_of_dap i (fs ! i)) [0..<length fs]"
    by (rule nth_equalityI) (simp_all add: nth_enumerate_eq)
  ultimately show ?thesis
    by (simp add: body_stack_trace_def decode_body_def [of _ _ None] dec_stack_trace_body_def)
qed

definition sample_frame :: dap_stack_frame where
  "sample_frame = \<lparr>df_id = 7, df_name = ''main'', df_source = Some [], df_line = 3,
     df_instruction_pointer_reference = []\<rparr>"

theorem stack_trace_decoded_witness:
  "body_stack_trace (\<lambda>_. []) (Some (json_obj
     [(''stackFrames'', JArr [stack_frame_json sample_frame]), (''totalFrames'', jint 1)])) =
   Inr ([\<lparr>fr_index = 0, fr_id = 7, fr_name = ''main'', fr_source_path = None, fr_line = 3,
          fr_instruction_pointer = None\<rparr>], 1)"
  using stack_trace_decoded [of "[sample_frame]" 1 "\<lambda>_. []"]
  by (simp add: sample_frame_def in_i64_def i64_min_def i64_max_def frame_of_dap_def nonempty_opt_def)

text \<open>
  A variables body decodes to the variables it holds, fields that are absent read as empty
  or zero, and a body of the wrong shape is an error, never a partial list.
\<close>

theorem variables_decoded:
  assumes "\<forall>v \<in> set vs. variable_in_range v"
  shows "body_variables show_json (Some (json_obj [(''variables'', JArr (map variable_json vs))])) = Inr vs \<and>
    body_variables show_json (Some (json_obj [(''variables'', JArr [json_obj []])])) =
      Inr [\<lparr>va_name = [], va_value = [], va_ty = [], va_variables_reference = 0, va_named = 0, va_indexed = 0\<rparr>] \<and>
    (\<exists>e. body_variables show_json (Some (json_obj [(''variables'', JArr (map variable_json vs @ [JNull]))])) = Inl e)"
proof -
  have "dec_list_body ''variables'' dec_variable (json_obj [(''variables'', JArr (map variable_json vs))]) = Inr vs"
    using assms by (intro list_body_json) (simp add: dec_variable_json)
  moreover have "\<exists>e. dec_all dec_variable (map variable_json vs @ [JNull]) = Inl e"
  proof (induction vs)
    case Nil
    then show ?case by (simp add: dec_variable_def)
  next
    case (Cons v vs)
    then show ?case by (cases "dec_variable (variable_json v)") auto
  qed
  ultimately show ?thesis
    by (auto simp: body_variables_def decode_body_def dec_list_body_def struct_fields_obj dec_variable_def)
qed

theorem variables_decoded_witness:
  "body_variables (\<lambda>_. []) (Some (json_obj [(''variables'', JArr [variable_json
     \<lparr>va_name = ''x'', va_value = ''1'', va_ty = ''int'', va_variables_reference = 0, va_named = 0, va_indexed = 0\<rparr>])])) =
   Inr [\<lparr>va_name = ''x'', va_value = ''1'', va_ty = ''int'', va_variables_reference = 0, va_named = 0, va_indexed = 0\<rparr>]"
  using variables_decoded [of "[\<lparr>va_name = ''x'', va_value = ''1'', va_ty = ''int'', va_variables_reference = 0,
      va_named = 0, va_indexed = 0\<rparr>]" "\<lambda>_. []"]
  by (simp add: variable_in_range_def in_i64_def i64_min_def i64_max_def)

end
