(* ===== verification/Computations.thy ===== *)
theory Computations
  imports Prelude
begin

text \<open>
  Asynchronous code. A computation maps the state of the world to a result and a later state, or
  to \<open>None\<close> when it waits for something that never comes. Between the start of an awaited call
  and its return the world may change in any way (other tasks run), which is why a call gives
  back a whole state. Results that can fail are sums with the error on the left; \<open>try_then\<close> is the
  \<^verbatim>\<open>?\<close> operator. \<open>post\<close> states what holds of every result a computation can give.
\<close>

section \<open>Sequencing\<close>

type_synonym ('t, 'a) proc = "'t \<Rightarrow> ('a \<times> 't) option"

definition ret :: "'a \<Rightarrow> ('t, 'a) proc" where
  "ret x t = Some (x, t)"

definition seq :: "('t, 'a) proc \<Rightarrow> ('a \<Rightarrow> ('t, 'b) proc) \<Rightarrow> ('t, 'b) proc" where
  "seq p f t = (case p t of None \<Rightarrow> None | Some (x, t') \<Rightarrow> f x t')"

text \<open>\<^verbatim>\<open>?\<close> on the result of an awaited call.\<close>

definition try_then :: "('t, 'e + 'a) proc \<Rightarrow> ('a \<Rightarrow> ('t, 'e + 'b) proc) \<Rightarrow> ('t, 'e + 'b) proc" where
  "try_then p f = seq p (\<lambda>r. case r of Inl e \<Rightarrow> ret (Inl e) | Inr x \<Rightarrow> f x)"

definition with_err :: "('e \<Rightarrow> 'f) \<Rightarrow> ('t, 'e + 'a) proc \<Rightarrow> ('t, 'f + 'a) proc" where
  "with_err g p = seq p (\<lambda>r. ret (map_err g r))"

text \<open>A pure step that may read the current state (the captured stderr).\<close>

definition check_with :: "('t \<Rightarrow> 'e + 'a) \<Rightarrow> ('t, 'e + 'a) proc" where
  "check_with f t = Some (f t, t)"

lemma try_try: "try_then (try_then p f) g = try_then p (\<lambda>x. try_then (f x) g)"
  by (rule ext) (auto simp: try_then_def seq_def ret_def split: option.split sum.split)

lemma try_seq: "try_then (seq p f) g = seq p (\<lambda>x. try_then (f x) g)"
  by (rule ext) (auto simp: try_then_def seq_def split: option.split)

lemma try_ret: "try_then (ret (Inr x)) g = g x"
  by (rule ext) (auto simp: try_then_def seq_def ret_def)

section \<open>Results of a computation\<close>

definition post :: "('t, 'a) proc \<Rightarrow> 't \<Rightarrow> ('a \<Rightarrow> 't \<Rightarrow> bool) \<Rightarrow> bool" where
  "post p t Q \<longleftrightarrow> (\<forall>x t'. p t = Some (x, t') \<longrightarrow> Q x t')"

lemma postD: "post p t Q \<Longrightarrow> p t = Some (x, t') \<Longrightarrow> Q x t'"
  by (simp add: post_def)

lemma post_mono: "post p t Q \<Longrightarrow> (\<And>x t'. Q x t' \<Longrightarrow> R x t') \<Longrightarrow> post p t R"
  by (simp add: post_def)

lemma post_seq: "post p t (\<lambda>x t'. post (f x) t' Q) \<Longrightarrow> post (seq p f) t Q"
  by (auto simp: post_def seq_def split: option.splits)

lemma post_ret: "Q x t \<Longrightarrow> post (ret x) t Q"
  by (simp add: post_def ret_def)

lemma post_check: "Q (f t) t \<Longrightarrow> post (check_with f) t Q"
  by (simp add: post_def check_with_def)

lemma post_with_err: "post p t (\<lambda>r t'. Q (map_err g r) t') \<Longrightarrow> post (with_err g p) t Q"
  unfolding with_err_def by (intro post_seq) (auto intro: post_mono post_ret)

lemma post_try:
  assumes "post p t (\<lambda>r t'. case r of Inl e \<Rightarrow> Q (Inl e) t' | Inr x \<Rightarrow> post (f x) t' Q)"
  shows "post (try_then p f) t Q"
  unfolding try_then_def
  by (rule post_seq, rule post_mono [OF assms]) (auto intro: post_ret split: sum.splits)

end
