(* ===== verification/Lldb_Backend.thy ===== *)
theory Lldb_Backend
  imports Dap_Client Lldb_Requests Lldb_Body Computations
begin

text \<open>
  \<^verbatim>\<open>lldb-backend/src/backend.rs\<close>: the launch and attach handshakes, the resume operations and the
  remaining operations of the backend, over the client's asynchronous calls. The transport is a record of the client calls the
  backend makes; the DAP client is one instance.
\<close>

section \<open>The transport\<close>

record 't transport =
  tr_send :: "request \<Rightarrow> ('t, pending_result) proc"
  tr_send_async :: "request \<Rightarrow> ('t, backend_error + nat) proc"
  tr_wait_initialized :: "('t, unit) proc"
  tr_await :: "nat \<Rightarrow> ('t, pending_result option) proc"
  tr_stop_register :: "'t \<Rightarrow> nat \<times> 't"
  tr_stop_await :: "nat \<Rightarrow> ('t, stop_outcome option) proc"
  tr_kill_child :: "'t \<Rightarrow> 't"

record 't lldb_backend =
  lb_transport :: "'t transport"
  lb_is_lldb_dap :: bool
  lb_pid :: "i64 option"
  lb_stderr :: "'t \<Rightarrow> string option"
  lb_show_json :: "json_error \<Rightarrow> string"
  lb_base64 :: "string \<Rightarrow> string + byte list"

section \<open>Checking responses\<close>

definition response_type_label :: "response \<Rightarrow> string" where
  "response_type_label r = ''response:'' @ re_command r"

definition message_type_label :: "dap_message \<Rightarrow> string" where
  "message_type_label m =
     (case m of
        MResponse r \<Rightarrow> response_type_label r
      | MEvent _ \<Rightarrow> ''event''
      | MOther envl \<Rightarrow>
          (case en_event envl of
             Some event \<Rightarrow> ''event:'' @ event
           | None \<Rightarrow>
               (case en_command envl of
                  Some command \<Rightarrow> en_ty envl @ '':'' @ command
                | None \<Rightarrow> en_ty envl)))"

definition stderr_snapshot :: "'t lldb_backend \<Rightarrow> 't \<Rightarrow> string" where
  "stderr_snapshot lb t = (case lb_stderr lb t of None \<Rightarrow> [] | Some contents \<Rightarrow> trim contents)"

definition diagnostic :: "'t lldb_backend \<Rightarrow> string \<Rightarrow> 't \<Rightarrow> string" where
  "diagnostic lb dap_message t =
     (if dap_message \<noteq> [] then dap_message
      else if stderr_snapshot lb t \<noteq> [] then stderr_snapshot lb t
      else ''no error message provided by lldb-dap'')"

definition check_response ::
  "'t lldb_backend \<Rightarrow> string \<Rightarrow> string \<Rightarrow> dap_message \<Rightarrow> ('t, backend_error + response) proc" where
  "check_response lb op_name failed_op m =
     check_with (\<lambda>t.
       case m of
         MResponse r \<Rightarrow>
           if re_success r then Inr r
           else Inl (Dap (failed_op @ '' failed: '' @ diagnostic lb (re_message r) t))
       | _ \<Rightarrow> Inl (Protocol (op_name @ '':'' @ message_type_label m)))"

definition send_checked ::
  "'t lldb_backend \<Rightarrow> string \<Rightarrow> request \<Rightarrow> ('t, backend_error + response) proc" where
  "send_checked lb op_name r =
     try_then (with_err (\<lambda>e. Dap (op_name @ '' request failed: '' @ show_backend_error e))
                 (tr_send (lb_transport lb) r))
       (check_response lb op_name op_name)"

section \<open>The handshakes\<close>

definition be_initialize :: "'t lldb_backend \<Rightarrow> ('t, backend_error + unit) proc" where
  "be_initialize lb =
     try_then (with_err (\<lambda>e. Dap (''initialize request failed: '' @ show_backend_error e))
                 (tr_send (lb_transport lb) req_initialize)) (\<lambda>m.
     try_then (check_response lb ''initialize'' ''initialize'' m) (\<lambda>_. ret (Inr ())))"

definition send_checked_breakpoints_for_file ::
  "'t lldb_backend \<Rightarrow> string \<Rightarrow> source_bp list \<Rightarrow> ('t, backend_error + unit) proc" where
  "send_checked_breakpoints_for_file lb file bps =
     try_then (with_err (\<lambda>e. Dap (''setBreakpoints failed for '' @ file @ '': '' @ show_backend_error e))
                 (tr_send (lb_transport lb) (req_set_breakpoints file bps))) (\<lambda>m.
     check_with (\<lambda>t.
       case m of
         MResponse r \<Rightarrow>
           if re_command r = ''setBreakpoints'' then
             (if re_success r then Inr ()
              else Inl (Dap (''setBreakpoints failed for '' @ file @ '': '' @ diagnostic lb (re_message r) t)))
           else Inl (Protocol (response_type_label r))
       | _ \<Rightarrow> Inl (Protocol (message_type_label m))))"

fun flush_source_breakpoints ::
  "'t lldb_backend \<Rightarrow> (string \<times> source_bp list) list \<Rightarrow> ('t, backend_error + unit) proc" where
  "flush_source_breakpoints lb [] = ret (Inr ())"
| "flush_source_breakpoints lb ((file, bps) # rest) =
     try_then (send_checked_breakpoints_for_file lb file bps) (\<lambda>_. flush_source_breakpoints lb rest)"

definition flush_function_breakpoints ::
  "'t lldb_backend \<Rightarrow> function_bp list \<Rightarrow> ('t, backend_error + unit) proc" where
  "flush_function_breakpoints lb bps =
     (if bps = [] then ret (Inr ())
      else
        try_then (with_err (\<lambda>e. Dap (''setFunctionBreakpoints failed: '' @ show_backend_error e))
                    (tr_send (lb_transport lb) (req_set_function_breakpoints bps))) (\<lambda>m.
        try_then (check_response lb ''setFunctionBreakpoints'' ''setFunctionBreakpoints'' m) (\<lambda>_. ret (Inr ()))))"

text \<open>Two requests whose response is not looked at.\<close>

definition send_unchecked ::
  "'t lldb_backend \<Rightarrow> string \<Rightarrow> request \<Rightarrow> ('t, backend_error + unit) proc" where
  "send_unchecked lb what r =
     try_then (with_err (\<lambda>e. Dap (what @ '' failed: '' @ show_backend_error e)) (tr_send (lb_transport lb) r))
       (\<lambda>_. ret (Inr ()))"

text \<open>The deferred launch or attach response: a dropped sender is a closed connection.\<close>

definition await_deferred ::
  "'t lldb_backend \<Rightarrow> string \<Rightarrow> nat \<Rightarrow> ('t, backend_error + response) proc" where
  "await_deferred lb op_name rx =
     seq (tr_await (lb_transport lb) rx) (\<lambda>res.
       case res of
         None \<Rightarrow> ret (Inl Closed)
       | Some (Inl e) \<Rightarrow> ret (Inl (Dap (op_name @ '' request failed: '' @ show_backend_error e)))
       | Some (Inr m) \<Rightarrow> check_response lb op_name op_name m)"

definition register_if :: "bool \<Rightarrow> 't lldb_backend \<Rightarrow> ('t, nat option) proc" where
  "register_if wanted lb t =
     (if wanted then (case tr_stop_register (lb_transport lb) t of (rx, t') \<Rightarrow> Some (Some rx, t'))
      else Some (None, t))"

definition launch_outcome_of :: "stop_outcome option \<Rightarrow> launch_outcome" where
  "launch_outcome_of oo =
     (case oo of
        Some (Stopped info) \<Rightarrow> LStopped info
      | Some (Exited code) \<Rightarrow> LExited code
      | Some Terminated \<Rightarrow> LExited None
      | None \<Rightarrow> LExited None)"

definition attach_outcome_of :: "stop_outcome option \<Rightarrow> attach_outcome" where
  "attach_outcome_of oo =
     (case oo of
        Some (Stopped info) \<Rightarrow> AStopped info
      | Some (Exited code) \<Rightarrow> AExited code
      | Some Terminated \<Rightarrow> ATerminated
      | None \<Rightarrow> ATerminated)"

definition launch_request_of :: "launch_spec \<Rightarrow> request" where
  "launch_request_of spec =
     req_launch (launch_args_to_value
       (lldb_launch_args_new (ls_program spec) (ls_args spec) (ls_cwd spec) (ls_env spec) (ls_stop_on_entry spec)))"

definition launch_finish ::
  "'t lldb_backend \<Rightarrow> nat \<Rightarrow> nat option \<Rightarrow> ('t, backend_error + launch_outcome) proc" where
  "launch_finish lb launch_rx waiter =
     try_then (await_deferred lb ''launch'' launch_rx) (\<lambda>_.
       case waiter of
         None \<Rightarrow> ret (Inr LRunning)
       | Some rx \<Rightarrow> seq (tr_stop_await (lb_transport lb) rx) (\<lambda>oo. ret (Inr (launch_outcome_of oo))))"

definition run_launch :: "'t lldb_backend \<Rightarrow> launch_spec \<Rightarrow> ('t, backend_error + launch_outcome) proc" where
  "run_launch lb spec =
     try_then (be_initialize lb) (\<lambda>_.
     try_then (with_err (\<lambda>e. Dap (''launch request failed: '' @ show_backend_error e))
                 (tr_send_async (lb_transport lb) (launch_request_of spec))) (\<lambda>launch_rx.
     seq (tr_wait_initialized (lb_transport lb)) (\<lambda>_.
     try_then (flush_source_breakpoints lb (ls_source_breakpoints spec)) (\<lambda>_.
     try_then (flush_function_breakpoints lb (ls_function_breakpoints spec)) (\<lambda>_.
     try_then (send_unchecked lb ''setExceptionBreakpoints'' req_set_exception_breakpoints) (\<lambda>_.
     seq (register_if (ls_stop_on_entry spec) lb) (\<lambda>waiter.
     try_then (send_unchecked lb ''configurationDone'' req_configuration_done) (\<lambda>_.
       launch_finish lb launch_rx waiter))))))))"

definition attach_request_of :: "attach_spec \<Rightarrow> request" where
  "attach_request_of spec =
     req_attach (attach_args_to_value (lldb_attach_args_new (as_pid spec) (as_wait_for spec)))"

definition attach_finish :: "'t lldb_backend \<Rightarrow> nat \<Rightarrow> ('t, backend_error + attach_outcome) proc" where
  "attach_finish lb attach_rx =
     try_then (await_deferred lb ''attach'' attach_rx) (\<lambda>_.
     seq (register_if True lb) (\<lambda>waiter.
     seq (tr_stop_await (lb_transport lb) (the waiter)) (\<lambda>oo. ret (Inr (attach_outcome_of oo)))))"

definition run_attach :: "'t lldb_backend \<Rightarrow> attach_spec \<Rightarrow> ('t, backend_error + attach_outcome) proc" where
  "run_attach lb spec =
     try_then (be_initialize lb) (\<lambda>_.
     try_then (with_err (\<lambda>e. Dap (''attach request failed: '' @ show_backend_error e))
                 (tr_send_async (lb_transport lb) (attach_request_of spec))) (\<lambda>attach_rx.
     seq (tr_wait_initialized (lb_transport lb)) (\<lambda>_.
     try_then (send_unchecked lb ''setExceptionBreakpoints'' req_set_exception_breakpoints) (\<lambda>_.
     try_then (send_unchecked lb ''configurationDone'' req_configuration_done) (\<lambda>_.
       attach_finish lb attach_rx)))))"

section \<open>Resuming\<close>

definition resume_and_wait :: "'t lldb_backend \<Rightarrow> request \<Rightarrow> ('t, backend_error + stop_outcome) proc" where
  "resume_and_wait lb r =
     seq (register_if True lb) (\<lambda>waiter.
     try_then (with_err (\<lambda>e. Send (show_backend_error e)) (tr_send (lb_transport lb) r)) (\<lambda>_.
     seq (tr_stop_await (lb_transport lb) (the waiter)) (\<lambda>oo.
       ret (Inr (case oo of Some outcome \<Rightarrow> outcome | None \<Rightarrow> Terminated)))))"

fun step_command :: "step_kind \<Rightarrow> string" where
  "step_command Over = ''next''"
| "step_command Into = ''stepIn''"
| "step_command Out = ''stepOut''"

fun granularity_str :: "granularity \<Rightarrow> string" where
  "granularity_str Line = ''line''"
| "granularity_str Instruction = ''instruction''"

section \<open>The operations\<close>

definition be_disconnect :: "'t lldb_backend \<Rightarrow> bool \<Rightarrow> ('t, unit) proc" where
  "be_disconnect lb terminate =
     seq (tr_send (lb_transport lb) (req_disconnect terminate)) (\<lambda>_ t.
       Some ((), tr_kill_child (lb_transport lb) t))"

definition decode_with ::
  "('t, backend_error + response) proc \<Rightarrow> (json option \<Rightarrow> backend_error + 'a) \<Rightarrow> ('t, backend_error + 'a) proc" where
  "decode_with p f = try_then p (\<lambda>r. ret (f (re_body r)))"

definition be_set_source_breakpoints ::
  "'t lldb_backend \<Rightarrow> string \<Rightarrow> source_bp list \<Rightarrow> ('t, backend_error + breakpoint_result list) proc" where
  "be_set_source_breakpoints lb file bps =
     decode_with (send_checked lb ''setBreakpoints'' (req_set_breakpoints file bps))
       (body_breakpoints (lb_show_json lb))"

definition be_set_function_breakpoints ::
  "'t lldb_backend \<Rightarrow> function_bp list \<Rightarrow> ('t, backend_error + breakpoint_result list) proc" where
  "be_set_function_breakpoints lb bps =
     decode_with (send_checked lb ''setFunctionBreakpoints'' (req_set_function_breakpoints bps))
       (body_breakpoints (lb_show_json lb))"

definition be_cont :: "'t lldb_backend \<Rightarrow> i64 \<Rightarrow> ('t, backend_error + stop_outcome) proc" where
  "be_cont lb thread_id = resume_and_wait lb (req_cont thread_id)"

definition be_step ::
  "'t lldb_backend \<Rightarrow> step_kind \<Rightarrow> i64 \<Rightarrow> granularity option \<Rightarrow> ('t, backend_error + stop_outcome) proc" where
  "be_step lb kind thread_id gran =
     resume_and_wait lb
       (req_step (step_command kind) thread_id
          (case kind of Out \<Rightarrow> None | _ \<Rightarrow> map_option granularity_str gran))"

definition be_pause :: "'t lldb_backend \<Rightarrow> ('t, backend_error + unit) proc" where
  "be_pause lb = try_then (send_checked lb ''pause'' req_pause) (\<lambda>_. ret (Inr ()))"

definition be_threads :: "'t lldb_backend \<Rightarrow> ('t, backend_error + thread_info list) proc" where
  "be_threads lb = decode_with (send_checked lb ''threads'' req_threads) (body_threads (lb_show_json lb))"

definition be_stack_trace ::
  "'t lldb_backend \<Rightarrow> i64 \<Rightarrow> i64 \<Rightarrow> i64 \<Rightarrow> ('t, backend_error + (frame list \<times> i64)) proc" where
  "be_stack_trace lb thread_id start levels =
     decode_with (send_checked lb ''stackTrace'' (req_stack_trace thread_id start levels))
       (body_stack_trace (lb_show_json lb))"

definition be_scopes :: "'t lldb_backend \<Rightarrow> i64 \<Rightarrow> ('t, backend_error + scope list) proc" where
  "be_scopes lb frame_id =
     decode_with (send_checked lb ''scopes'' (req_scopes frame_id)) (body_scopes (lb_show_json lb))"

definition be_variables :: "'t lldb_backend \<Rightarrow> i64 \<Rightarrow> ('t, backend_error + variable list) proc" where
  "be_variables lb reference =
     decode_with (send_checked lb ''variables'' (req_variables reference)) (body_variables (lb_show_json lb))"

definition evaluate_request :: "bool \<Rightarrow> string \<Rightarrow> i64 option \<Rightarrow> eval_mode \<Rightarrow> request" where
  "evaluate_request is_lldb_dap expr frame_id mode =
     (case mode of
        Expression \<Rightarrow> req_evaluate expr frame_id ''variables''
      | Repl \<Rightarrow> req_evaluate (if is_lldb_dap then expr else CHR 0x60 # expr) None ''repl'')"

definition be_evaluate ::
  "'t lldb_backend \<Rightarrow> string \<Rightarrow> i64 option \<Rightarrow> eval_mode \<Rightarrow> ('t, backend_error + eval_result) proc" where
  "be_evaluate lb expr frame_id mode =
     decode_with (send_checked lb ''evaluate'' (evaluate_request (lb_is_lldb_dap lb) expr frame_id mode))
       (body_evaluate (lb_show_json lb))"

definition be_read_memory :: "'t lldb_backend \<Rightarrow> string \<Rightarrow> i64 \<Rightarrow> ('t, backend_error + memory_read) proc" where
  "be_read_memory lb address count =
     decode_with (send_checked lb ''readMemory'' (req_read_memory address count))
       (body_read_memory (lb_show_json lb) (lb_base64 lb))"

definition be_disassemble :: "'t lldb_backend \<Rightarrow> string \<Rightarrow> i64 \<Rightarrow> ('t, backend_error + instruction list) proc" where
  "be_disassemble lb address count =
     decode_with (send_checked lb ''disassemble'' (req_disassemble address count))
       (body_disassemble (lb_show_json lb))"

end
