(* ===== verification/Lldb_Backend_Laws.thy ===== *)
theory Lldb_Backend_Laws
  imports Lldb_Backend
begin

text \<open>
  Which requests a backend computation passes on, in which order (\<open>sends\<close>). The order of the handshakes and of the single operations is
  proved once, in the locale of transports that keep a log of the requests given to them.
\<close>

section \<open>The order of requests\<close>

text \<open>
  \<open>p\<close> passes an initial part of \<open>rs\<close> to the transport, all of it when it succeeds.
\<close>

definition sends :: "('t \<Rightarrow> request list) \<Rightarrow> request list \<Rightarrow> ('t, 'e + 'a) proc \<Rightarrow> bool" where
  "sends log rs p \<longleftrightarrow>
     (\<forall>t. post p t (\<lambda>r t'. \<exists>k. log t' = log t @ take k rs \<and> (isl r \<or> length rs \<le> k)))"

text \<open>\<open>p\<close> passes nothing to the transport.\<close>

definition quiet :: "('t \<Rightarrow> request list) \<Rightarrow> ('t, 'a) proc \<Rightarrow> bool" where
  "quiet log p \<longleftrightarrow> (\<forall>t. post p t (\<lambda>_ t'. log t' = log t))"

lemma sendsI:
  "(\<And>t r t'. p t = Some (r, t') \<Longrightarrow> \<exists>k. log t' = log t @ take k rs \<and> (isl r \<or> length rs \<le> k)) \<Longrightarrow> sends log rs p"
  by (simp add: sends_def post_def)

lemma sendsE:
  assumes "sends log rs p" "p t = Some (r, t')"
  obtains k where "log t' = log t @ take k rs" "isl r \<or> length rs \<le> k"
  using assms unfolding sends_def post_def by blast

lemma quietD: "quiet log p \<Longrightarrow> p t = Some (x, t') \<Longrightarrow> log t' = log t"
  by (simp add: quiet_def post_def)

lemma isl_map_err [simp]: "isl (map_err g r) = isl r"
  by (cases r) simp_all

lemma quiet_sends: "quiet log p \<Longrightarrow> sends log [] p"
  by (rule sendsI) (auto dest: quietD)

lemma quiet_ret: "quiet log (ret x)"
  by (simp add: quiet_def post_def ret_def)

lemma quiet_check: "quiet log (check_with f)"
  by (simp add: quiet_def post_def check_with_def)

lemma quiet_seq:
  assumes "quiet log p" "\<And>x. quiet log (f x)"
  shows "quiet log (seq p f)"
  unfolding quiet_def post_def
proof (intro allI impI)
  fix t x t' assume "seq p f t = Some (x, t')"
  then obtain y t1 where "p t = Some (y, t1)" "f y t1 = Some (x, t')"
    by (auto simp: seq_def split: option.splits)
  with quietD [OF assms(1)] quietD [OF assms(2)] show "log t' = log t" by metis
qed

lemma sends_with_err:
  assumes "sends log rs p"
  shows "sends log rs (with_err g p)"
proof (rule sendsI)
  fix t r t' assume "with_err g p t = Some (r, t')"
  then obtain r0 where "p t = Some (r0, t')" "r = map_err g r0"
    by (auto simp: with_err_def seq_def ret_def split: option.splits)
  with assms show "\<exists>k. log t' = log t @ take k rs \<and> (isl r \<or> length rs \<le> k)"
    by (auto elim: sendsE)
qed

lemma sends_seq:
  assumes "quiet log p" "\<And>x. sends log rs (f x)"
  shows "sends log rs (seq p f)"
proof (rule sendsI)
  fix t r t' assume "seq p f t = Some (r, t')"
  then obtain y t1 where s: "p t = Some (y, t1)" "f y t1 = Some (r, t')"
    by (auto simp: seq_def split: option.splits)
  from sendsE [OF assms(2) s(2)] quietD [OF assms(1) s(1)]
  show "\<exists>k. log t' = log t @ take k rs \<and> (isl r \<or> length rs \<le> k)" by metis
qed

text \<open>The rule for \<^verbatim>\<open>?\<close>: the requests of the first part, then those of the second.\<close>

lemma sends_try:
  assumes "sends log rs p" "\<And>x. sends log ss (f x)"
  shows "sends log (rs @ ss) (try_then p f)"
proof (rule sendsI)
  fix t r t' assume run: "try_then p f t = Some (r, t')"
  then obtain y t1 where p: "p t = Some (y, t1)"
    by (auto simp: try_then_def seq_def split: option.splits)
  from sendsE [OF assms(1) p] obtain k where k: "log t1 = log t @ take k rs" "isl y \<or> length rs \<le> k" .
  show "\<exists>k. log t' = log t @ take k (rs @ ss) \<and> (isl r \<or> length (rs @ ss) \<le> k)"
  proof (cases y)
    case (Inl e)
    with run p have "r = Inl e" "t' = t1" by (auto simp: try_then_def seq_def ret_def)
    with k(1) have "log t' = log t @ take (min k (length rs)) (rs @ ss)" "isl r" by (simp_all add: min_def)
    then show ?thesis by blast
  next
    case (Inr x)
    with run p have f: "f x t1 = Some (r, t')" by (auto simp: try_then_def seq_def)
    from sendsE [OF assms(2) f] obtain j where j: "log t' = log t1 @ take j ss" "isl r \<or> length ss \<le> j" .
    from k Inr have "log t1 = log t @ rs" by simp
    with j have "log t' = log t @ take (length rs + j) (rs @ ss)" "isl r \<or> length (rs @ ss) \<le> length rs + j"
      by simp_all
    then show ?thesis by blast
  qed
qed

lemma sends_try_quiet: "sends log rs p \<Longrightarrow> (\<And>x. quiet log (f x)) \<Longrightarrow> sends log rs (try_then p f)"
  using sends_try [of log rs p "[]" f] quiet_sends by fastforce

section \<open>Transports with a log\<close>

definition launch_requests :: "launch_spec \<Rightarrow> request list" where
  "launch_requests spec =
     [req_initialize, launch_request_of spec] @
     map (\<lambda>(file, bps). req_set_breakpoints file bps) (ls_source_breakpoints spec) @
     (if ls_function_breakpoints spec = [] then []
      else [req_set_function_breakpoints (ls_function_breakpoints spec)]) @
     [req_set_exception_breakpoints, req_configuration_done]"

definition attach_requests :: "attach_spec \<Rightarrow> request list" where
  "attach_requests spec =
     [req_initialize, attach_request_of spec, req_set_exception_breakpoints, req_configuration_done]"

locale logged_transport =
  fixes tr :: "'t transport"
    and log :: "'t \<Rightarrow> request list"
  assumes send_log: "tr_send tr r t = Some (x, t') \<Longrightarrow> log t' = log t @ [r]"
    and send_async_log: "tr_send_async tr r t = Some (y, t') \<Longrightarrow> log t' = log t @ [r]"
    and wait_log: "tr_wait_initialized tr t = Some (u, t') \<Longrightarrow> log t' = log t"
    and await_log: "tr_await tr rx t = Some (z, t') \<Longrightarrow> log t' = log t"
    and register_log: "log (snd (tr_stop_register tr t)) = log t"
    and stop_log: "tr_stop_await tr rx t = Some (oo, t') \<Longrightarrow> log t' = log t"
begin

lemma sends_send: "sends log [r] (tr_send tr r)" "sends log [r] (tr_send_async tr r)"
  by (rule sendsI; force dest: send_log send_async_log intro: exI [of _ 1])+

lemma quiet_calls:
  "quiet log (tr_wait_initialized tr)" "quiet log (tr_await tr rx)" "quiet log (tr_stop_await tr rx)"
  by (auto simp: quiet_def post_def dest: wait_log await_log stop_log)

lemma register_log': "tr_stop_register tr t = (rx, t') \<Longrightarrow> log t' = log t"
  using register_log [of t] by simp

lemma quiet_register:
  assumes tr: "lb_transport lb = tr"
  shows "quiet log (register_if b lb)"
  using register_log' by (auto simp: quiet_def post_def register_if_def tr split: prod.splits if_splits)

lemma quiet_check_response: "quiet log (check_response lb a b m)"
  by (simp add: check_response_def quiet_check)

lemma sends_checked:
  assumes tr: "lb_transport lb = tr"
  shows "sends log [r] (send_checked lb a r)"
  unfolding send_checked_def tr
  by (auto intro!: sends_try_quiet sends_with_err sends_send quiet_check_response)

lemma sends_unchecked:
  assumes tr: "lb_transport lb = tr"
  shows "sends log [r] (send_unchecked lb a r)"
  unfolding send_unchecked_def tr
  by (auto intro!: sends_try_quiet sends_with_err sends_send quiet_ret)

lemma sends_initialize: "lb_transport lb = tr \<Longrightarrow> sends log [req_initialize] (be_initialize lb)"
proof -
  assume tr: "lb_transport lb = tr"
  have "sends log [] (try_then (check_response lb a b m) (\<lambda>_. ret (Inr ())))" for a b m
    using sends_try_quiet quiet_sends quiet_check_response quiet_ret by metis
  then have "sends log ([req_initialize] @ []) (be_initialize lb)"
    unfolding be_initialize_def tr by (intro sends_try sends_with_err sends_send)
  then show ?thesis by simp
qed

lemma sends_file:
  assumes tr: "lb_transport lb = tr"
  shows "sends log [req_set_breakpoints file bps] (send_checked_breakpoints_for_file lb file bps)"
  unfolding send_checked_breakpoints_for_file_def tr
  by (auto intro!: sends_try_quiet sends_with_err sends_send quiet_check)

lemma sends_flush_source: "lb_transport lb = tr \<Longrightarrow>
    sends log (map (\<lambda>(file, bps). req_set_breakpoints file bps) fs) (flush_source_breakpoints lb fs)"
proof (induction fs)
  case Nil
  then show ?case by (simp add: quiet_sends quiet_ret)
next
  case (Cons fb fs)
  obtain f b where "fb = (f, b)" by (cases fb)
  with sends_try [OF sends_file [OF Cons.prems] Cons.IH [OF Cons.prems], of f b] show ?case by simp
qed

lemma sends_flush_function: "lb_transport lb = tr \<Longrightarrow>
    sends log (if bps = [] then [] else [req_set_function_breakpoints bps]) (flush_function_breakpoints lb bps)"
proof -
  assume tr: "lb_transport lb = tr"
  have "sends log [] (try_then (check_response lb a b m) (\<lambda>_. ret (Inr ())))" for a b m
    using sends_try_quiet quiet_sends quiet_check_response quiet_ret by metis
  then have "sends log ([req_set_function_breakpoints bps] @ []) (flush_function_breakpoints lb bps)" if "bps \<noteq> []"
    unfolding flush_function_breakpoints_def tr using that
    by (auto intro!: sends_try [of _ "[_]" _ "[]", simplified] sends_with_err sends_send)
  then show ?thesis by (cases "bps = []") (simp_all add: flush_function_breakpoints_def quiet_sends quiet_ret)
qed

lemma quiet_try: "quiet log p \<Longrightarrow> (\<And>x. quiet log (f x)) \<Longrightarrow> quiet log (try_then p f)"
  unfolding try_then_def by (rule quiet_seq) (auto simp: quiet_ret split: sum.split)

lemma quiet_deferred:
  assumes tr: "lb_transport lb = tr"
  shows "quiet log (await_deferred lb a rx)"
  unfolding await_deferred_def tr
  by (rule quiet_seq) (auto simp: quiet_calls quiet_ret quiet_check_response split: option.split sum.split)

lemma quiet_finish:
  assumes tr: "lb_transport lb = tr"
  shows "quiet log (launch_finish lb rx w)" "quiet log (attach_finish lb rx)"
  unfolding launch_finish_def attach_finish_def tr
  by (auto intro!: quiet_try quiet_seq quiet_deferred [OF tr] quiet_calls quiet_ret quiet_register [OF tr] split: option.split)

lemma launch_order: "lb_transport lb = tr \<Longrightarrow> sends log (launch_requests spec) (run_launch lb spec)"
proof -
  assume tr: "lb_transport lb = tr"
  have "sends log ([req_initialize] @ [launch_request_of spec] @
      map (\<lambda>(file, bps). req_set_breakpoints file bps) (ls_source_breakpoints spec) @
      (if ls_function_breakpoints spec = [] then [] else [req_set_function_breakpoints (ls_function_breakpoints spec)]) @
      [req_set_exception_breakpoints] @ [req_configuration_done] @ []) (run_launch lb spec)"
    unfolding run_launch_def
    by (intro sends_try sends_seq sends_initialize sends_with_err sends_flush_source sends_flush_function
        sends_unchecked quiet_register quiet_sends quiet_finish tr sends_send [folded tr] quiet_calls [folded tr])
  then show ?thesis by (simp add: launch_requests_def)
qed

lemma attach_order: "lb_transport lb = tr \<Longrightarrow> sends log (attach_requests spec) (run_attach lb spec)"
proof -
  assume tr: "lb_transport lb = tr"
  have "sends log ([req_initialize] @ [attach_request_of spec] @ [req_set_exception_breakpoints] @
      [req_configuration_done] @ []) (run_attach lb spec)"
    unfolding run_attach_def
    by (intro sends_try sends_seq sends_initialize sends_with_err sends_unchecked quiet_sends quiet_finish tr
        sends_send [folded tr] quiet_calls [folded tr])
  then show ?thesis by (simp add: attach_requests_def)
qed

end

end
