(* ===== verification/Dap_Client_Laws.thy ===== *)
theory Dap_Client_Laws
  imports Dap_Client
begin

text \<open>
  The promises of the DAP client over every interleaving of its tasks: a caller gets the response
  to its own request, at most once; the end of the stream unblocks every caller and the stop
  waiter; the terminated signal fires once. The stop waiter and the initialized latch are two
  implementations of one interface, a slot for a single sender.
\<close>

section \<open>Single-sender slots\<close>

definition slot_ok :: "nat option \<Rightarrow> 'a cell list \<Rightarrow> bool" where
  "slot_ok slot cs \<longleftrightarrow>
     (\<forall>t. slot = Some t \<longrightarrow> t < length cs) \<and> (\<forall>t < length cs. cs ! t = Waiting \<longleftrightarrow> slot = Some t)"

lemma slot_ok_Nil [simp]: "slot_ok None []"
  by (simp add: slot_ok_def)

lemma length_cell_ops [simp]:
  "length (cell_send t v cs) = length cs" "length (cell_drop ot cs) = length cs"
  by (simp_all add: cell_send_def cell_drop_def split: option.split)

lemma nth_update: "u < length cs \<Longrightarrow> cs[t := v] ! u = (if t = u then v else cs ! u)"
  by simp

lemma slot_ok_register: "slot_ok slot cs \<Longrightarrow> slot_ok (Some (length cs)) (cell_drop slot cs @ [Waiting])"
  by (auto simp: slot_ok_def cell_drop_def nth_append nth_list_update less_Suc_eq split: option.splits)

lemma slot_ok_send: "slot_ok (Some t) cs \<Longrightarrow> slot_ok None (cell_send t v cs)"
  by (auto simp: slot_ok_def cell_send_def nth_list_update)

text \<open>
  The interface: registering gives a fresh waiting cell and makes it the slot, delivering fills
  the slot's cell and clears the slot. The client's fact: between its registration and the next
  one a waiter gets the first delivery and no other.
\<close>

locale single_slot =
  fixes slot :: "'s \<Rightarrow> nat option"
    and cells :: "'s \<Rightarrow> 'a cell list"
    and register :: "'s \<Rightarrow> nat \<times> 's"
    and deliver :: "'a \<Rightarrow> 's \<Rightarrow> 's"
  assumes register_fresh: "fst (register s) = length (cells s)"
    and register_slot: "slot (snd (register s)) = Some (length (cells s))"
    and register_cells: "cells (snd (register s)) = cell_drop (slot s) (cells s) @ [Waiting]"
    and deliver_slot: "slot (deliver v s) = None"
    and deliver_cells: "cells (deliver v s) =
          (case slot s of None \<Rightarrow> cells s | Some t \<Rightarrow> cell_send t v (cells s))"
begin

lemma register_ok: "slot_ok (slot s) (cells s) \<Longrightarrow> slot_ok (slot (snd (register s))) (cells (snd (register s)))"
  by (simp add: register_slot register_cells slot_ok_register)

lemma deliver_ok: "slot_ok (slot s) (cells s) \<Longrightarrow> slot_ok (slot (deliver v s)) (cells (deliver v s))"
  by (cases "slot s") (auto simp: deliver_slot deliver_cells slot_ok_send)

lemma deliver_idle: "slot s = None \<Longrightarrow> cells (fold deliver vs s) = cells s"
proof (induction vs arbitrary: s)
  case Nil
  then show ?case by simp
next
  case (Cons v vs)
  from Cons.IH [of "deliver v s"] Cons.prems show ?case by (simp add: deliver_slot deliver_cells)
qed

lemma first_delivery:
  assumes "register s = (t, s')"
  shows "cells (fold deliver vs s') ! t = (case vs of [] \<Rightarrow> Waiting | v # _ \<Rightarrow> Delivered v)"
proof (cases vs)
  case Nil
  with register_cells [of s] register_fresh [of s] assms show ?thesis by (simp add: nth_append)
next
  case (Cons v vs')
  from register_slot [of s] register_fresh [of s] register_cells [of s] assms
  have "slot s' = Some t" "t < length (cells s')" by simp_all
  then have "cells (deliver v s') ! t = Delivered v" by (simp add: deliver_cells cell_send_def)
  with Cons deliver_idle [OF deliver_slot, of vs'] show ?thesis by simp
qed

end

interpretation stop_slot: single_slot cl_stop_slot cl_stops stop_register stop_send
  by unfold_locales
    (auto simp: stop_register_def stop_send_def Let_def split: option.split)

definition park_initialized :: "client \<Rightarrow> nat \<times> client" where
  "park_initialized c = (case wait_initialized (c\<lparr>cl_fired := False\<rparr>) of (ot, c') \<Rightarrow> (the ot, c'))"

interpretation init_slot: single_slot cl_init_waiter cl_inits park_initialized "\<lambda>_. signal_initialized"
  by unfold_locales
    (auto simp: park_initialized_def wait_initialized_def signal_initialized_def Let_def split: option.split)

section \<open>The invariant\<close>

definition pending_ok :: "client \<Rightarrow> bool" where
  "pending_ok c \<longleftrightarrow>
     hm_ok (cl_pending c) \<and> length (cl_made_for c) = length (cl_responses c) \<and>
     (\<forall>sq t. hm_get (cl_pending c) sq = Some t \<longrightarrow> t < length (cl_responses c) \<and> cl_made_for c ! t = sq) \<and>
     (\<forall>t < length (cl_responses c).
        cl_responses c ! t = Waiting \<longleftrightarrow> hm_get (cl_pending c) (cl_made_for c ! t) = Some t)"

definition answers_ok :: "client \<Rightarrow> bool" where
  "answers_ok c \<longleftrightarrow>
     (\<forall>t < length (cl_responses c). \<forall>m. cl_responses c ! t = Delivered (Inr m) \<longrightarrow>
        (\<exists>r. m = MResponse r \<and> re_request_seq r = cl_made_for c ! t))"

definition seq_ok :: "client \<Rightarrow> bool" where
  "seq_ok c \<longleftrightarrow>
     cl_seq c = wrap_i64 (int (length (cl_made_for c))) \<and>
     (\<forall>t < length (cl_made_for c). cl_made_for c ! t = wrap_i64 (int t + 1))"

definition signals_ok :: "client \<Rightarrow> bool" where
  "signals_ok c \<longleftrightarrow>
     slot_ok (cl_stop_slot c) (cl_stops c) \<and> slot_ok (cl_init_waiter c) (cl_inits c) \<and>
     (cl_fired c \<longrightarrow> cl_init_waiter c = None) \<and>
     (if cl_term_tx c then cl_term c = Waiting else \<exists>oc. cl_term c = Delivered oc) \<and>
     (cl_term_tx c \<longrightarrow> cl_closed c = None)"

definition client_ok :: "client \<Rightarrow> bool" where
  "client_ok c \<longleftrightarrow> pending_ok c \<and> answers_ok c \<and> seq_ok c \<and> signals_ok c"

lemma pending_okD:
  "pending_ok c \<Longrightarrow> hm_get (cl_pending c) sq = Some t \<Longrightarrow>
     t < length (cl_responses c) \<and> cl_made_for c ! t = sq \<and> cl_responses c ! t = Waiting"
  unfolding pending_ok_def by metis

lemma pending_ok_waiting:
  "pending_ok c \<Longrightarrow> t < length (cl_responses c) \<Longrightarrow> cl_responses c ! t = Waiting \<Longrightarrow>
     hm_get (cl_pending c) (cl_made_for c ! t) = Some t"
  unfolding pending_ok_def by metis

text \<open>The response part of the state: everything the pending map invariants read.\<close>

abbreviation same_requests :: "client \<Rightarrow> client \<Rightarrow> bool" where
  "same_requests c c' \<equiv> cl_pending c' = cl_pending c \<and> cl_responses c' = cl_responses c \<and>
     cl_made_for c' = cl_made_for c \<and> cl_seq c' = cl_seq c"

lemma requests_ok_cong:
  "same_requests c c' \<Longrightarrow> pending_ok c' = pending_ok c \<and> answers_ok c' = answers_ok c \<and> seq_ok c' = seq_ok c"
  by (simp add: pending_ok_def answers_ok_def seq_ok_def)

abbreviation same_signals :: "client \<Rightarrow> client \<Rightarrow> bool" where
  "same_signals c c' \<equiv> cl_stop_slot c' = cl_stop_slot c \<and> cl_stops c' = cl_stops c \<and>
     cl_init_waiter c' = cl_init_waiter c \<and> cl_inits c' = cl_inits c \<and> cl_fired c' = cl_fired c \<and>
     cl_term_tx c' = cl_term_tx c \<and> cl_term c' = cl_term c \<and> cl_closed c' = cl_closed c"

lemma signals_ok_cong: "same_signals c c' \<Longrightarrow> signals_ok c' = signals_ok c"
  by (simp add: signals_ok_def)

lemma client_ok_new: "client_ok client_new"
  by (simp add: client_ok_def pending_ok_def answers_ok_def seq_ok_def signals_ok_def client_new_def
      wrap_i64_def)

subsection \<open>Requests\<close>

lemma remove_pending_same:
  "same_signals c (snd (remove_pending sq c))" "same_signals c (abort_pending sq c)"
  "same_signals c (snd (dispatch_response sq m c))" "same_signals c (cancel_all_pending e c)"
  "same_signals c (snd (send_start r c))"
  by (simp_all add: remove_pending_def abort_pending_def dispatch_response_def cancel_all_pending_def
      send_start_def next_seq_def register_pending_def Let_def split: option.split)

text \<open>Taking the entry of a number and settling its cell keeps the pending map exact.\<close>

lemma settle_ok:
  assumes "pending_ok c" "hm_get (cl_pending c) sq = Some t" "v \<noteq> Waiting"
    "c' = c\<lparr>cl_pending := hm_remove sq (cl_pending c), cl_responses := (cl_responses c)[t := v]\<rparr>"
  shows "pending_ok c'"
proof -
  from assms(1,2) have t: "t < length (cl_responses c)" "cl_made_for c ! t = sq"
    by (auto simp: pending_ok_def)
  have other: "cl_made_for c ! u \<noteq> sq \<longleftrightarrow> u \<noteq> t \<and> cl_made_for c ! u \<noteq> sq" for u
    using t by auto
  show ?thesis
    using assms t by (auto simp: pending_ok_def nth_list_update)
qed

lemma drop_pending_ok: "pending_ok c \<Longrightarrow> hm_get (cl_pending c) sq = None \<Longrightarrow>
   pending_ok (c\<lparr>cl_pending := hm_remove sq (cl_pending c)\<rparr>)"
  by (auto simp: pending_ok_def)

lemma abort_pending_fields:
  "cl_made_for (abort_pending sq c) = cl_made_for c" "cl_seq (abort_pending sq c) = cl_seq c"
  "cl_responses (abort_pending sq c) = cell_drop (hm_get (cl_pending c) sq) (cl_responses c)"
  by (simp_all add: abort_pending_def remove_pending_def)

lemma abort_pending_ok:
  assumes ok: "client_ok c"
  shows "client_ok (abort_pending sq c)"
proof -
  from ok have p: "pending_ok c" "answers_ok c" "seq_ok c" by (simp_all add: client_ok_def)
  have "pending_ok (abort_pending sq c)"
    using drop_pending_ok [OF p(1), of sq] settle_ok [OF p(1), of sq _ Abandoned]
    by (cases "hm_get (cl_pending c) sq")
      (simp_all add: abort_pending_def remove_pending_def cell_drop_def)
  moreover have "answers_ok (abort_pending sq c)"
    using p(2) by (cases "hm_get (cl_pending c) sq")
      (simp_all add: answers_ok_def abort_pending_fields cell_drop_def nth_update)
  moreover have "seq_ok (abort_pending sq c)"
    using p(3) by (simp add: seq_ok_def abort_pending_fields)
  ultimately show ?thesis
    using ok signals_ok_cong [OF remove_pending_same(2)] by (simp add: client_ok_def)
qed

lemma dispatch_response_fields:
  "cl_made_for (snd (dispatch_response sq m c)) = cl_made_for c"
  "cl_seq (snd (dispatch_response sq m c)) = cl_seq c"
  "cl_responses (snd (dispatch_response sq m c)) =
     (case hm_get (cl_pending c) sq of None \<Rightarrow> cl_responses c | Some t \<Rightarrow> (cl_responses c)[t := Delivered (Inr m)])"
  by (simp_all add: dispatch_response_def remove_pending_def cell_send_def split: option.split)

lemma dispatch_response_ok:
  assumes ok: "client_ok c" and r: "re_request_seq r = sq"
  shows "client_ok (snd (dispatch_response sq (MResponse r) c))"
proof -
  let ?c = "snd (dispatch_response sq (MResponse r) c)"
  from ok have p: "pending_ok c" "answers_ok c" "seq_ok c" by (simp_all add: client_ok_def)
  have "pending_ok ?c"
    using drop_pending_ok [OF p(1), of sq] settle_ok [OF p(1), of sq _ "Delivered (Inr (MResponse r))"]
    by (cases "hm_get (cl_pending c) sq")
      (simp_all add: dispatch_response_def remove_pending_def cell_send_def)
  moreover have "answers_ok ?c"
  proof (cases "hm_get (cl_pending c) sq")
    case None
    with p(2) show ?thesis by (simp add: answers_ok_def dispatch_response_fields)
  next
    case (Some t)
    with p(1) have "t < length (cl_responses c)" "cl_made_for c ! t = sq"
      by (simp_all add: pending_ok_def)
    with Some p(2) r show ?thesis by (simp add: answers_ok_def dispatch_response_fields nth_update)
  qed
  moreover have "seq_ok ?c" using p(3) by (simp add: seq_ok_def dispatch_response_fields)
  ultimately show ?thesis
    using ok signals_ok_cong [OF remove_pending_same(3)] by (simp add: client_ok_def)
qed

lemma fold_cell_send:
  "length (fold (\<lambda>t cs. cell_send t v cs) ts cs) = length cs"
  "u < length cs \<Longrightarrow>
     fold (\<lambda>t cs. cell_send t v cs) ts cs ! u = (if u \<in> set ts then Delivered v else cs ! u)"
  by (induction ts arbitrary: cs) (auto simp: cell_send_def nth_list_update)

text \<open>After a cancellation no response cell is waiting: those that were hold the error.\<close>

lemma cancel_all_cells:
  assumes "pending_ok c" "t < length (cl_responses c)"
  shows "cl_responses (cancel_all_pending e c) ! t =
     (if cl_responses c ! t = Waiting then Delivered (Inl e) else cl_responses c ! t)"
proof -
  from assms(1) have hm: "hm_ok (cl_pending c)" by (simp add: pending_ok_def)
  have "t \<in> snd ` set (cl_pending c) \<longleftrightarrow> cl_responses c ! t = Waiting"
  proof
    assume "t \<in> snd ` set (cl_pending c)"
    then obtain sq where "(sq, t) \<in> set (cl_pending c)" by force
    then have "hm_get (cl_pending c) sq = Some t" by (simp add: hm_get_in_set [OF hm])
    then show "cl_responses c ! t = Waiting" using pending_okD [OF assms(1)] by blast
  next
    assume "cl_responses c ! t = Waiting"
    from pending_ok_waiting [OF assms this]
    have "(cl_made_for c ! t, t) \<in> set (cl_pending c)" by (simp add: hm_get_in_set [OF hm])
    then show "t \<in> snd ` set (cl_pending c)" by force
  qed
  with assms(2) show ?thesis
    by (simp add: cancel_all_pending_def Let_def fold_cell_send)
qed

lemma cancel_all_fields:
  "cl_pending (cancel_all_pending e c) = []" "cl_made_for (cancel_all_pending e c) = cl_made_for c"
  "cl_seq (cancel_all_pending e c) = cl_seq c"
  "length (cl_responses (cancel_all_pending e c)) = length (cl_responses c)"
  by (simp_all add: cancel_all_pending_def Let_def fold_cell_send)

lemma cancel_all_ok: "client_ok c \<Longrightarrow> client_ok (cancel_all_pending e c)"
proof -
  assume ok: "client_ok c"
  then have p: "pending_ok c" by (simp add: client_ok_def)
  have "pending_ok (cancel_all_pending e c)"
    using p cancel_all_cells [OF p] by (simp add: pending_ok_def cancel_all_fields)
  moreover have "answers_ok (cancel_all_pending e c)"
    using ok cancel_all_cells [OF p] by (auto simp: client_ok_def answers_ok_def cancel_all_fields)
  moreover have "seq_ok (cancel_all_pending e c)"
    using ok by (simp add: client_ok_def seq_ok_def cancel_all_fields)
  ultimately show ?thesis
    using ok signals_ok_cong [OF remove_pending_same(4)] by (simp add: client_ok_def)
qed

lemma register_pending_fields:
  "cl_made_for (snd (register_pending sq c)) = cl_made_for c @ [sq]"
  "cl_responses (snd (register_pending sq c)) = cell_drop (hm_get (cl_pending c) sq) (cl_responses c) @ [Waiting]"
  "cl_pending (snd (register_pending sq c)) = hm_insert sq (length (cl_responses c)) (cl_pending c)"
  "fst (register_pending sq c) = length (cl_responses c)"
  by (simp_all add: register_pending_def Let_def)

lemma register_pending_ok:
  assumes p: "pending_ok c"
  shows "pending_ok (snd (register_pending sq c))"
proof -
  let ?n = "length (cl_responses c)"
  from p have len: "length (cl_made_for c) = ?n" and hm: "hm_ok (cl_pending c)"
    by (simp_all add: pending_ok_def)
  have get: "hm_get (hm_insert sq ?n (cl_pending c)) s' = Some t \<longrightarrow>
      t < Suc ?n \<and> (cl_made_for c @ [sq]) ! t = s'" for s' t
    using pending_okD [OF p, of s' t] len by (auto simp: nth_append)
  have cell: "(cell_drop (hm_get (cl_pending c) sq) (cl_responses c) @ [Waiting]) ! t = Waiting \<longleftrightarrow>
      hm_get (hm_insert sq ?n (cl_pending c)) ((cl_made_for c @ [sq]) ! t) = Some t" if "t < Suc ?n" for t
  proof (cases "t = ?n")
    case True
    with len show ?thesis by (simp add: nth_append)
  next
    case False
    with that have t: "t < ?n" by simp
    have old: "cl_responses c ! t = Waiting \<longleftrightarrow> hm_get (cl_pending c) (cl_made_for c ! t) = Some t"
      using p t unfolding pending_ok_def by blast
    show ?thesis
    proof (cases "hm_get (cl_pending c) sq")
      case None
      with t len old show ?thesis by (auto simp: nth_append cell_drop_def)
    next
      case (Some u)
      with pending_okD [OF p Some] t len old show ?thesis
        by (auto simp: nth_append cell_drop_def nth_update)
    qed
  qed
  from get cell hm len show ?thesis
    unfolding pending_ok_def register_pending_fields by (simp add: hm_ok_intros)
qed

lemma send_start_fields:
  "cl_made_for (snd (send_start r c)) = cl_made_for c @ [wrap_i64 (cl_seq c + 1)]"
  "cl_seq (snd (send_start r c)) = wrap_i64 (cl_seq c + 1)"
  "cl_responses (snd (send_start r c)) =
     cell_drop (hm_get (cl_pending c) (wrap_i64 (cl_seq c + 1))) (cl_responses c) @ [Waiting]"
  "fst (send_start r c) =
     (length (cl_responses c), wrap_i64 (cl_seq c + 1), set_seq (wrap_i64 (cl_seq c + 1)) r)"
  by (simp_all add: send_start_def next_seq_def register_pending_def Let_def)

lemma send_start_ok:
  assumes ok: "client_ok c"
  shows "client_ok (snd (send_start r c))"
proof -
  let ?n = "wrap_i64 (cl_seq c + 1)"
  let ?c = "snd (send_start r c)"
  from ok have p: "pending_ok c" "answers_ok c" "seq_ok c" by (simp_all add: client_ok_def)
  from p(1) have len: "length (cl_made_for c) = length (cl_responses c)" by (simp add: pending_ok_def)
  have "pending_ok (snd (register_pending ?n (c\<lparr>cl_seq := ?n\<rparr>)))"
    using p(1) by (intro register_pending_ok) (simp add: pending_ok_def)
  then have "pending_ok ?c" by (simp add: send_start_def next_seq_def split_beta Let_def)
  moreover have "answers_ok ?c"
  proof -
    have "cl_responses ?c ! t = Delivered (Inr m) \<longrightarrow> t < length (cl_responses c) \<and> cl_responses c ! t = Delivered (Inr m)"
      if "t < length (cl_responses ?c)" for t m
      using that pending_okD [OF p(1), of ?n]
      by (cases "hm_get (cl_pending c) ?n")
        (auto simp: send_start_fields cell_drop_def nth_append nth_update less_Suc_eq)
    with p(2) len show ?thesis
      unfolding answers_ok_def send_start_fields(1) by (metis nth_append)
  qed
  moreover have "seq_ok ?c"
    using p(3) wrap_i64_add [of "int (length (cl_made_for c))" 1]
    by (auto simp: seq_ok_def send_start_fields nth_append less_Suc_eq add.commute)
  ultimately show ?thesis
    using ok signals_ok_cong [OF remove_pending_same(5)] by (simp add: client_ok_def)
qed

subsection \<open>Signals\<close>

lemma stop_fields:
  "same_requests c (stop_send v c)" "same_requests c (snd (stop_register c))"
  "same_requests c (signal_initialized c)" "same_requests c (snd (wait_initialized c))"
  "same_requests c (fire_terminated c)" "same_requests c (record_exit code c)"
  "same_requests c (send_output b c)" "same_requests c (snd (close_once e c))"
  by (simp_all add: stop_send_def stop_register_def signal_initialized_def wait_initialized_def
      fire_terminated_def record_exit_def send_output_def close_once_def Let_def split: option.split)

lemma signals_only_ok:
  "client_ok c \<Longrightarrow> same_requests c c' \<Longrightarrow> signals_ok c' \<Longrightarrow> client_ok c'"
  using requests_ok_cong [of c c'] by (simp add: client_ok_def)

lemma stop_send_signals: "signals_ok c \<Longrightarrow> signals_ok (stop_send v c)"
  using stop_slot.deliver_ok [of c v]
  by (simp add: signals_ok_def) (simp add: stop_send_def split: option.split)

lemma stop_register_signals: "signals_ok c \<Longrightarrow> signals_ok (snd (stop_register c))"
  using stop_slot.register_ok [of c]
  by (simp add: signals_ok_def) (simp add: stop_register_def Let_def)

lemma signal_initialized_signals: "signals_ok c \<Longrightarrow> signals_ok (signal_initialized c)"
  using init_slot.deliver_ok [of c]
  by (simp add: signals_ok_def) (simp add: signal_initialized_def split: option.split)

lemma wait_initialized_signals: "signals_ok c \<Longrightarrow> signals_ok (snd (wait_initialized c))"
  by (auto simp: signals_ok_def wait_initialized_def Let_def slot_ok_register)

lemma fire_terminated_signals: "signals_ok c \<Longrightarrow> signals_ok (fire_terminated c)"
  by (simp add: signals_ok_def fire_terminated_def)

lemma plain_signals:
  "signals_ok (record_exit code c) = signals_ok c" "signals_ok (send_output b c) = signals_ok c"
  by (simp_all add: signals_ok_def record_exit_def send_output_def)

lemma client_okE: "client_ok c \<Longrightarrow> signals_ok c"
  by (simp add: client_ok_def)

lemma client_ok_ops:
  assumes "client_ok c"
  shows "client_ok (stop_send v c)" "client_ok (snd (stop_register c))"
    "client_ok (signal_initialized c)" "client_ok (snd (wait_initialized c))"
    "client_ok (fire_terminated c)" "client_ok (record_exit code c)" "client_ok (send_output b c)"
  using assms client_okE [OF assms]
  by (auto intro!: signals_only_ok [OF assms] stop_send_signals stop_register_signals
      signal_initialized_signals wait_initialized_signals fire_terminated_signals
      simp: plain_signals stop_fields)

lemma dispatch_event_ok: "client_ok c \<Longrightarrow> client_ok (dispatch_event e c)"
  by (cases e) (simp_all add: client_ok_ops stop_deliver_def stop_deliver_exit_def stop_cancel_def)

lemma dispatch_message_ok: "client_ok c \<Longrightarrow> client_ok (dispatch_message m c)"
  by (cases m) (simp_all add: dispatch_event_ok dispatch_response_ok)

lemma recover_ok:
  assumes ok: "client_ok c" and o: "cl_closed c = None"
  shows "client_ok (recover e c)"
proof -
  let ?c1 = "stop_cancel (cancel_all_pending Closed c)"
  have c1: "client_ok ?c1" using ok by (simp add: stop_cancel_def client_ok_ops cancel_all_ok)
  have "recover e c = (fire_terminated ?c1)\<lparr>cl_closed := Some e\<rparr>"
    using o by (cases c) (simp add: recover_def close_once_def cancel_all_pending_def stop_cancel_def
        stop_send_def fire_terminated_def Let_def split: option.split)
  moreover have "signals_ok ((fire_terminated ?c1)\<lparr>cl_closed := Some e\<rparr>)"
    using client_okE [OF client_ok_ops(5) [OF c1]]
    by (auto simp: signals_ok_def fire_terminated_def)
  ultimately show ?thesis
    using client_ok_ops(5) [OF c1] signals_only_ok [of "fire_terminated ?c1"] by simp
qed

lemma client_step_ok: "client_step c c' \<Longrightarrow> client_ok c \<Longrightarrow> client_ok c'"
  by (induction rule: client_step.induct)
    (auto simp: send_start_ok abort_pending_ok client_ok_ops dispatch_message_ok recover_ok)

lemma client_steps_ok: "client_steps c c' \<Longrightarrow> client_ok c \<Longrightarrow> client_ok c'"
  by (induction rule: client_steps.induct) (auto intro: client_step_ok)

lemma reachable_client_ok: "reachable_client c \<Longrightarrow> client_ok c"
  using client_steps_ok client_ok_new by (auto simp: reachable_client_def)

section \<open>Results are final\<close>

text \<open>What a step does to the cells: a settled cell keeps its content, cells are only added.\<close>

definition settled_in :: "'a cell list \<Rightarrow> 'a cell list \<Rightarrow> bool" where
  "settled_in cs cs' \<longleftrightarrow>
     length cs \<le> length cs' \<and> (\<forall>t < length cs. cs ! t \<noteq> Waiting \<longrightarrow> cs' ! t = cs ! t)"

lemma settled_in_refl [simp]: "settled_in cs cs"
  by (simp add: settled_in_def)

lemma settled_in_trans: "settled_in a b \<Longrightarrow> settled_in b c \<Longrightarrow> settled_in a c"
  unfolding settled_in_def by (metis le_trans less_le_trans)

lemma settled_in_update: "cs ! t = Waiting \<Longrightarrow> settled_in cs (cs[t := v])"
  by (auto simp: settled_in_def nth_update)

lemma settled_in_append: "settled_in cs cs' \<Longrightarrow> settled_in cs (cs' @ [v])"
  by (auto simp: settled_in_def nth_append)

lemma slot_ok_waiting: "slot_ok (Some t) cs \<Longrightarrow> cs ! t = Waiting"
  by (auto simp: slot_ok_def)

lemma settled_in_drop: "(\<And>t. ot = Some t \<Longrightarrow> cs ! t = Waiting) \<Longrightarrow> settled_in cs (cell_drop ot cs)"
  by (auto simp: cell_drop_def settled_in_update split: option.split)

definition all_settled_in :: "client \<Rightarrow> client \<Rightarrow> bool" where
  "all_settled_in c c' \<longleftrightarrow>
     settled_in (cl_responses c) (cl_responses c') \<and> settled_in (cl_stops c) (cl_stops c') \<and>
     settled_in (cl_inits c) (cl_inits c') \<and> (cl_term c \<noteq> Waiting \<longrightarrow> cl_term c' = cl_term c) \<and>
     (cl_closed c \<noteq> None \<longrightarrow> cl_closed c' = cl_closed c \<and> cl_fired c' = cl_fired c)"

lemma all_settled_refl [simp]: "all_settled_in c c"
  by (simp add: all_settled_in_def)

lemma all_settled_trans: "all_settled_in a b \<Longrightarrow> all_settled_in b c \<Longrightarrow> all_settled_in a c"
  unfolding all_settled_in_def by (metis settled_in_trans)

lemma pending_waiting: "client_ok c \<Longrightarrow> hm_get (cl_pending c) sq = Some t \<Longrightarrow> cl_responses c ! t = Waiting"
  using pending_okD by (auto simp: client_ok_def)

lemma send_start_settled: "client_ok c \<Longrightarrow> all_settled_in c (snd (send_start r c))"
  using remove_pending_same(5) [where c = c]
  by (auto simp: all_settled_in_def send_start_fields send_start_def next_seq_def register_pending_def Let_def
      intro!: settled_in_append settled_in_drop dest: pending_waiting)

lemma abort_settled: "client_ok c \<Longrightarrow> all_settled_in c (abort_pending sq c)"
  using remove_pending_same(2) [where c = c]
  by (auto simp: all_settled_in_def abort_pending_fields intro!: settled_in_drop dest: pending_waiting)

lemma dispatch_response_settled: "client_ok c \<Longrightarrow> all_settled_in c (snd (dispatch_response sq m c))"
  using remove_pending_same(3) [where c = c]
  by (auto simp: all_settled_in_def dispatch_response_fields intro!: settled_in_update
      dest: pending_waiting split: option.split)

lemma cancel_all_settled: "client_ok c \<Longrightarrow> all_settled_in c (cancel_all_pending e c)"
  using remove_pending_same(4) [where c = c] cancel_all_cells [where c = c]
  by (auto simp: all_settled_in_def settled_in_def cancel_all_fields client_ok_def)

lemma stop_send_settled: "client_ok c \<Longrightarrow> all_settled_in c (stop_send v c)"
  using slot_ok_waiting [of _ "cl_stops c"]
  by (auto simp: all_settled_in_def stop_send_def cell_send_def client_ok_def signals_ok_def
      intro!: settled_in_update split: option.split)

lemma stop_register_settled: "client_ok c \<Longrightarrow> all_settled_in c (snd (stop_register c))"
  using slot_ok_waiting [of _ "cl_stops c"]
  by (auto simp: all_settled_in_def stop_register_def Let_def client_ok_def signals_ok_def
      intro!: settled_in_append settled_in_drop)

lemma signal_initialized_settled:
  "client_ok c \<Longrightarrow> cl_closed c = None \<Longrightarrow> all_settled_in c (signal_initialized c)"
  using slot_ok_waiting [of _ "cl_inits c"]
  by (auto simp: all_settled_in_def signal_initialized_def cell_send_def client_ok_def signals_ok_def
      intro!: settled_in_update split: option.split)

lemma wait_initialized_settled: "client_ok c \<Longrightarrow> all_settled_in c (snd (wait_initialized c))"
  using slot_ok_waiting [of _ "cl_inits c"]
  by (auto simp: all_settled_in_def wait_initialized_def Let_def client_ok_def signals_ok_def
      intro!: settled_in_append settled_in_drop)

lemma fire_terminated_settled: "client_ok c \<Longrightarrow> all_settled_in c (fire_terminated c)"
  by (auto simp: all_settled_in_def fire_terminated_def client_ok_def signals_ok_def)

lemma plain_settled:
  "all_settled_in c (record_exit code c)" "all_settled_in c (send_output b c)"
  "all_settled_in c (snd (close_once e c))"
  by (auto simp: all_settled_in_def record_exit_def send_output_def close_once_def)

lemma dispatch_event_settled:
  assumes "client_ok c" "cl_closed c = None"
  shows "all_settled_in c (dispatch_event e c)"
proof (cases e)
  case (EvExited code)
  show ?thesis
    using all_settled_trans [OF plain_settled(1) stop_send_settled [OF client_ok_ops(6) [OF assms(1)]]]
    by (simp add: EvExited stop_deliver_exit_def)
next
  case EvTerminated
  show ?thesis
    using all_settled_trans [OF fire_terminated_settled [OF assms(1)] stop_send_settled [OF client_ok_ops(5) [OF assms(1)]]]
    by (simp add: EvTerminated stop_cancel_def)
qed (use assms in \<open>simp_all add: stop_deliver_def stop_send_settled signal_initialized_settled plain_settled\<close>)

lemma recover_settled:
  assumes "client_ok c" "cl_closed c = None"
  shows "all_settled_in c (recover e c)"
proof -
  let ?c1 = "cancel_all_pending Closed c"
  let ?c2 = "stop_cancel ?c1"
  have ok1: "client_ok ?c1" using assms(1) by (rule cancel_all_ok)
  then have ok2: "client_ok ?c2" by (simp add: stop_cancel_def client_ok_ops)
  have "all_settled_in c (fire_terminated ?c2)"
    using all_settled_trans [OF cancel_all_settled [OF assms(1)]
        all_settled_trans [OF stop_send_settled [OF ok1] fire_terminated_settled [OF ok2 [unfolded stop_cancel_def]]]]
    by (simp add: stop_cancel_def)
  moreover have "recover e c = (fire_terminated ?c2)\<lparr>cl_closed := Some e\<rparr>"
    using assms(2) by (cases c) (simp add: recover_def close_once_def cancel_all_pending_def stop_cancel_def
        stop_send_def fire_terminated_def Let_def split: option.split)
  ultimately show ?thesis using assms(2) by (simp add: all_settled_in_def)
qed

lemma client_step_settled: "client_step c c' \<Longrightarrow> client_ok c \<Longrightarrow> all_settled_in c c'"
proof (induction rule: client_step.induct)
  case (step_message c m c')
  then show ?case by (cases m) (auto simp: dispatch_event_settled dispatch_response_settled)
qed (auto simp: send_start_settled abort_settled stop_register_settled wait_initialized_settled recover_settled)

lemma client_steps_settled: "client_steps c c' \<Longrightarrow> client_ok c \<Longrightarrow> all_settled_in c c'"
proof (induction rule: client_steps.induct)
  case (steps_step c c' c'')
  then show ?case
    using all_settled_trans client_step_settled client_steps_ok by blast
qed simp

section \<open>Properties\<close>

text \<open>A small history for the witnesses: two requests, the second answered first.\<close>

definition two_sent :: client where
  "two_sent = snd (send_start (request_new ''threads'' None) (snd (send_start (request_new ''initialize'' None) client_new)))"

definition second_answer :: response where
  "second_answer = \<lparr>re_seq = 9, re_ty = ''response'', re_request_seq = 2, re_success = True,
     re_command = ''threads'', re_message = [], re_body = None\<rparr>"

definition answered :: client where
  "answered = dispatch_message (MResponse second_answer) two_sent"

lemma two_sent_reachable: "reachable_client two_sent"
  unfolding two_sent_def reachable_client_def
  by (rule steps_step [OF steps_step [OF steps_refl step_send [OF refl]] step_send [OF refl]])

lemma two_sent_simps:
  "cl_pending two_sent = [(1, 0), (2, 1)]" "cl_responses two_sent = [Waiting, Waiting]"
  "cl_made_for two_sent = [1, 2]" "cl_closed two_sent = None" "cl_stops two_sent = []"
  "cl_inits two_sent = []" "cl_term_tx two_sent" "cl_stop_slot two_sent = None" "\<not> cl_fired two_sent"
  "cl_last_exit two_sent = None" "cl_output two_sent = []"
  by (simp_all add: two_sent_def send_start_def next_seq_def register_pending_def client_new_def
      cell_drop_def hm_insert_def hm_get_def wrap_i64_id in_i64_def i64_min_def i64_max_def)

lemma answered_reachable: "reachable_client answered"
  using two_sent_reachable steps_step step_message [of two_sent "MResponse second_answer"]
  by (auto simp: reachable_client_def answered_def two_sent_simps)

lemma answered_responses: "cl_responses answered = [Waiting, Delivered (Inr (MResponse second_answer))]"
  by (simp add: answered_def dispatch_response_fields two_sent_simps hm_get_def) (simp add: second_answer_def)

text \<open>
  C3. In every interleaving of callers and read loop a caller that gets a message gets a
  response, the one that names its own request number; the number of the (t+1)-th request is
  t+1 (short of 2^63 requests); and the result never changes afterwards.
\<close>

theorem responses_correlated:
  assumes "reachable_client c" "t < length (cl_responses c)" "poll_response t c = Some (Inr m)"
  shows "(\<exists>r. m = MResponse r \<and> re_request_seq r = cl_made_for c ! t) \<and>
    (length (cl_made_for c) < 2 ^ 63 \<longrightarrow> cl_made_for c ! t = int t + 1) \<and>
    (\<forall>c'. client_steps c c' \<longrightarrow> poll_response t c' = Some (Inr m))"
proof (intro conjI allI impI)
  from reachable_client_ok [OF assms(1)] have ok: "client_ok c" .
  from assms(3) have d: "cl_responses c ! t = Delivered (Inr m)"
    by (auto simp: poll_response_def split: cell.splits)
  show "\<exists>r. m = MResponse r \<and> re_request_seq r = cl_made_for c ! t"
    using ok assms(2) d by (simp add: client_ok_def answers_ok_def)
  show "cl_made_for c ! t = int t + 1" if "length (cl_made_for c) < 2 ^ 63"
    using ok assms(2) that
    by (simp add: client_ok_def pending_ok_def seq_ok_def wrap_i64_id in_i64_def i64_min_def i64_max_def)
  show "poll_response t c' = Some (Inr m)" if "client_steps c c'" for c'
  proof -
    from client_steps_settled [OF that ok] d assms(2) have "cl_responses c' ! t = cl_responses c ! t"
      by (simp add: all_settled_in_def settled_in_def)
    with d show ?thesis by (simp add: poll_response_def)
  qed
qed

theorem responses_correlated_witness:
  "poll_response 1 answered = Some (Inr (MResponse second_answer)) \<and> re_request_seq second_answer = 2"
  using responses_correlated [OF answered_reachable, of 1 "MResponse second_answer"]
  by (simp add: poll_response_def answered_responses) (simp add: second_answer_def)

text \<open>
  C14. When the stream ends, every request still waiting fails with the closed error and every
  result already there is kept, the pending map is empty, a waiting stop waiter gets Terminated,
  and the terminated signal has fired. The one wait it does not end is the one for the
  initialized event.
\<close>

theorem recover_unblocks:
  assumes "reachable_client c" "cl_closed c = None"
  shows "(\<forall>t < length (cl_responses c).
      poll_response t (recover e c) = Some (case poll_response t c of None \<Rightarrow> Inl Closed | Some r \<Rightarrow> r)) \<and>
    (\<forall>t < length (cl_stops c).
      poll_stop t (recover e c) = Some (case poll_stop t c of None \<Rightarrow> Some Terminated | Some r \<Rightarrow> r)) \<and>
    cl_pending (recover e c) = [] \<and> (\<exists>oc. cl_term (recover e c) = Delivered oc) \<and>
    cl_inits (recover e c) = cl_inits c"
proof -
  from reachable_client_ok [OF assms(1)] have ok: "client_ok c" .
  then have p: "pending_ok c" and sg: "signals_ok c" by (simp_all add: client_ok_def)
  have fields: "cl_responses (recover e c) = cl_responses (cancel_all_pending Closed c)"
    "cl_stops (recover e c) = cl_stops (stop_cancel c)" "cl_pending (recover e c) = []"
    "cl_inits (recover e c) = cl_inits c"
    using assms(2) by (cases c; simp add: recover_def close_once_def cancel_all_pending_def stop_cancel_def
        stop_send_def fire_terminated_def Let_def split: option.split)+
  have "signals_ok (recover e c)" using recover_ok [OF ok assms(2)] by (simp add: client_ok_def)
  moreover have "cl_closed (recover e c) = Some e"
    using assms(2) by (cases c) (simp add: recover_def close_once_def cancel_all_pending_def stop_cancel_def
        stop_send_def fire_terminated_def Let_def split: option.split)
  ultimately have fired: "\<exists>oc. cl_term (recover e c) = Delivered oc"
    by (auto simp: signals_ok_def split: if_splits)
  have resp: "poll_response t (recover e c) = Some (case poll_response t c of None \<Rightarrow> Inl Closed | Some r \<Rightarrow> r)"
    if "t < length (cl_responses c)" for t
    using cancel_all_cells [OF p that, of Closed] by (auto simp: poll_response_def fields split: cell.split)
  have stops: "poll_stop t (recover e c) = Some (case poll_stop t c of None \<Rightarrow> Some Terminated | Some r \<Rightarrow> r)"
    if "t < length (cl_stops c)" for t
  proof -
    from sg that have "cl_stops c ! t = Waiting \<longleftrightarrow> cl_stop_slot c = Some t"
      by (simp add: signals_ok_def slot_ok_def)
    with that show ?thesis
      by (cases "cl_stop_slot c")
        (auto simp: poll_stop_def fields stop_cancel_def stop_send_def cell_send_def nth_update split: cell.split)
  qed
  from resp stops fired fields(3,4) show ?thesis by blast
qed

theorem recover_unblocks_witness:
  "poll_response 0 answered = None \<and> poll_response 0 (recover WEof answered) = Some (Inl Closed) \<and>
   poll_response 1 (recover WEof answered) = Some (Inr (MResponse second_answer))"
proof -
  have "cl_closed answered = None"
    using remove_pending_same(3) [where c = two_sent] by (simp add: answered_def two_sent_simps)
  from recover_unblocks [OF answered_reachable this, of WEof] show ?thesis
    by (simp add: answered_responses poll_response_def)
qed

end
