(* ===== verification/Read_Loop_Laws.thy ===== *)
theory Read_Loop_Laws
  imports Dap_Client_Laws
begin

text \<open>
  What a run of the read loop leaves behind, against a description of the messages it read: the
  outcome of a registered stop waiter, the output handed on, the terminated signal. And what can
  no longer happen once the loop has ended.
\<close>

section \<open>Descriptions of a message sequence\<close>

fun stop_event :: "dap_message \<Rightarrow> stop_outcome list" where
  "stop_event (MEvent (EvStopped b)) = [Stopped (stop_info_from_event b)]"
| "stop_event (MEvent (EvExited code)) = [Exited (Some code)]"
| "stop_event (MEvent EvTerminated) = [Terminated]"
| "stop_event _ = []"

fun output_event :: "dap_message \<Rightarrow> (string \<times> string) list" where
  "output_event (MEvent (EvOutput b)) = [(ob_category b, ob_output b)]"
| "output_event _ = []"

text \<open>The exit code known when the terminated event arrives, or at the end.\<close>

fun exit_at_end :: "i64 option \<Rightarrow> dap_message list \<Rightarrow> i64 option" where
  "exit_at_end oc [] = oc"
| "exit_at_end oc (MEvent (EvExited code) # ms) = exit_at_end (Some code) ms"
| "exit_at_end oc (MEvent EvTerminated # ms) = oc"
| "exit_at_end oc (m # ms) = exit_at_end oc ms"

text \<open>Only the recovery closes the client.\<close>

lemma dispatch_event_closed: "cl_closed (dispatch_event e c) = cl_closed c"
  by (cases e) (simp_all add: stop_deliver_def stop_deliver_exit_def stop_cancel_def stop_send_def
      record_exit_def fire_terminated_def signal_initialized_def send_output_def split: option.split)

lemma dispatch_message_closed: "cl_closed (dispatch_message m c) = cl_closed c"
  using remove_pending_same(3) by (cases m) (simp_all add: dispatch_event_closed)

section \<open>The stop waiter\<close>

definition same_stop :: "client \<Rightarrow> client \<Rightarrow> bool" where
  "same_stop c d \<longleftrightarrow> cl_stop_slot c = cl_stop_slot d \<and> cl_stops c = cl_stops d"

lemma same_stop_send: "same_stop c d \<Longrightarrow> same_stop (stop_send v c) (stop_send v d)"
  by (simp add: same_stop_def stop_send_def split: option.split)

lemma same_stop_sends: "same_stop c d \<Longrightarrow> same_stop (fold stop_send vs c) (fold stop_send vs d)"
  by (induction vs arbitrary: c d) (simp_all add: same_stop_send)

lemma same_stop_trans: "same_stop a b \<Longrightarrow> same_stop b c \<Longrightarrow> same_stop a c"
  by (simp add: same_stop_def)

lemma dispatch_message_stop: "same_stop (dispatch_message m c) (fold stop_send (stop_event m) c)"
proof (cases m)
  case (MResponse r)
  then show ?thesis using remove_pending_same(3) [where c = c] by (simp add: same_stop_def)
next
  case (MEvent e)
  then show ?thesis
    by (cases e) (auto simp: same_stop_def stop_deliver_def stop_deliver_exit_def stop_cancel_def
        stop_send_def record_exit_def fire_terminated_def signal_initialized_def send_output_def
        split: option.split)
qed (simp add: same_stop_def)

lemma dispatch_messages_stop:
  "same_stop (fold dispatch_message ms c) (fold stop_send (concat (map stop_event ms)) c)"
proof (induction ms arbitrary: c)
  case Nil
  then show ?case by (simp add: same_stop_def)
next
  case (Cons m ms)
  from Cons [of "dispatch_message m c"] same_stop_sends [OF dispatch_message_stop]
  show ?case by (auto intro: same_stop_trans)
qed

lemma recover_stop: "same_stop (recover e c) (stop_send Terminated c)"
  by (cases c) (auto simp: same_stop_def recover_def close_once_def cancel_all_pending_def stop_cancel_def
      stop_send_def fire_terminated_def Let_def split: option.split)

section \<open>Output and the terminated signal\<close>

lemma recover_output: "cl_output (recover e c) = cl_output c"
  by (simp add: recover_def close_once_def cancel_all_pending_def stop_cancel_def stop_send_def
      fire_terminated_def Let_def split: option.split)

lemma dispatch_messages_output:
  "cl_output (fold dispatch_message ms c) = cl_output c @ concat (map output_event ms)"
proof (induction ms arbitrary: c)
  case Nil
  then show ?case by simp
next
  case (Cons m ms)
  have "cl_output (dispatch_message m c) = cl_output c @ output_event m"
  proof (cases m)
    case (MResponse r)
    then show ?thesis by (simp add: dispatch_response_def remove_pending_def split: option.split)
  next
    case (MEvent e)
    then show ?thesis
      by (cases e) (simp_all add: stop_deliver_def stop_deliver_exit_def stop_cancel_def stop_send_def
          record_exit_def fire_terminated_def signal_initialized_def send_output_def split: option.split)
  qed simp
  with Cons show ?case by simp
qed

text \<open>The part of the state behind the terminated signal.\<close>

abbreviation term_part :: "client \<Rightarrow> bool \<times> i64 option cell \<times> i64 option" where
  "term_part c \<equiv> (cl_term_tx c, cl_term c, cl_last_exit c)"

lemma dispatch_message_term:
  "term_part (dispatch_message m c) =
     (case m of
        MEvent (EvExited code) \<Rightarrow> (cl_term_tx c, cl_term c, Some code)
      | MEvent EvTerminated \<Rightarrow> (False, if cl_term_tx c then Delivered (cl_last_exit c) else cl_term c, cl_last_exit c)
      | _ \<Rightarrow> term_part c)"
proof (cases m)
  case (MResponse r)
  then show ?thesis by (simp add: dispatch_response_def remove_pending_def split: option.split)
next
  case (MEvent e)
  then show ?thesis
    by (cases e) (simp_all add: stop_deliver_def stop_deliver_exit_def stop_cancel_def stop_send_def
        record_exit_def fire_terminated_def signal_initialized_def send_output_def split: option.split)
qed simp

lemma recover_term: "cl_term (recover e c) = (if cl_term_tx c then Delivered (cl_last_exit c) else cl_term c)"
  by (simp add: recover_def close_once_def cancel_all_pending_def stop_cancel_def stop_send_def
      fire_terminated_def Let_def split: option.split)

lemma fired_stays: "\<not> cl_term_tx c \<Longrightarrow> cl_term (recover e (fold dispatch_message ms c)) = cl_term c"
proof (induction ms arbitrary: c)
  case Nil
  then show ?case by (simp add: recover_term)
next
  case (Cons m ms)
  from dispatch_message_term [of m c] Cons.prems
  have "\<not> cl_term_tx (dispatch_message m c) \<and> cl_term (dispatch_message m c) = cl_term c"
    by (simp split: dap_message.splits dap_event.splits)
  with Cons.IH show ?case by simp
qed

lemma run_term:
  "cl_term_tx c \<Longrightarrow> cl_term (recover e (fold dispatch_message ms c)) = Delivered (exit_at_end (cl_last_exit c) ms)"
proof (induction ms arbitrary: c)
  case Nil
  then show ?case by (simp add: recover_term)
next
  case (Cons m ms)
  let ?d = "dispatch_message m c"
  consider (ended) "m = MEvent EvTerminated"
    | (exited) code where "m = MEvent (EvExited code)"
    | (other) "term_part ?d = term_part c" "\<And>oc. exit_at_end oc (m # ms) = exit_at_end oc ms"
    using dispatch_message_term [of m c] by (cases "(Some (0::int), m # ms)" rule: exit_at_end.cases) auto
  then show ?case
  proof cases
    case ended
    with dispatch_message_term [of m c] Cons.prems fired_stays [where c = ?d] show ?thesis by simp
  next
    case exited
    with dispatch_message_term [of m c] Cons.prems Cons.IH [where c = ?d] show ?thesis by simp
  next
    case other
    with Cons.prems Cons.IH [where c = ?d] show ?thesis by simp
  qed
qed

text \<open>
  C21. A caller that registered as stop waiter before the loop runs gets exactly the first stop,
  exit or termination among the messages read, and Terminated when there is none; every output
  chunk is handed on, in order; the terminated signal carries the last exit code seen before the
  first terminated event, or before the end of the stream.
\<close>

theorem run_loop_outcome:
  assumes "stop_register c = (t, c1)" "read_all parse stream = (ms, e)" "cl_term_tx c"
  shows "poll_stop t (run_loop parse stream c1) = Some (Some (hd (concat (map stop_event ms) @ [Terminated]))) \<and>
    cl_output (run_loop parse stream c1) = cl_output c @ concat (map output_event ms) \<and>
    cl_term (run_loop parse stream c1) = Delivered (exit_at_end (cl_last_exit c) ms)"
proof (intro conjI)
  let ?vs = "concat (map stop_event ms)"
  have run: "run_loop parse stream c1 = recover e (fold dispatch_message ms c1)"
    by (simp add: run_loop_def assms(2))
  from assms(1) have c1: "cl_output c1 = cl_output c" "cl_term_tx c1" "cl_last_exit c1 = cl_last_exit c"
    using assms(3) by (auto simp: stop_register_def Let_def)
  have "same_stop (run_loop parse stream c1) (fold stop_send (?vs @ [Terminated]) c1)"
    using same_stop_trans [OF recover_stop same_stop_send [OF dispatch_messages_stop]]
    by (simp add: run)
  moreover have "cl_stops (fold stop_send (?vs @ [Terminated]) c1) ! t = Delivered (hd (?vs @ [Terminated]))"
  proof -
    obtain v vs where "?vs @ [Terminated] = v # vs" by (cases "?vs @ [Terminated]") auto
    with stop_slot.first_delivery [OF assms(1), of "v # vs"] show ?thesis by simp
  qed
  ultimately show "poll_stop t (run_loop parse stream c1) = Some (Some (hd (?vs @ [Terminated])))"
    by (simp add: poll_stop_def same_stop_def)
  show "cl_output (run_loop parse stream c1) = cl_output c @ concat (map output_event ms)"
    by (simp add: run recover_output dispatch_messages_output c1)
  show "cl_term (run_loop parse stream c1) = Delivered (exit_at_end (cl_last_exit c) ms)"
    using run_term [OF c1(2)] by (simp add: run c1)
qed

theorem run_loop_outcome_witness:
  "poll_stop 0 (run_loop sample_parse (frame_bytes ''{}'') (snd (stop_register client_new))) = Some (Some Terminated)"
proof -
  have r: "read_all sample_parse (frame_bytes ''{}'') = ([MEvent EvTerminated], WEof)"
    using read_all_frame [of "''{}''" sample_parse "MEvent EvTerminated" "[]"] sample_parse_message
    by (simp add: MAX_CONTENT_LENGTH_def)
  have s: "stop_register client_new = (0, snd (stop_register client_new))"
    by (simp add: stop_register_def client_new_def Let_def)
  from run_loop_outcome [OF s r] show ?thesis by (simp add: client_new_def)
qed

section \<open>After the loop has ended\<close>

text \<open>Nothing is delivered to a closed client any more; its cells can only be given up.\<close>

definition no_delivery :: "'a cell list \<Rightarrow> 'a cell list \<Rightarrow> bool" where
  "no_delivery cs cs' \<longleftrightarrow>
     length cs \<le> length cs' \<and>
     (\<forall>t < length cs'. \<forall>r. cs' ! t = Delivered r \<longrightarrow> t < length cs \<and> cs ! t = Delivered r)"

lemma no_delivery_refl [simp]: "no_delivery cs cs"
  by (simp add: no_delivery_def)

lemma no_delivery_trans: "no_delivery a b \<Longrightarrow> no_delivery b c \<Longrightarrow> no_delivery a c"
  by (auto simp: no_delivery_def)

definition nothing_new :: "client \<Rightarrow> client \<Rightarrow> bool" where
  "nothing_new c c' \<longleftrightarrow>
     cl_closed c' = cl_closed c \<and> cl_fired c' = cl_fired c \<and>
     no_delivery (cl_responses c) (cl_responses c') \<and> no_delivery (cl_inits c) (cl_inits c')"

lemma nothing_new_trans: "nothing_new a b \<Longrightarrow> nothing_new b c \<Longrightarrow> nothing_new a c"
  unfolding nothing_new_def by (auto intro: no_delivery_trans)

lemma cell_drop_delivered: "t < length cs \<Longrightarrow> cell_drop ot cs ! t = Delivered r \<Longrightarrow> cs ! t = Delivered r"
  by (cases ot) (auto simp: cell_drop_def nth_update split: if_splits)

lemma no_delivery_drop: "no_delivery cs (cell_drop ot cs)"
  using cell_drop_delivered [of _ cs ot] by (auto simp: no_delivery_def)

lemma no_delivery_append: "no_delivery cs cs' \<Longrightarrow> no_delivery cs (cs' @ [Waiting])"
  by (auto simp: no_delivery_def nth_append split: if_splits)

lemma no_delivery_register: "no_delivery cs (cell_drop ot cs @ [Waiting])"
  by (rule no_delivery_append [OF no_delivery_drop])

lemmas no_delivery_intros = no_delivery_register no_delivery_drop

lemma closed_step: "client_step c c' \<Longrightarrow> cl_closed c \<noteq> None \<Longrightarrow> nothing_new c c'"
proof (induction rule: client_step.induct)
  case (step_send r c c')
  with remove_pending_same(5) [where c = c and r = r] show ?case
    by (auto simp: nothing_new_def send_start_fields intro!: no_delivery_intros)
next
  case (step_write_failed sq c c')
  with remove_pending_same(2) [where c = c and sq = sq] show ?case
    by (auto simp: nothing_new_def abort_pending_fields intro!: no_delivery_intros)
next
  case (step_register_stop c c')
  then show ?case by (auto simp: nothing_new_def stop_register_def Let_def)
next
  case (step_wait_initialized c c')
  then have "c' = snd (wait_initialized c)" by simp
  then show ?case
    by (cases "cl_fired c") (auto simp: nothing_new_def wait_initialized_def Let_def intro!: no_delivery_intros)
qed auto

lemma closed_steps: "client_steps c c' \<Longrightarrow> cl_closed c \<noteq> None \<Longrightarrow> nothing_new c c'"
proof (induction rule: client_steps.induct)
  case (steps_refl c)
  then show ?case by (simp add: nothing_new_def)
next
  case (steps_step c c' c'')
  then have "nothing_new c c'" by simp
  moreover from this steps_step.prems have "cl_closed c' \<noteq> None" by (simp add: nothing_new_def)
  ultimately show ?case using closed_step [OF steps_step.hyps(2)] nothing_new_trans by blast
qed

text \<open>
  C40. Once the read loop has recovered, nobody is answered any more: a request sent later, whose
  write succeeds, gets neither a response nor an error however the tasks go on, and a caller
  waiting for an initialized event that has not come is never told that it will not.
\<close>

theorem closed_client_is_silent:
  assumes "reachable_client c" "cl_closed c = None" "client_steps (recover e c) c'"
  shows "(\<forall>t r. length (cl_responses c) \<le> t \<and> t < length (cl_responses c') \<longrightarrow> cl_responses c' ! t \<noteq> Delivered r) \<and>
    cl_fired c' = cl_fired c \<and>
    (\<forall>t < length (cl_inits c'). (t < length (cl_inits c) \<longrightarrow> cl_inits c ! t = Waiting) \<longrightarrow> cl_inits c' ! t \<noteq> Delivered ())"
proof -
  have c: "cl_closed (recover e c) \<noteq> None" "cl_fired (recover e c) = cl_fired c" "cl_inits (recover e c) = cl_inits c"
    "length (cl_responses (recover e c)) = length (cl_responses c)"
    using assms(2) by (simp_all add: recover_def close_once_def cancel_all_pending_def stop_cancel_def
        stop_send_def fire_terminated_def Let_def fold_cell_send split: option.split)
  from closed_steps [OF assms(3) c(1)] show ?thesis
    by (auto simp: nothing_new_def no_delivery_def c(2-4))
qed

theorem closed_client_is_silent_witness:
  "cl_responses (snd (send_start (request_new ''threads'' None) (recover WEof client_new))) = [Waiting] \<and>
   cl_responses (snd (send_start (request_new ''threads'' None) (recover WEof client_new))) ! 0 \<noteq> Delivered (Inl Closed)"
proof -
  let ?c = "recover WEof client_new"
  let ?d = "snd (send_start (request_new ''threads'' None) ?c)"
  have r: "reachable_client client_new" by (simp add: reachable_client_def steps_refl)
  have n: "cl_closed client_new = None" "cl_responses client_new = []" "cl_responses ?c = []" "cl_pending ?c = []"
    by (simp_all add: client_new_def recover_def close_once_def cancel_all_pending_def stop_cancel_def
        stop_send_def fire_terminated_def)
  have d: "cl_responses ?d = [Waiting]" by (simp add: send_start_fields n cell_drop_def)
  have "client_steps ?c ?d" by (rule steps_step [OF steps_refl step_send [OF refl]])
  from closed_client_is_silent [OF r n(1) this] n(2) d
  have "cl_responses ?d ! 0 \<noteq> Delivered (Inl Closed)" by simp
  with d show ?thesis by simp
qed

end
