(* ===== verification/Lldb_Transport.thy ===== *)
theory Lldb_Transport
  imports Lldb_Backend_Laws Read_Loop_Laws
begin

text \<open>
  The backend on top of the DAP client, against a debugger process that is an arbitrary
  function from requests to messages. The world holds the client, the messages read and not yet
  read, the debugger's state and a schedule: before each call of the backend the read loop
  handles as many messages on its own as the schedule says, and while a call waits, the read loop
  goes on until the call is woken or the stream is used up. \<open>wo_log\<close> records the requests.
\<close>

section \<open>The world\<close>

datatype reaction = WriteFails wire_error | Emits "dap_message list" bool

type_synonym 'p peer = "request \<Rightarrow> 'p \<Rightarrow> reaction \<times> 'p"

record 'p world =
  wo_client :: client
  wo_seen :: "dap_message list"
  wo_queue :: "dap_message list"
  wo_eof :: bool
  wo_peer :: 'p
  wo_log :: "request list"
  wo_lag :: "nat list"

definition world_new :: "'p \<Rightarrow> nat list \<Rightarrow> 'p world" where
  "world_new p lag =
     \<lparr>wo_client = client_new, wo_seen = [], wo_queue = [], wo_eof = False, wo_peer = p, wo_log = [], wo_lag = lag\<rparr>"

text \<open>One step of the read loop, if it can make one.\<close>

definition read_one :: "'p world \<Rightarrow> 'p world" where
  "read_one w =
     (case wo_queue w of
        m # q \<Rightarrow> w\<lparr>wo_client := dispatch_message m (wo_client w), wo_seen := wo_seen w @ [m], wo_queue := q\<rparr>
      | [] \<Rightarrow> if wo_eof w \<and> cl_closed (wo_client w) = None
             then w\<lparr>wo_client := recover WEof (wo_client w)\<rparr> else w)"

definition tick :: "'p world \<Rightarrow> 'p world" where
  "tick w = (case wo_lag w of [] \<Rightarrow> w | n # l \<Rightarrow> (read_one ^^ n) (w\<lparr>wo_lag := l\<rparr>))"

fun wait_steps :: "nat \<Rightarrow> (client \<Rightarrow> bool) \<Rightarrow> 'p world \<Rightarrow> 'p world option" where
  "wait_steps 0 P w = (if P (wo_client w) then Some w else None)"
| "wait_steps (Suc n) P w = (if P (wo_client w) then Some w else wait_steps n P (read_one w))"

definition wait_until :: "(client \<Rightarrow> bool) \<Rightarrow> 'p world \<Rightarrow> 'p world option" where
  "wait_until P w = wait_steps (Suc (length (wo_queue w))) P w"

text \<open>The debugger receives a request: what it emits is queued unless its stream has ended.\<close>

definition emit :: "'p peer \<Rightarrow> request \<Rightarrow> request \<Rightarrow> 'p world \<Rightarrow> wire_error option \<times> 'p world" where
  "emit peer stamped r w =
     (case peer stamped (wo_peer w) of
        (WriteFails e, p) \<Rightarrow> (Some e, w\<lparr>wo_peer := p, wo_log := wo_log w @ [r]\<rparr>)
      | (Emits ms closes, p) \<Rightarrow>
          (None, if wo_eof w then w\<lparr>wo_peer := p, wo_log := wo_log w @ [r]\<rparr>
                 else w\<lparr>wo_peer := p, wo_log := wo_log w @ [r], wo_queue := wo_queue w @ ms, wo_eof := closes\<rparr>))"

text \<open>\<^verbatim>\<open>Client::send_async\<close>, and \<^verbatim>\<open>Client::send\<close> that goes on to await the response.\<close>

definition world_send_async ::
  "(json_error \<Rightarrow> string) \<Rightarrow> 'p peer \<Rightarrow> request \<Rightarrow> 'p world \<Rightarrow> (backend_error + nat) \<times> 'p world" where
  "world_send_async show_json peer r w0 =
     (let w = tick w0 in
      case send_start r (wo_client w) of ((t, sq, stamped), c) \<Rightarrow>
      case emit peer stamped r (w\<lparr>wo_client := c\<rparr>) of (failed, w1) \<Rightarrow>
      case send_written show_json sq failed (wo_client w1) of (res, c1) \<Rightarrow>
        (map_ok (\<lambda>_. t) res, w1\<lparr>wo_client := c1\<rparr>))"

definition world_await :: "nat \<Rightarrow> 'p world \<Rightarrow> (pending_result option \<times> 'p world) option" where
  "world_await t w =
     map_option (\<lambda>w'. (case cl_responses (wo_client w') ! t of Delivered r \<Rightarrow> Some r | _ \<Rightarrow> None, w'))
       (wait_until (\<lambda>c. poll_response t c \<noteq> None) (tick w))"

definition world_send ::
  "(json_error \<Rightarrow> string) \<Rightarrow> 'p peer \<Rightarrow> request \<Rightarrow> 'p world \<Rightarrow> (pending_result \<times> 'p world) option" where
  "world_send show_json peer r w =
     (case world_send_async show_json peer r w of
        (Inl e, w') \<Rightarrow> Some (Inl e, w')
      | (Inr t, w') \<Rightarrow>
          map_option (\<lambda>(res, w''). (case res of Some x \<Rightarrow> x | None \<Rightarrow> Inl Closed, w'')) (world_await t w'))"

definition world_wait_initialized :: "'p world \<Rightarrow> (unit \<times> 'p world) option" where
  "world_wait_initialized w0 =
     (let w = tick w0 in
      case wait_initialized (wo_client w) of (ot, c) \<Rightarrow>
        map_option (\<lambda>w'. ((), w')) (wait_until (init_done ot) (w\<lparr>wo_client := c\<rparr>)))"

definition world_stop_register :: "'p world \<Rightarrow> nat \<times> 'p world" where
  "world_stop_register w0 =
     (let w = tick w0 in case stop_register (wo_client w) of (t, c) \<Rightarrow> (t, w\<lparr>wo_client := c\<rparr>))"

definition world_stop_await :: "nat \<Rightarrow> 'p world \<Rightarrow> (stop_outcome option \<times> 'p world) option" where
  "world_stop_await t w =
     map_option (\<lambda>w'. (case cl_stops (wo_client w') ! t of Delivered r \<Rightarrow> Some r | _ \<Rightarrow> None, w'))
       (wait_until (\<lambda>c. poll_stop t c \<noteq> None) (tick w))"

definition dap_transport :: "(json_error \<Rightarrow> string) \<Rightarrow> 'p peer \<Rightarrow> 'p world transport" where
  "dap_transport show_json peer =
     \<lparr>tr_send = world_send show_json peer,
      tr_send_async = (\<lambda>r w. Some (world_send_async show_json peer r w)),
      tr_wait_initialized = world_wait_initialized,
      tr_await = world_await,
      tr_stop_register = world_stop_register,
      tr_stop_await = world_stop_await,
      tr_kill_child = (\<lambda>w. w\<lparr>wo_eof := True\<rparr>)\<rparr>"

definition lldb_over ::
  "(json_error \<Rightarrow> string) \<Rightarrow> (string \<Rightarrow> string + byte list) \<Rightarrow> 'p peer \<Rightarrow> bool \<Rightarrow> 'p world lldb_backend" where
  "lldb_over show_json base64 peer is_lldb_dap =
     \<lparr>lb_transport = dap_transport show_json peer, lb_is_lldb_dap = is_lldb_dap, lb_pid = None,
      lb_stderr = (\<lambda>_. None), lb_show_json = show_json, lb_base64 = base64\<rparr>"

section \<open>Waiting\<close>

text \<open>The wait looks far enough: if any number of steps of the read loop wakes the caller, it is woken.\<close>

lemma read_one_exhausted:
  "wo_queue w = [] \<Longrightarrow> cl_closed (wo_client w) \<noteq> None \<or> \<not> wo_eof w \<Longrightarrow> read_one w = w"
  by (auto simp: read_one_def)

lemma recover_closed: "cl_closed (recover e c) \<noteq> None"
  by (cases "cl_closed c") (simp_all add: recover_def close_once_def cancel_all_pending_def stop_cancel_def
      stop_send_def fire_terminated_def Let_def split: option.split)

lemma funpow_fixed: "f x = x \<Longrightarrow> (f ^^ n) x = x"
  by (induction n) simp_all

lemma read_one_stable: "length (wo_queue w) \<le> n \<Longrightarrow> (read_one ^^ k) ((read_one ^^ Suc n) w) = (read_one ^^ Suc n) w"
proof (induction n arbitrary: w)
  case 0
  then have q: "wo_queue w = []" by simp
  have "read_one (read_one w) = read_one w"
  proof (cases "wo_eof w \<and> cl_closed (wo_client w) = None")
    case True
    with q recover_closed [of WEof "wo_client w"] show ?thesis by (auto simp: read_one_def)
  next
    case False
    with q have "read_one w = w" by (intro read_one_exhausted) auto
    then show ?thesis by simp
  qed
  then show ?case by (simp add: funpow_fixed)
next
  case (Suc n)
  have "length (wo_queue (read_one w)) \<le> n"
    using Suc.prems by (cases "wo_queue w") (auto simp: read_one_def)
  from Suc.IH [OF this] show ?case by (simp only: funpow_Suc_right o_apply)
qed

lemma wait_steps_Some:
  "wait_steps n P w = Some w' \<Longrightarrow> P (wo_client w') \<and> (\<exists>k \<le> n. w' = (read_one ^^ k) w)"
proof (induction n arbitrary: w)
  case 0
  then show ?case by (auto split: if_splits)
next
  case (Suc n)
  show ?case
  proof (cases "P (wo_client w)")
    case True
    with Suc.prems show ?thesis by (auto intro: exI [of _ 0])
  next
    case False
    with Suc.prems have "wait_steps n P (read_one w) = Some w'" by simp
    from Suc.IH [OF this] obtain k where "P (wo_client w')" "k \<le> n" "w' = (read_one ^^ k) (read_one w)" by blast
    then show ?thesis by (intro conjI exI [of _ "Suc k"]) (simp_all add: funpow_swap1)
  qed
qed

lemma wait_steps_None: "wait_steps n P w = None \<Longrightarrow> k \<le> n \<Longrightarrow> \<not> P (wo_client ((read_one ^^ k) w))"
proof (induction n arbitrary: w k)
  case 0
  then show ?case by (auto split: if_splits)
next
  case (Suc n)
  from Suc.prems(1) have np: "\<not> P (wo_client w)" "wait_steps n P (read_one w) = None"
    by (auto split: if_splits)
  show ?case
  proof (cases k)
    case 0
    with np show ?thesis by simp
  next
    case (Suc j)
    with Suc.IH [OF np(2), of j] Suc.prems(2) show ?thesis by (simp only: funpow_Suc_right o_apply) simp
  qed
qed

lemma wait_until_complete: "wait_until P w = None \<longleftrightarrow> (\<forall>k. \<not> P (wo_client ((read_one ^^ k) w)))"
proof
  assume none: "wait_until P w = None"
  let ?n = "Suc (length (wo_queue w))"
  show "\<forall>k. \<not> P (wo_client ((read_one ^^ k) w))"
  proof
    fix k
    show "\<not> P (wo_client ((read_one ^^ k) w))"
    proof (cases "k \<le> ?n")
      case True
      with wait_steps_None [OF none [unfolded wait_until_def] True] show ?thesis by blast
    next
      case False
      then have "(read_one ^^ k) w = (read_one ^^ (k - ?n)) ((read_one ^^ ?n) w)"
        by (metis comp_apply funpow_add le_add_diff_inverse2 nat_le_linear)
      also have "\<dots> = (read_one ^^ ?n) w" by (rule read_one_stable) simp
      finally have "(read_one ^^ k) w = (read_one ^^ ?n) w" .
      with wait_steps_None [OF none [unfolded wait_until_def] order_refl] show ?thesis by simp
    qed
  qed
next
  assume "\<forall>k. \<not> P (wo_client ((read_one ^^ k) w))"
  then show "wait_until P w = None" using wait_steps_Some unfolding wait_until_def by (metis not_Some_eq)
qed

section \<open>The log of requests\<close>

lemma read_one_log: "wo_log (read_one w) = wo_log w"
  by (simp add: read_one_def split: list.split)

lemma read_ahead_log: "wo_log ((read_one ^^ n) w) = wo_log w"
  by (induction n) (simp_all add: read_one_log)

lemma tick_log: "wo_log (tick w) = wo_log w"
  by (simp add: tick_def read_ahead_log split: list.split)

lemma wait_until_log: "wait_until P w = Some w' \<Longrightarrow> wo_log w' = wo_log w"
  using wait_steps_Some read_ahead_log unfolding wait_until_def by metis

lemma emit_log: "emit peer st r w = (failed, w') \<Longrightarrow> wo_log w' = wo_log w @ [r]"
  by (auto simp: emit_def split: prod.splits reaction.splits)

lemma world_send_async_log: "world_send_async sj peer r w = (x, w') \<Longrightarrow> wo_log w' = wo_log w @ [r]"
  by (auto simp: world_send_async_def Let_def tick_log dest!: emit_log split: prod.splits)

lemma world_await_log: "world_await t w = Some (x, w') \<Longrightarrow> wo_log w' = wo_log w"
  by (auto simp: world_await_def tick_log dest!: wait_until_log)

lemma world_send_log: "world_send sj peer r w = Some (x, w') \<Longrightarrow> wo_log w' = wo_log w @ [r]"
  by (auto simp: world_send_def dest!: world_send_async_log world_await_log split: prod.splits sum.splits)

lemma world_wait_log: "world_wait_initialized w = Some (x, w') \<Longrightarrow> wo_log w' = wo_log w"
  by (auto simp: world_wait_initialized_def Let_def tick_log dest!: wait_until_log split: prod.splits)

lemma world_register_log: "wo_log (snd (world_stop_register w)) = wo_log w"
  by (simp add: world_stop_register_def Let_def tick_log split: prod.split)

lemma world_stop_await_log: "world_stop_await t w = Some (x, w') \<Longrightarrow> wo_log w' = wo_log w"
  by (auto simp: world_stop_await_def tick_log dest!: wait_until_log)

interpretation dap_log: logged_transport "dap_transport sj peer" wo_log for sj peer
  by unfold_locales
    (auto simp: dap_transport_def world_send_log world_send_async_log world_wait_log world_await_log
       world_register_log world_stop_await_log)

lemma lldb_over_transport [simp]: "lb_transport (lldb_over sj b64 peer d) = dap_transport sj peer"
  by (simp add: lldb_over_def)

end
