(* ===== verification/Lldb_Handshake.thy ===== *)
theory Lldb_Handshake
  imports Lldb_Transport
begin

text \<open>
  The two handshakes: the order of their requests; a launch that stops on entry never misses its stop,
  under any schedule of the read loop, because the waiter is registered before configurationDone;
  both wait for ever when the initialized event does not come, even when the connection is gone. And the
  resumes: they wait for a stop whatever the debugger answers.
\<close>

section \<open>A debugger that plays by the rules\<close>

definition entry_stop :: stopped_body where
  "entry_stop = \<lparr>sbd_reason = ''entry'', sbd_description = [], sbd_thread_id = 1, sbd_text = [],
     sbd_all_threads_stopped = True, sbd_hit_breakpoint_ids = []\<rparr>"

definition ok_response :: "i64 \<Rightarrow> string \<Rightarrow> dap_message" where
  "ok_response sq command =
     MResponse \<lparr>re_seq = 0, re_ty = ''response'', re_request_seq = sq, re_success = True,
       re_command = command, re_message = [], re_body = None\<rparr>"

text \<open>
  It answers every request, the launch or attach request (number 2) only after
  configurationDone, as lldb-dap does, and emits the stop right then.
\<close>

definition friendly :: "unit peer" where
  "friendly r p =
     (Emits (if rq_command r = ''launch'' \<or> rq_command r = ''attach'' then [MEvent EvInitialized]
             else if rq_command r = ''configurationDone'' then
               [ok_response (rq_seq r) (rq_command r), MEvent (EvStopped entry_stop), ok_response 2 ''launch'']
             else [ok_response (rq_seq r) (rq_command r)]) False, p)"

definition sample_spec :: launch_spec where
  "sample_spec = \<lparr>ls_program = ''a.out'', ls_args = [], ls_cwd = None, ls_env = [], ls_stop_on_entry = True,
     ls_source_breakpoints = [], ls_function_breakpoints = []\<rparr>"

definition sample_attach :: attach_spec where
  "sample_attach = \<lparr>as_pid = Some 7, as_wait_for = None\<rparr>"

definition sample_backend :: "'p peer \<Rightarrow> 'p world lldb_backend" where
  "sample_backend peer = lldb_over (\<lambda>_. []) (\<lambda>_. Inl []) peer True"

section \<open>The order of the handshakes\<close>

text \<open>
  C10. The launch handshake sends, in this order, initialize, launch, one setBreakpoints per file,
  setFunctionBreakpoints when there are any, setExceptionBreakpoints and configurationDone; the
  attach handshake initialize, attach, setExceptionBreakpoints and configurationDone. A run that
  succeeds has sent all of them, a run that fails an initial part, whatever the debugger answers
  and however the read loop is scheduled.
\<close>

theorem handshake_request_order:
  assumes "run_launch (lldb_over sj b64 peer d) spec w = Some (r, w')"
    and "run_attach (lldb_over sj b64 peer' d) aspec v = Some (q, v')"
  shows "(\<exists>k. wo_log w' = wo_log w @ take k (launch_requests spec) \<and> (isl r \<or> length (launch_requests spec) \<le> k)) \<and>
    (\<exists>k. wo_log v' = wo_log v @ take k (attach_requests aspec) \<and> (isl q \<or> length (attach_requests aspec) \<le> k))"
proof -
  have "sends wo_log (launch_requests spec) (run_launch (lldb_over sj b64 peer d) spec)"
    "sends wo_log (attach_requests aspec) (run_attach (lldb_over sj b64 peer' d) aspec)"
    by (rule dap_log.launch_order dap_log.attach_order, simp)+
  with assms show ?thesis by (meson sendsE)
qed

lemma friendly_launch_log:
  "map_option (\<lambda>(r, w). (isl r, map rq_command (wo_log w))) (run_launch (sample_backend friendly) sample_spec (world_new () [])) =
     Some (False, [''initialize'', ''launch'', ''setExceptionBreakpoints'', ''configurationDone''])"
  by code_simp

text \<open>A debugger that refuses every request.\<close>

definition no_resume :: "unit peer" where
  "no_resume r p =
     (Emits [MResponse \<lparr>re_seq = 0, re_ty = ''response'', re_request_seq = rq_seq r, re_success = False,
        re_command = rq_command r, re_message = ''invalid thread'', re_body = None\<rparr>] False, p)"

lemma refused_attach_log:
  "map_option (\<lambda>(r, w). (isl r, map rq_command (wo_log w))) (run_attach (sample_backend no_resume) sample_attach (world_new () [])) =
     Some (True, [''initialize''])"
  by code_simp

theorem handshake_request_order_witness:
  "\<exists>r w' q v' k j. run_launch (sample_backend friendly) sample_spec (world_new () []) = Some (r, w') \<and>
     run_attach (sample_backend no_resume) sample_attach (world_new () []) = Some (q, v') \<and>
     wo_log w' = take k (launch_requests sample_spec) \<and> length (launch_requests sample_spec) \<le> k \<and>
     wo_log v' = take j (attach_requests sample_attach) \<and> isl q"
proof -
  obtain r w' where l: "run_launch (sample_backend friendly) sample_spec (world_new () []) = Some (r, w')" "\<not> isl r"
    using friendly_launch_log by auto
  obtain q v' where a: "run_attach (sample_backend no_resume) sample_attach (world_new () []) = Some (q, v')" "isl q"
    using refused_attach_log by auto
  from handshake_request_order [OF l(1) [unfolded sample_backend_def] a(1) [unfolded sample_backend_def]] l a
  show ?thesis by (auto simp: world_new_def)
qed

section \<open>Invariants of the world\<close>

definition world_ok :: "'p world \<Rightarrow> bool" where
  "world_ok w \<longleftrightarrow> client_ok (wo_client w) \<and>
     (cl_closed (wo_client w) \<noteq> None \<longrightarrow> wo_queue w = [] \<and> wo_eof w)"

text \<open>Everything the debugger has emitted, and what the read loop has offered to the stop waiter.\<close>

definition emitted :: "'p world \<Rightarrow> dap_message list" where
  "emitted w = wo_seen w @ wo_queue w"

definition offers :: "'p world \<Rightarrow> stop_outcome list" where
  "offers w = concat (map stop_event (wo_seen w)) @ (if cl_closed (wo_client w) = None then [] else [Terminated])"

definition answers :: "client \<Rightarrow> dap_message set" where
  "answers c = {m. Delivered (Inr m) \<in> set (cl_responses c)}"

text \<open>What the callers do to the client: no waiter for a stop changes, and no answer is delivered.\<close>

definition quiet_call :: "client \<Rightarrow> client \<Rightarrow> bool" where
  "quiet_call c c' \<longleftrightarrow> cl_stop_slot c' = cl_stop_slot c \<and> cl_stops c' = cl_stops c \<and> cl_closed c' = cl_closed c \<and>
     answers c' \<subseteq> answers c \<and> length (cl_responses c) \<le> length (cl_responses c')"

lemma cell_drop_set: "set (cell_drop ot cs) \<subseteq> insert Abandoned (set cs)"
  by (cases ot) (simp_all add: cell_drop_def set_update_subset_insert subset_insertI)

lemma quiet_send_start: "quiet_call c (snd (send_start r c))"
  using remove_pending_same(5) [where c = c and r = r] cell_drop_set [of _ "cl_responses c"] send_start_fields(4) [of r c]
  by (auto simp: quiet_call_def answers_def send_start_fields)

lemma quiet_abort: "quiet_call c (abort_pending sq c)"
  using remove_pending_same(2) [where c = c and sq = sq] cell_drop_set [of _ "cl_responses c"]
  by (auto simp: quiet_call_def answers_def abort_pending_fields)

lemma quiet_wait_initialized: "quiet_call c (snd (wait_initialized c))"
  by (simp add: quiet_call_def answers_def wait_initialized_def Let_def)

text \<open>
  An interface for invariants: kept by the read loop, by changes of the client that do not touch
  the stop waiter, and by the debugger's reaction to the requests it allows.
\<close>

locale world_invariant =
  fixes I :: "'p world \<Rightarrow> bool"
    and peer :: "'p peer"
    and allowed :: "request \<Rightarrow> bool"
  assumes I_ok: "I w \<Longrightarrow> world_ok w"
    and I_read: "I w \<Longrightarrow> I (read_one w)"
    and I_lag: "I w \<Longrightarrow> I (w\<lparr>wo_lag := l\<rparr>)"
    and I_client: "I w \<Longrightarrow> client_ok c \<Longrightarrow> quiet_call (wo_client w) c \<Longrightarrow> I (w\<lparr>wo_client := c\<rparr>)"
    and I_emit: "I w \<Longrightarrow> allowed r \<Longrightarrow> I (snd (emit peer (set_seq sq r) r w))"
begin

lemma I_reads: "I w \<Longrightarrow> I ((read_one ^^ n) w)"
  by (induction n) (simp_all add: I_read)

lemma I_tick: "I w \<Longrightarrow> I (tick w)"
  by (auto simp: tick_def I_lag I_reads split: list.split)

lemma I_wait: "I w \<Longrightarrow> wait_until P w = Some w' \<Longrightarrow> I w'"
  using wait_steps_Some I_reads unfolding wait_until_def by metis

lemma I_client_ok: "I w \<Longrightarrow> client_ok (wo_client w)"
  using I_ok by (simp add: world_ok_def)

lemma I_send_async:
  assumes "I w" "allowed r" "world_send_async sj peer r w = (x, w')"
  shows "I w'"
proof -
  let ?w = "tick w"
  obtain t sq st c where s: "send_start r (wo_client ?w) = ((t, sq, st), c)"
    by (metis prod.exhaust)
  have st: "st = set_seq sq r" "client_ok c" "quiet_call (wo_client ?w) c"
    using s send_start_ok [OF I_client_ok [OF I_tick [OF assms(1)]], of r]
      quiet_send_start [of "wo_client ?w" r] send_start_fields(4) [of r "wo_client ?w"]
    by auto
  obtain failed w1 where e: "emit peer st r (?w\<lparr>wo_client := c\<rparr>) = (failed, w1)" by (metis prod.exhaust)
  have "I (?w\<lparr>wo_client := c\<rparr>)" by (intro I_client I_tick assms st)
  from I_emit [OF this assms(2), of sq] e st(1) have w1: "I w1" by simp
  have "w' = w1 \<or> w' = w1\<lparr>wo_client := abort_pending sq (wo_client w1)\<rparr>"
    using assms(3) s e by (auto simp: world_send_async_def Let_def send_written_def split: option.splits)
  moreover have "I (w1\<lparr>wo_client := abort_pending sq (wo_client w1)\<rparr>)"
    by (intro I_client w1 abort_pending_ok I_client_ok quiet_abort)
  ultimately show ?thesis using w1 by auto
qed

definition keeps :: "('p world, 'a) proc \<Rightarrow> bool" where
  "keeps p \<longleftrightarrow> (\<forall>w. I w \<longrightarrow> post p w (\<lambda>_. I))"

lemma keepsI: "(\<And>w x w'. I w \<Longrightarrow> p w = Some (x, w') \<Longrightarrow> I w') \<Longrightarrow> keeps p"
  by (simp add: keeps_def post_def)

lemma keepsD: "keeps p \<Longrightarrow> I w \<Longrightarrow> p w = Some (x, w') \<Longrightarrow> I w'"
  by (simp add: keeps_def post_def)

lemma keeps_seq: "keeps p \<Longrightarrow> (\<And>x. keeps (f x)) \<Longrightarrow> keeps (seq p f)"
  unfolding keeps_def by (auto intro!: post_seq intro: post_mono)

lemma keeps_ret: "keeps (ret x)"
  by (rule keepsI) (simp add: ret_def)

lemma keeps_check: "keeps (check_with f)"
  by (rule keepsI) (simp add: check_with_def)

lemma keeps_with_err: "keeps p \<Longrightarrow> keeps (with_err g p)"
  unfolding with_err_def by (intro keeps_seq keeps_ret)

lemma keeps_try: "keeps p \<Longrightarrow> (\<And>x. keeps (f x)) \<Longrightarrow> keeps (try_then p f)"
  unfolding try_then_def by (rule keeps_seq) (auto simp: keeps_ret split: sum.split)

lemma keeps_await: "keeps (world_await t)"
  by (rule keepsI) (auto simp: world_await_def dest: I_tick I_wait)

lemma keeps_send: "allowed r \<Longrightarrow> keeps (world_send sj peer r)"
  by (rule keepsI)
    (auto simp: world_send_def dest: I_send_async keepsD [OF keeps_await] split: prod.splits sum.splits)

lemma keeps_send_async: "allowed r \<Longrightarrow> keeps (\<lambda>w. Some (world_send_async sj peer r w))"
  by (rule keepsI) (auto dest: I_send_async)

lemma keeps_wait_initialized: "keeps world_wait_initialized"
proof (rule keepsI)
  fix w :: "'p world" and x w' assume w: "I w" and run: "world_wait_initialized w = Some (x, w')"
  obtain ot c where c: "wait_initialized (wo_client (tick w)) = (ot, c)" by (metis prod.exhaust)
  have "client_ok c" "quiet_call (wo_client (tick w)) c"
    using c client_ok_ops(4) [OF I_client_ok [OF I_tick [OF w]]] quiet_wait_initialized [of "wo_client (tick w)"] by simp_all
  then have "I ((tick w)\<lparr>wo_client := c\<rparr>)" by (intro I_client I_tick w)
  with run c I_wait show "I w'" by (auto simp: world_wait_initialized_def Let_def)
qed

lemma keeps_stop_await: "keeps (world_stop_await t)"
  by (rule keepsI) (auto simp: world_stop_await_def dest: I_tick I_wait)

lemma keeps_response: "keeps (check_response lb a b m)"
  by (simp add: check_response_def keeps_check)

lemmas keeps_intros = keeps_try keeps_seq keeps_with_err keeps_ret keeps_check keeps_response keeps_send
  keeps_send_async keeps_wait_initialized keeps_await keeps_stop_await

lemma keeps_initialize:
  "lb_transport lb = dap_transport sj peer \<Longrightarrow> allowed req_initialize \<Longrightarrow> keeps (be_initialize lb)"
  by (simp add: be_initialize_def dap_transport_def) (intro keeps_intros)

lemma keeps_unchecked:
  "lb_transport lb = dap_transport sj peer \<Longrightarrow> allowed r \<Longrightarrow> keeps (send_unchecked lb a r)"
  by (simp add: send_unchecked_def dap_transport_def) (intro keeps_intros)

lemma keeps_flush_source:
  "lb_transport lb = dap_transport sj peer \<Longrightarrow> (\<And>f b. allowed (req_set_breakpoints f b)) \<Longrightarrow>
     keeps (flush_source_breakpoints lb fs)"
proof (induction fs)
  case Nil
  then show ?case by (simp add: keeps_ret)
next
  case (Cons fb fs)
  then show ?case
    by (cases fb) (auto simp: send_checked_breakpoints_for_file_def dap_transport_def intro!: keeps_intros)
qed

lemma keeps_flush_function:
  "lb_transport lb = dap_transport sj peer \<Longrightarrow> (\<And>b. allowed (req_set_function_breakpoints b)) \<Longrightarrow>
     keeps (flush_function_breakpoints lb bps)"
  by (auto simp: flush_function_breakpoints_def dap_transport_def intro!: keeps_intros)

lemma keeps_deferred: "lb_transport lb = dap_transport sj peer \<Longrightarrow> keeps (await_deferred lb a rx)"
  unfolding await_deferred_def
  by (auto simp: dap_transport_def intro!: keeps_intros split: option.split sum.split)

end

section \<open>Before configurationDone\<close>

text \<open>The debuggee does not run, and the connection does not end, before configurationDone.\<close>

definition waits_for_done :: "'p peer \<Rightarrow> bool" where
  "waits_for_done peer \<longleftrightarrow>
     (\<forall>r p. rq_command r \<noteq> ''configurationDone'' \<longrightarrow>
        (case fst (peer r p) of WriteFails _ \<Rightarrow> True | Emits ms closes \<Rightarrow> concat (map stop_event ms) = [] \<and> \<not> closes))"

definition not_running :: "'p peer \<Rightarrow> 'p world \<Rightarrow> bool" where
  "not_running peer w \<longleftrightarrow>
     waits_for_done peer \<and> world_ok w \<and> \<not> wo_eof w \<and> concat (map stop_event (emitted w)) = []"

lemma read_one_ok: "world_ok w \<Longrightarrow> world_ok (read_one w)"
  by (auto simp: world_ok_def read_one_def dispatch_message_ok dispatch_message_closed recover_ok split: list.split)

lemma read_one_emitted: "emitted (read_one w) = emitted w" "wo_eof (read_one w) = wo_eof w"
  by (simp_all add: emitted_def read_one_def split: list.split)

lemma emit_fields:
  "wo_client (snd (emit peer st r w)) = wo_client w" "wo_seen (snd (emit peer st r w)) = wo_seen w"
  by (simp_all add: emit_def split: prod.split reaction.split)

lemma emit_ok: "world_ok w \<Longrightarrow> world_ok (snd (emit peer st r w))"
  by (auto simp: world_ok_def emit_def split: prod.split reaction.split)

lemma waits_for_doneD:
  "waits_for_done peer \<Longrightarrow> rq_command r \<noteq> ''configurationDone'' \<Longrightarrow> peer r p = (Emits ms closes, p') \<Longrightarrow>
     concat (map stop_event ms) = [] \<and> \<not> closes"
proof -
  assume w: "waits_for_done peer" "rq_command r \<noteq> ''configurationDone''" and p: "peer r p = (Emits ms closes, p')"
  from w have "case fst (peer r p) of WriteFails _ \<Rightarrow> True | Emits ms closes \<Rightarrow> concat (map stop_event ms) = [] \<and> \<not> closes"
    unfolding waits_for_done_def by blast
  with p show ?thesis by simp
qed

lemma emit_not_running:
  "not_running peer w \<Longrightarrow> rq_command r \<noteq> ''configurationDone'' \<Longrightarrow> not_running peer (snd (emit peer (set_seq sq r) r w))"
proof -
  assume w: "not_running peer w" and r: "rq_command r \<noteq> ''configurationDone''"
  have ok: "world_ok (snd (emit peer (set_seq sq r) r w))"
    using w by (intro emit_ok) (simp add: not_running_def)
  obtain a p where p: "peer (set_seq sq r) (wo_peer w) = (a, p)" by (metis prod.exhaust)
  show ?thesis
  proof (cases a)
    case (WriteFails e)
    with p w ok show ?thesis by (auto simp: not_running_def emitted_def emit_def)
  next
    case (Emits ms closes)
    with p w r waits_for_doneD [of peer "set_seq sq r" "wo_peer w" ms closes p]
    have "concat (map stop_event ms) = []" "\<not> closes" by (auto simp: not_running_def set_seq_def)
    with p w ok Emits show ?thesis by (auto simp: not_running_def emitted_def emit_def)
  qed
qed

lemma not_running_read: "not_running peer w \<Longrightarrow> not_running peer (read_one w)"
  by (simp add: not_running_def read_one_ok read_one_emitted)

lemma not_running_lag: "not_running peer w \<Longrightarrow> not_running peer (w\<lparr>wo_lag := l\<rparr>)"
  by (auto simp: not_running_def world_ok_def emitted_def)

lemma not_running_client:
  "not_running peer w \<Longrightarrow> client_ok c \<Longrightarrow> quiet_call (wo_client w) c \<Longrightarrow>
     not_running peer (w\<lparr>wo_client := c\<rparr>)"
  by (auto simp: not_running_def world_ok_def emitted_def quiet_call_def)

lemma not_running_ok: "not_running peer w \<Longrightarrow> world_ok w"
  by (simp add: not_running_def)

interpretation before_done: world_invariant "not_running peer" peer "\<lambda>r. rq_command r \<noteq> ''configurationDone''" for peer
  by unfold_locales
    (rule not_running_ok not_running_read not_running_lag not_running_client emit_not_running; assumption)+

lemma not_running_offers: "not_running peer w \<Longrightarrow> offers w = []"
  by (auto simp: not_running_def offers_def world_ok_def emitted_def)

lemma not_running_new: "waits_for_done peer \<Longrightarrow> not_running peer (world_new p lag)"
  by (simp add: not_running_def world_new_def world_ok_def emitted_def client_ok_new)
    (simp add: client_new_def)

section \<open>A registered waiter\<close>

definition tracks :: "nat \<Rightarrow> stop_outcome list \<Rightarrow> client \<Rightarrow> bool" where
  "tracks t os c \<longleftrightarrow> t < length (cl_stops c) \<and>
     (case os of
        [] \<Rightarrow> cl_stop_slot c = Some t \<and> cl_stops c ! t = Waiting
      | v # _ \<Rightarrow> cl_stop_slot c = None \<and> cl_stops c ! t = Delivered v)"

lemma tracks_send: "tracks t os c \<Longrightarrow> tracks t (os @ [v]) (stop_send v c)"
  by (cases os) (auto simp: tracks_def stop_send_def cell_send_def)

lemma tracks_sends: "tracks t os c \<Longrightarrow> tracks t (os @ vs) (fold stop_send vs c)"
proof (induction vs arbitrary: os c)
  case Nil
  then show ?case by simp
next
  case (Cons v vs)
  from Cons.IH [OF tracks_send [OF Cons.prems, of v]] show ?case by simp
qed

lemma tracks_cong: "tracks t os c \<Longrightarrow> same_stop c' c \<Longrightarrow> tracks t os c'"
  by (cases os) (auto simp: tracks_def same_stop_def)

definition waiting_for :: "nat \<Rightarrow> 'p world \<Rightarrow> bool" where
  "waiting_for t w \<longleftrightarrow> world_ok w \<and> tracks t (offers w) (wo_client w)"

lemma waiting_read: "waiting_for t w \<Longrightarrow> waiting_for t (read_one w)"
proof -
  assume w: "waiting_for t w"
  then have ok: "world_ok w" and tr: "tracks t (offers w) (wo_client w)" by (simp_all add: waiting_for_def)
  have "tracks t (offers (read_one w)) (wo_client (read_one w))"
  proof (cases "wo_queue w")
    case (Cons m q)
    with ok have "cl_closed (wo_client w) = None" by (auto simp: world_ok_def)
    with Cons have "offers (read_one w) = offers w @ stop_event m"
      by (simp add: offers_def read_one_def dispatch_message_closed)
    moreover have "wo_client (read_one w) = dispatch_message m (wo_client w)"
      using Cons by (simp add: read_one_def)
    ultimately show ?thesis
      using tracks_cong [OF tracks_sends [OF tr] dispatch_message_stop] by simp
  next
    case Nil
    show ?thesis
    proof (cases "wo_eof w \<and> cl_closed (wo_client w) = None")
      case True
      with Nil have "offers (read_one w) = offers w @ [Terminated]"
        "wo_client (read_one w) = recover WEof (wo_client w)"
        using recover_closed [of WEof "wo_client w"] by (auto simp: offers_def read_one_def)
      with tracks_cong [OF tracks_send [OF tr] recover_stop] show ?thesis by simp
    next
      case False
      with Nil have "read_one w = w" by (intro read_one_exhausted) auto
      with tr show ?thesis by simp
    qed
  qed
  with ok show ?thesis by (simp add: waiting_for_def read_one_ok)
qed

lemma waiting_client:
  "waiting_for t w \<Longrightarrow> client_ok c \<Longrightarrow> quiet_call (wo_client w) c \<Longrightarrow> waiting_for t (w\<lparr>wo_client := c\<rparr>)"
proof -
  assume w: "waiting_for t w" and c: "client_ok c" "quiet_call (wo_client w) c"
  then have "offers (w\<lparr>wo_client := c\<rparr>) = offers w" by (simp add: offers_def quiet_call_def)
  moreover have "same_stop c (wo_client w)" using c(2) by (simp add: quiet_call_def same_stop_def)
  moreover have "world_ok (w\<lparr>wo_client := c\<rparr>)"
    using w c by (auto simp: waiting_for_def world_ok_def quiet_call_def)
  ultimately show ?thesis using w tracks_cong by (auto simp: waiting_for_def)
qed

lemma waiting_lag: "waiting_for t w \<Longrightarrow> waiting_for t (w\<lparr>wo_lag := l\<rparr>)"
  by (simp add: waiting_for_def world_ok_def offers_def)

lemma waiting_ok: "waiting_for t w \<Longrightarrow> world_ok w"
  by (simp add: waiting_for_def)

lemma waiting_emit: "waiting_for t w \<Longrightarrow> waiting_for t (snd (emit peer st r w))"
  by (simp add: waiting_for_def emit_ok offers_def emit_fields)

interpretation registered: world_invariant "waiting_for t" peer "\<lambda>_. True" for t peer
  by unfold_locales
    (rule waiting_ok waiting_read waiting_lag waiting_client waiting_emit; assumption)+

lemma register_waiting:
  assumes "not_running peer w" "register_if True lb w = Some (x, w')" "lb_transport lb = dap_transport sj peer"
  shows "\<exists>t. x = Some t \<and> waiting_for t w'"
proof -
  let ?w = "tick w"
  have nr: "not_running peer ?w" using before_done.I_tick assms(1) .
  obtain t c where r: "stop_register (wo_client ?w) = (t, c)" by (metis prod.exhaust)
  with assms(2,3) have x: "x = Some t" "w' = ?w\<lparr>wo_client := c\<rparr>"
    by (auto simp: register_if_def dap_transport_def world_stop_register_def Let_def)
  have c: "client_ok c" "cl_closed c = cl_closed (wo_client ?w)"
    using r client_ok_ops(2) [of "wo_client ?w"] nr
    by (auto simp: not_running_def world_ok_def stop_register_def Let_def)
  have "tracks t [] c"
    using r by (auto simp: tracks_def stop_register_def Let_def nth_append)
  moreover have "offers w' = offers ?w" using c by (simp add: x offers_def)
  moreover have "world_ok w'"
    using nr c by (auto simp: x not_running_def world_ok_def)
  ultimately show ?thesis using x not_running_offers [OF nr] by (simp add: waiting_for_def)
qed

text \<open>What the awaited waiter reports, read off the messages.\<close>

lemma stop_await_outcome:
  assumes "waiting_for t w" "world_stop_await t w = Some (oo, w')"
  shows "oo = Some (hd (concat (map stop_event (emitted w')) @ [Terminated]))"
proof -
  from assms(2) obtain v where v: "wait_until (\<lambda>c. poll_stop t c \<noteq> None) (tick w) = Some v" "w' = v"
    "oo = (case cl_stops (wo_client v) ! t of Delivered r \<Rightarrow> Some r | _ \<Rightarrow> None)"
    by (auto simp: world_stop_await_def)
  have wf: "waiting_for t v" using registered.I_wait [OF registered.I_tick [OF assms(1)] v(1)] .
  have "poll_stop t (wo_client v) \<noteq> None"
    using wait_steps_Some v(1) unfolding wait_until_def by blast
  then have "offers v \<noteq> []" "cl_stops (wo_client v) ! t = Delivered (hd (offers v))"
    using wf by (auto simp: waiting_for_def tracks_def poll_stop_def split: list.splits cell.splits)
  moreover from this wf have "hd (offers v) = hd (concat (map stop_event (emitted v)) @ [Terminated])"
    by (cases "concat (map stop_event (wo_seen v))")
      (auto simp: offers_def emitted_def waiting_for_def world_ok_def split: if_splits)
  ultimately show ?thesis using v(2,3) by simp
qed

section \<open>Launch never misses its stop\<close>

lemma commands [simp]:
  "rq_command req_initialize = ''initialize''" "rq_command (launch_request_of spec) = ''launch''"
  "rq_command (req_set_breakpoints f b) = ''setBreakpoints''"
  "rq_command (req_set_function_breakpoints g) = ''setFunctionBreakpoints''"
  "rq_command req_set_exception_breakpoints = ''setExceptionBreakpoints''"
  "rq_command (attach_request_of aspec) = ''attach''"
  by (simp_all add: req_initialize_def launch_request_of_def req_launch_def req_set_breakpoints_def
      req_set_function_breakpoints_def req_set_exception_breakpoints_def attach_request_of_def
      req_attach_def request_new_def)

text \<open>The part of the launch up to the registration keeps the debuggee from running.\<close>

definition launch_prelude :: "'t lldb_backend \<Rightarrow> launch_spec \<Rightarrow> ('t, backend_error + nat) proc" where
  "launch_prelude lb spec =
     try_then (be_initialize lb) (\<lambda>_.
     try_then (with_err (\<lambda>e. Dap (''launch request failed: '' @ show_backend_error e))
                 (tr_send_async (lb_transport lb) (launch_request_of spec))) (\<lambda>launch_rx.
     seq (tr_wait_initialized (lb_transport lb)) (\<lambda>_.
     try_then (flush_source_breakpoints lb (ls_source_breakpoints spec)) (\<lambda>_.
     try_then (flush_function_breakpoints lb (ls_function_breakpoints spec)) (\<lambda>_.
     try_then (send_unchecked lb ''setExceptionBreakpoints'' req_set_exception_breakpoints) (\<lambda>_.
       ret (Inr launch_rx)))))))"

lemma run_launch_split:
  "run_launch lb spec =
     try_then (launch_prelude lb spec) (\<lambda>launch_rx.
     seq (register_if (ls_stop_on_entry spec) lb) (\<lambda>waiter.
     try_then (send_unchecked lb ''configurationDone'' req_configuration_done) (\<lambda>_.
       launch_finish lb launch_rx waiter)))"
  by (simp add: run_launch_def launch_prelude_def try_try try_seq try_ret)

lemma prelude_not_running:
  assumes "lb_transport lb = dap_transport sj peer"
  shows "before_done.keeps peer (launch_prelude lb spec)"
  unfolding launch_prelude_def
  by (intro before_done.keeps_try before_done.keeps_seq before_done.keeps_with_err before_done.keeps_ret
      before_done.keeps_initialize [OF assms] before_done.keeps_flush_source [OF assms]
      before_done.keeps_flush_function [OF assms] before_done.keeps_unchecked [OF assms])
    (simp_all add: assms dap_transport_def before_done.keeps_send_async before_done.keeps_wait_initialized)

lemma launch_stop_outcome:
  fixes peer :: "'p peer"
  assumes tr: "lb_transport lb = dap_transport sj peer" and nr: "not_running peer w"
    and soe: "ls_stop_on_entry spec" and run: "run_launch lb spec w = Some (Inr out, w')"
  shows "out = launch_outcome_of (Some (hd (concat (map stop_event (emitted w')) @ [Terminated])))"
proof -
  let ?Q = "\<lambda>r (w' :: 'p world). \<forall>out. r = Inr out \<longrightarrow>
    out = launch_outcome_of (Some (hd (concat (map stop_event (emitted w')) @ [Terminated])))"
  have finish: "post (launch_finish lb rx (Some t)) v ?Q" if "waiting_for t v" for rx t and v :: "'p world"
    unfolding launch_finish_def
  proof (intro post_try post_mono [OF iffD1 [OF registered.keeps_def, rule_format, OF registered.keeps_deferred [OF tr] that]])
    fix r and v' :: "'p world" assume v: "waiting_for t v'"
    show "case r of Inl e \<Rightarrow> ?Q (Inl e) v'
      | Inr x \<Rightarrow> post (case Some t of None \<Rightarrow> ret (Inr LRunning)
          | Some rx \<Rightarrow> seq (tr_stop_await (lb_transport lb) rx) (\<lambda>oo. ret (Inr (launch_outcome_of oo)))) v' ?Q"
      using stop_await_outcome [OF v]
      by (cases r) (auto simp: tr dap_transport_def post_def seq_def ret_def split: option.splits)
  qed
  have conf_done: "post (try_then (send_unchecked lb ''configurationDone'' req_configuration_done)
      (\<lambda>_. launch_finish lb rx (Some t))) v ?Q" if "waiting_for t v" for rx t and v :: "'p world"
    by (intro post_try post_mono [OF iffD1 [OF registered.keeps_def, rule_format, OF registered.keeps_unchecked [OF tr TrueI] that]])
      (auto simp: finish split: sum.split)
  have "post (run_launch lb spec) w ?Q"
    unfolding run_launch_split
  proof (intro post_try post_mono [OF iffD1 [OF before_done.keeps_def, rule_format, OF prelude_not_running [OF tr] nr]])
    fix r and v :: "'p world" assume v: "not_running peer v"
    show "case r of Inl e \<Rightarrow> ?Q (Inl e) v
      | Inr rx \<Rightarrow> post (seq (register_if (ls_stop_on_entry spec) lb) (\<lambda>waiter.
          try_then (send_unchecked lb ''configurationDone'' req_configuration_done)
            (\<lambda>_. launch_finish lb rx waiter))) v ?Q"
    proof (cases r)
      case (Inr rx)
      have "post (register_if True lb) v (\<lambda>x v'. \<exists>t. x = Some t \<and> waiting_for t v')"
        using register_waiting [OF v _ tr] by (simp add: post_def)
      then have "post (seq (register_if True lb) (\<lambda>waiter.
          try_then (send_unchecked lb ''configurationDone'' req_configuration_done)
            (\<lambda>_. launch_finish lb rx waiter))) v ?Q"
        by (intro post_seq) (auto elim!: post_mono intro: conf_done)
      with Inr soe show ?thesis by simp
    qed simp
  qed
  from postD [OF this run] show ?thesis by simp
qed

text \<open>
  C5. Against any debugger that does not run its debuggee before configurationDone, and under any
  schedule of the read loop, a launch with stop_on_entry that returns an outcome returns the
  first stop, exit or termination the debugger has emitted (termination when it emitted none and
  the stream ended): it is never missed and never overtaken by a later one.
\<close>

theorem launch_stop_not_lost:
  assumes "waits_for_done peer" "ls_stop_on_entry spec"
    and "run_launch (lldb_over sj b64 peer d) spec (world_new p lag) = Some (Inr out, w')"
  shows "out = launch_outcome_of (Some (hd (concat (map stop_event (wo_seen w' @ wo_queue w')) @ [Terminated])))"
  using launch_stop_outcome [OF lldb_over_transport not_running_new [OF assms(1)] assms(2,3)]
  by (simp add: emitted_def)

lemma friendly_waits: "waits_for_done friendly"
  by (simp add: waits_for_done_def friendly_def ok_response_def)

definition sample_lag :: "nat list" where
  "sample_lag = [0, 3, 1, 0, 2]"

lemma friendly_launch:
  "map_option fst (run_launch (sample_backend friendly) sample_spec (world_new () sample_lag)) =
     Some (Inr (LStopped (stop_info_from_event entry_stop)))"
  by code_simp

theorem launch_stop_not_lost_witness:
  "\<exists>w'. run_launch (sample_backend friendly) sample_spec (world_new () sample_lag) =
      Some (Inr (LStopped (stop_info_from_event entry_stop)), w') \<and>
    LStopped (stop_info_from_event entry_stop) =
      launch_outcome_of (Some (hd (concat (map stop_event (wo_seen w' @ wo_queue w')) @ [Terminated])))"
proof -
  obtain w' where r: "run_launch (sample_backend friendly) sample_spec (world_new () sample_lag) =
      Some (Inr (LStopped (stop_info_from_event entry_stop)), w')"
    using friendly_launch by (cases "run_launch (sample_backend friendly) sample_spec (world_new () sample_lag)") auto
  have "ls_stop_on_entry sample_spec" by (simp add: sample_spec_def)
  from launch_stop_not_lost [OF friendly_waits this r [unfolded sample_backend_def]] r show ?thesis by blast
qed

section \<open>Without the initialized event\<close>

definition never_initialized :: "'p peer \<Rightarrow> bool" where
  "never_initialized peer \<longleftrightarrow>
     (\<forall>r p. case fst (peer r p) of WriteFails _ \<Rightarrow> True | Emits ms _ \<Rightarrow> MEvent EvInitialized \<notin> set ms)"

definition uninitialized :: "'p world \<Rightarrow> bool" where
  "uninitialized w \<longleftrightarrow> MEvent EvInitialized \<notin> set (wo_queue w) \<and> \<not> cl_fired (wo_client w)"

lemma dispatch_inits:
  "m \<noteq> MEvent EvInitialized \<Longrightarrow>
     cl_fired (dispatch_message m c) = cl_fired c \<and> cl_inits (dispatch_message m c) = cl_inits c"
proof (cases m)
  case (MResponse r)
  then show ?thesis using remove_pending_same(3) by simp
next
  case (MEvent e)
  assume "m \<noteq> MEvent EvInitialized"
  with MEvent show ?thesis
    by (cases e) (simp_all add: stop_deliver_def stop_deliver_exit_def stop_cancel_def stop_send_def
        record_exit_def fire_terminated_def send_output_def split: option.split)
qed simp

lemma recover_inits: "cl_fired (recover e c) = cl_fired c \<and> cl_inits (recover e c) = cl_inits c"
  by (simp add: recover_def close_once_def cancel_all_pending_def stop_cancel_def stop_send_def
      fire_terminated_def Let_def split: option.split)

lemma read_one_inits:
  "uninitialized w \<Longrightarrow> uninitialized (read_one w) \<and> cl_inits (wo_client (read_one w)) = cl_inits (wo_client w)"
proof (cases "wo_queue w")
  case (Cons m q)
  assume "uninitialized w"
  with Cons dispatch_inits [of m "wo_client w"] show ?thesis
    by (auto simp: uninitialized_def read_one_def)
qed (auto simp: uninitialized_def read_one_def recover_inits)

lemma reads_inits:
  "uninitialized w \<Longrightarrow> uninitialized ((read_one ^^ n) w) \<and> cl_inits (wo_client ((read_one ^^ n) w)) = cl_inits (wo_client w)"
  by (induction n) (use read_one_inits in auto)

lemma tick_uninitialized: "uninitialized w \<Longrightarrow> uninitialized (tick w)"
proof -
  assume w: "uninitialized w"
  have lag: "uninitialized (w\<lparr>wo_lag := l\<rparr>)" for l using w by (simp add: uninitialized_def)
  show ?thesis using w reads_inits [OF lag] by (auto simp: tick_def split: list.split)
qed

lemma wait_uninitialized: "uninitialized w \<Longrightarrow> wait_until P w = Some w' \<Longrightarrow> uninitialized w'"
  using wait_steps_Some reads_inits unfolding wait_until_def by metis

lemma send_uninitialized:
  assumes n: "never_initialized peer" and w: "uninitialized w" and s: "world_send_async sj peer r w = (x, w')"
  shows "uninitialized w'"
proof -
  let ?w = "tick w"
  obtain t sq st c where st: "send_start r (wo_client ?w) = ((t, sq, st), c)" by (metis prod.exhaust)
  obtain a p where p: "peer st (wo_peer ?w) = (a, p)" by (metis prod.exhaust)
  from n have "case fst (peer st (wo_peer ?w)) of WriteFails _ \<Rightarrow> True | Emits ms _ \<Rightarrow> MEvent EvInitialized \<notin> set ms"
    unfolding never_initialized_def by blast
  with p have a: "case a of WriteFails _ \<Rightarrow> True | Emits ms _ \<Rightarrow> MEvent EvInitialized \<notin> set ms" by simp
  have c: "cl_fired c = cl_fired (wo_client ?w)"
    using st remove_pending_same(5) [where c = "wo_client ?w" and r = r] by simp
  show ?thesis
    using s st p a c tick_uninitialized [OF w] remove_pending_same(2)
    by (auto simp: world_send_async_def Let_def emit_def send_written_def uninitialized_def
        split: reaction.splits if_splits)
qed

lemma await_uninitialized: "uninitialized w \<Longrightarrow> world_await t w = Some (x, w') \<Longrightarrow> uninitialized w'"
  unfolding world_await_def using wait_uninitialized [OF tick_uninitialized] by fastforce

lemma wait_hangs: "uninitialized w \<Longrightarrow> world_wait_initialized w = None"
proof -
  assume w: "uninitialized w"
  let ?w = "tick w"
  let ?t = "length (cl_inits (wo_client ?w))"
  have tw: "uninitialized ?w" using w by (rule tick_uninitialized)
  obtain c where wi: "wait_initialized (wo_client ?w) = (Some ?t, c)" and u: "uninitialized (?w\<lparr>wo_client := c\<rparr>)"
    and t: "cl_inits c ! ?t = Waiting"
    using tw by (auto simp: uninitialized_def wait_initialized_def Let_def nth_append)
  have "wait_until (init_done (Some ?t)) (?w\<lparr>wo_client := c\<rparr>) = None"
    using reads_inits [OF u] t by (simp add: wait_until_complete init_done_def)
  with wi show ?thesis by (simp add: world_wait_initialized_def Let_def)
qed

lemma initialize_uninitialized:
  assumes "never_initialized peer" "lb_transport lb = dap_transport sj peer"
  shows "uninitialized w \<Longrightarrow> post (be_initialize lb) w (\<lambda>_ w'. uninitialized w')"
proof -
  assume w: "uninitialized w"
  have "post (world_send sj peer req_initialize) w (\<lambda>_ w'. uninitialized w')"
    by (auto simp: post_def world_send_def split: prod.splits sum.splits
        intro: send_uninitialized [OF assms(1) w] await_uninitialized)
  then show ?thesis
    unfolding be_initialize_def assms(2)
    by (intro post_try post_with_err)
      (auto simp: dap_transport_def check_response_def elim!: post_mono
        intro!: post_try post_check post_ret split: sum.split)
qed

text \<open>What a start returns when it stops at initialize or at writing its request, and only then.\<close>

definition before_initialized ::
  "(json_error \<Rightarrow> string) \<Rightarrow> 'p peer \<Rightarrow> 'p world lldb_backend \<Rightarrow> string \<Rightarrow> request \<Rightarrow> 'p world \<Rightarrow>
     ((backend_error + 'o) \<times> 'p world) option" where
  "before_initialized sj peer lb verb request w =
     (case be_initialize lb w of
        None \<Rightarrow> None
      | Some (Inl e, w1) \<Rightarrow> Some (Inl e, w1)
      | Some (Inr _, w1) \<Rightarrow>
          (case world_send_async sj peer request w1 of
             (Inl e, w2) \<Rightarrow> Some (Inl (Dap (verb @ '' request failed: '' @ show_backend_error e)), w2)
           | (Inr _, _) \<Rightarrow> None))"

lemma hangs_after_request:
  assumes n: "never_initialized peer" and lb: "lb_transport lb = dap_transport sj peer" and w: "uninitialized w"
  shows "try_then (be_initialize lb) (\<lambda>_.
      try_then (with_err (\<lambda>e. Dap (verb @ '' request failed: '' @ show_backend_error e))
        (tr_send_async (lb_transport lb) request)) (\<lambda>rx.
      seq (tr_wait_initialized (lb_transport lb)) (f rx))) w = before_initialized sj peer lb verb request w"
proof (cases "be_initialize lb w")
  case None
  then show ?thesis by (simp add: try_then_def seq_def before_initialized_def)
next
  case (Some rw)
  obtain r w1 where i: "be_initialize lb w = Some (r, w1)" using Some by (cases rw) simp
  have w1: "uninitialized w1" using initialize_uninitialized [OF n lb w] i by (simp add: post_def)
  obtain x w2 where x: "world_send_async sj peer request w1 = (x, w2)" by fastforce
  have "world_wait_initialized w2 = None" using wait_hangs [OF send_uninitialized [OF n w1 x]] .
  with i x show ?thesis
    by (cases r; cases x)
      (simp_all add: try_then_def seq_def ret_def with_err_def before_initialized_def lb dap_transport_def)
qed

text \<open>
  C34. If the debugger never sends the initialized event, a launch or attach whose request was
  written never returns: not when the debugger accepts it, not when it refuses it, not when its stream
  ends. It returns in two cases only: initialize has failed, or the request could not be written.
\<close>

theorem no_initialized_no_return:
  assumes "never_initialized peer"
  shows "run_launch (lldb_over sj b64 peer d) spec (world_new p lag) =
      before_initialized sj peer (lldb_over sj b64 peer d) ''launch'' (launch_request_of spec) (world_new p lag) \<and>
    run_attach (lldb_over sj b64 peer d) aspec (world_new p lag) =
      before_initialized sj peer (lldb_over sj b64 peer d) ''attach'' (attach_request_of aspec) (world_new p lag)"
proof -
  have u: "uninitialized (world_new p lag)" by (simp add: uninitialized_def world_new_def client_new_def)
  note h = hangs_after_request [OF assms lldb_over_transport u]
  have "''launch request failed: '' = ''launch'' @ '' request failed: ''" "''attach request failed: '' = ''attach'' @ '' request failed: ''"
    by simp_all
  then show ?thesis unfolding run_launch_def run_attach_def append_assoc [symmetric] by (simp only: h append_assoc)
qed

text \<open>A debugger that refuses the launch and then closes its stream.\<close>

definition refusing :: "unit peer" where
  "refusing r p =
     (if rq_command r = ''launch'' then
        (Emits [MResponse \<lparr>re_seq = 0, re_ty = ''response'', re_request_seq = rq_seq r, re_success = False,
                  re_command = ''launch'', re_message = ''no such file'', re_body = None\<rparr>] True, p)
      else (Emits [ok_response (rq_seq r) (rq_command r)] False, p))"

theorem no_initialized_no_return_witness:
  "run_launch (sample_backend refusing) sample_spec (world_new () sample_lag) = None \<and>
   run_attach (sample_backend refusing) sample_attach (world_new () sample_lag) = None \<and>
   map_option fst (run_launch (sample_backend no_resume) sample_spec (world_new () [])) =
     Some (Inl (Dap ''initialize failed: invalid thread''))"
proof -
  have n: "never_initialized refusing" "never_initialized no_resume"
    by (simp_all add: never_initialized_def refusing_def no_resume_def ok_response_def)
  have "(before_initialized (\<lambda>_. []) refusing (sample_backend refusing) ''launch'' (launch_request_of sample_spec)
      (world_new () sample_lag) :: ((backend_error + launch_outcome) \<times> unit world) option) = None"
    "(before_initialized (\<lambda>_. []) refusing (sample_backend refusing) ''attach'' (attach_request_of sample_attach)
      (world_new () sample_lag) :: ((backend_error + attach_outcome) \<times> unit world) option) = None"
    "map_option fst (before_initialized (\<lambda>_. []) no_resume (sample_backend no_resume) ''launch''
      (launch_request_of sample_spec) (world_new () []) :: ((backend_error + launch_outcome) \<times> unit world) option) =
     Some (Inl (Dap ''initialize failed: invalid thread''))"
    by code_simp+
  then show ?thesis
    unfolding sample_backend_def
    by (simp only: no_initialized_no_return [OF n(1)] no_initialized_no_return [OF n(2)])
qed

section \<open>A resume without a stop\<close>

text \<open>A debugger whose program never stops or ends, such as one that refuses every resume.\<close>

definition never_stops :: "'p peer \<Rightarrow> bool" where
  "never_stops peer \<longleftrightarrow>
     (\<forall>r p. case fst (peer r p) of WriteFails _ \<Rightarrow> True | Emits ms closes \<Rightarrow> concat (map stop_event ms) = [] \<and> \<not> closes)"

text \<open>No stop is on its way.\<close>

definition no_stop_coming :: "'p peer \<Rightarrow> 'p world \<Rightarrow> bool" where
  "no_stop_coming peer w \<longleftrightarrow>
     never_stops peer \<and> world_ok w \<and> \<not> wo_eof w \<and> concat (map stop_event (wo_queue w)) = []"

definition waiting_in_vain :: "'p peer \<Rightarrow> nat \<Rightarrow> 'p world \<Rightarrow> bool" where
  "waiting_in_vain peer t w \<longleftrightarrow> no_stop_coming peer w \<and> tracks t [] (wo_client w)"

lemma no_stop_read:
  assumes "no_stop_coming peer w"
  shows "no_stop_coming peer (read_one w) \<and> same_stop (wo_client (read_one w)) (wo_client w)"
proof (cases "wo_queue w")
  case Nil
  with assms have "read_one w = w" by (intro read_one_exhausted) (simp_all add: no_stop_coming_def)
  with assms show ?thesis by (simp add: same_stop_def)
next
  case (Cons m q)
  with assms dispatch_message_stop [of m "wo_client w"] read_one_ok [of w] show ?thesis
    by (simp add: no_stop_coming_def read_one_emitted) (simp add: read_one_def)
qed

lemma no_stop_emit: "no_stop_coming peer w \<Longrightarrow> no_stop_coming peer (snd (emit peer st r w))"
proof -
  assume w: "no_stop_coming peer w"
  obtain a p where p: "peer st (wo_peer w) = (a, p)" by fastforce
  from w have "case fst (peer st (wo_peer w)) of WriteFails _ \<Rightarrow> True | Emits ms closes \<Rightarrow> concat (map stop_event ms) = [] \<and> \<not> closes"
    unfolding no_stop_coming_def never_stops_def by blast
  with w p emit_ok [of w peer st r] show ?thesis
    by (cases a) (auto simp: no_stop_coming_def emit_def)
qed

lemma no_stop_client:
  "no_stop_coming peer w \<Longrightarrow> client_ok c \<Longrightarrow> cl_closed c = cl_closed (wo_client w) \<Longrightarrow> no_stop_coming peer (w\<lparr>wo_client := c\<rparr>)"
  by (auto simp: no_stop_coming_def world_ok_def)

lemma no_stop_lag: "no_stop_coming peer w \<Longrightarrow> no_stop_coming peer (w\<lparr>wo_lag := l\<rparr>)"
  by (auto simp: no_stop_coming_def world_ok_def)

lemma no_stop_ok: "no_stop_coming peer w \<Longrightarrow> world_ok w"
  by (simp add: no_stop_coming_def)

interpretation unstopped: world_invariant "no_stop_coming peer" peer "\<lambda>_. True" for peer
  by unfold_locales
    (simp_all add: no_stop_ok no_stop_read no_stop_lag no_stop_emit no_stop_client quiet_call_def)

lemma in_vain_client:
  "waiting_in_vain peer t w \<Longrightarrow> client_ok c \<Longrightarrow> quiet_call (wo_client w) c \<Longrightarrow>
     waiting_in_vain peer t (w\<lparr>wo_client := c\<rparr>)"
  by (simp add: waiting_in_vain_def no_stop_client quiet_call_def tracks_def)

interpretation in_vain: world_invariant "waiting_in_vain peer t" peer "\<lambda>_. True" for peer t
proof unfold_locales
  fix w :: "'a world" and c l r sq assume w: "waiting_in_vain peer t w"
  show "world_ok w" using w by (auto simp: waiting_in_vain_def intro: no_stop_ok)
  show "waiting_in_vain peer t (read_one w)"
    using w no_stop_read [of peer w] tracks_cong [of t "[]" "wo_client w"] by (simp add: waiting_in_vain_def)
  show "waiting_in_vain peer t (w\<lparr>wo_lag := l\<rparr>)" using w by (simp add: waiting_in_vain_def no_stop_lag)
  show "waiting_in_vain peer t (snd (emit peer (set_seq sq r) r w))"
    using w by (simp add: waiting_in_vain_def no_stop_emit emit_fields)
qed (rule in_vain_client)

lemma register_in_vain:
  assumes "lb_transport lb = dap_transport sj peer" "no_stop_coming peer w"
  shows "post (register_if True lb) w (\<lambda>x w'. \<exists>t. x = Some t \<and> waiting_in_vain peer t w')"
proof -
  obtain t c where r: "stop_register (wo_client (tick w)) = (t, c)" by fastforce
  have w: "no_stop_coming peer (tick w)" using assms(2) by (rule unstopped.I_tick)
  have "client_ok c" "cl_closed c = cl_closed (wo_client (tick w))" "tracks t [] c"
    using r client_ok_ops(2) [OF unstopped.I_client_ok [OF w]]
    by (auto simp: stop_register_def Let_def tracks_def nth_append)
  then have "waiting_in_vain peer t ((tick w)\<lparr>wo_client := c\<rparr>)"
    using no_stop_client [OF w] by (simp add: waiting_in_vain_def)
  with r assms(1) show ?thesis
    by (simp add: post_def register_if_def dap_transport_def world_stop_register_def Let_def)
qed

lemma await_in_vain: "waiting_in_vain peer t w \<Longrightarrow> world_stop_await t w = None"
proof -
  assume w: "waiting_in_vain peer t w"
  have "poll_stop t (wo_client ((read_one ^^ k) (tick w))) = None" for k
    using in_vain.I_reads [OF in_vain.I_tick [OF w], of k] by (simp add: waiting_in_vain_def tracks_def poll_stop_def)
  then have "wait_until (\<lambda>c. poll_stop t c \<noteq> None) (tick w) = None" by (simp add: wait_until_complete)
  then show ?thesis by (simp add: world_stop_await_def)
qed

text \<open>
  C35. While the program does not stop or end, a resume reports nothing. In particular a continue or step
  that the debugger refuses does not report the refusal: its response is not looked at, and the wait
  for a stop goes on. Only a request that could not be sent is reported. Every other operation
  reports a refusal.
\<close>

theorem refused_resume_waits:
  assumes "no_stop_coming peer w"
    and "be_cont (lldb_over sj b64 peer d) tid w = Some (r, w') \<or>
      be_step (lldb_over sj b64 peer d) kind tid gran w = Some (r, w')"
  shows "\<exists>e. r = Inl (Send e)"
proof -
  let ?lb = "lldb_over sj b64 peer d"
  have err: "\<exists>e. y = g e" if "map_err g q = Inl y" for g y and q :: "backend_error + dap_message"
    using that by (cases q) auto
  have "post (resume_and_wait ?lb req) w (\<lambda>r _. \<exists>e. r = Inl (Send e))" for req
    unfolding resume_and_wait_def
  proof (intro post_seq post_mono [OF register_in_vain [OF lldb_over_transport assms(1)]], elim exE conjE)
    fix x t v assume x: "x = Some t" and v: "waiting_in_vain peer t v"
    have "post (tr_send (lb_transport ?lb) req) v (\<lambda>_. waiting_in_vain peer t)"
      using in_vain.keeps_send [OF TrueI, of peer t sj req] v by (auto simp: in_vain.keeps_def dap_transport_def)
    then show "post (try_then (with_err (\<lambda>e. Send (show_backend_error e)) (tr_send (lb_transport ?lb) req)) (\<lambda>_.
        seq (tr_stop_await (lb_transport ?lb) (the x)) (\<lambda>oo.
          ret (Inr (case oo of Some outcome \<Rightarrow> outcome | None \<Rightarrow> Terminated))))) v (\<lambda>r _. \<exists>e. r = Inl (Send e))"
      by (intro post_try post_with_err, elim post_mono)
        (auto simp: x dap_transport_def post_def seq_def await_in_vain dest: err split: sum.split)
  qed
  with assms(2) show ?thesis unfolding be_cont_def be_step_def post_def by blast
qed

text \<open>
  A continue that is refused does not return, a pause that is refused does; and a continue that cannot
  be sent.
\<close>

definition deaf :: "unit peer" where
  "deaf r p = (WriteFails WEof, p)"

lemma deaf_quiet: "no_stop_coming deaf (world_new () [])"
  by (simp add: no_stop_coming_def never_stops_def deaf_def world_new_def world_ok_def client_ok_new)
    (simp add: client_new_def)

lemma deaf_returns: "map_option (\<lambda>_. ()) (be_cont (sample_backend deaf) 1 (world_new () [])) = Some ()"
  by code_simp

theorem refused_resume_waits_witness:
  "be_cont (sample_backend no_resume) 1 (world_new () []) = None \<and>
   map_option fst (be_pause (sample_backend no_resume) (world_new () [])) =
     Some (Inl (Dap ''pause failed: invalid thread'')) \<and>
   (\<exists>e w'. be_cont (sample_backend deaf) 1 (world_new () []) = Some (Inl (Send e), w'))"
proof (intro conjI)
  obtain r w' where "be_cont (sample_backend deaf) 1 (world_new () []) = Some (r, w')" using deaf_returns by auto
  with refused_resume_waits [OF deaf_quiet] show "\<exists>e w'. be_cont (sample_backend deaf) 1 (world_new () []) = Some (Inl (Send e), w')"
    unfolding sample_backend_def by blast
qed (code_simp+)

end
