(* ===== verification/Lldb_Progress.thy ===== *)
theory Lldb_Progress
  imports Lldb_Handshake
begin

text \<open>
  Progress: against a debugger that answers, the backend's computations return, under every schedule
  of the read loop. \<open>brings\<close> is total correctness: a computation returns, and its result satisfies the
  condition.
\<close>

section \<open>Computations that return\<close>

definition brings :: "('t, 'a) proc \<Rightarrow> 't \<Rightarrow> ('a \<Rightarrow> 't \<Rightarrow> bool) \<Rightarrow> bool" where
  "brings p t Q \<longleftrightarrow> (\<exists>x t'. p t = Some (x, t') \<and> Q x t')"

lemma bringsI: "p t = Some (x, t') \<Longrightarrow> Q x t' \<Longrightarrow> brings p t Q"
  by (auto simp: brings_def)

lemma brings_mono: "brings p t Q \<Longrightarrow> (\<And>x t'. Q x t' \<Longrightarrow> R x t') \<Longrightarrow> brings p t R"
  by (auto simp: brings_def)

lemma brings_post: "brings p t Q \<Longrightarrow> post p t R \<Longrightarrow> brings p t (\<lambda>x t'. Q x t' \<and> R x t')"
  by (auto simp: brings_def post_def)

lemma brings_ret: "Q x t \<Longrightarrow> brings (ret x) t Q"
  by (simp add: brings_def ret_def)

lemma brings_seq: "brings p t (\<lambda>x t'. brings (f x) t' Q) \<Longrightarrow> brings (seq p f) t Q"
  by (fastforce simp: brings_def seq_def)

text \<open>For computations that may fail: they return a value.\<close>

definition gives :: "('t, 'e + 'a) proc \<Rightarrow> 't \<Rightarrow> ('a \<Rightarrow> 't \<Rightarrow> bool) \<Rightarrow> bool" where
  "gives p t Q \<longleftrightarrow> brings p t (\<lambda>r t'. \<exists>x. r = Inr x \<and> Q x t')"

lemma gives_mono: "gives p t Q \<Longrightarrow> (\<And>x t'. Q x t' \<Longrightarrow> R x t') \<Longrightarrow> gives p t R"
  unfolding gives_def by (blast intro: brings_mono)

lemma gives_ret: "Q x t \<Longrightarrow> gives (ret (Inr x)) t Q"
  unfolding gives_def by (blast intro: brings_ret)

lemma gives_seq: "brings p t (\<lambda>x t'. gives (f x) t' Q) \<Longrightarrow> gives (seq p f) t Q"
  unfolding gives_def by (rule brings_seq)

lemma gives_try: "gives p t (\<lambda>x t'. gives (f x) t' Q) \<Longrightarrow> gives (try_then p f) t Q"
  unfolding gives_def try_then_def by (rule brings_seq, erule brings_mono) auto

lemma gives_with_err: "gives p t Q \<Longrightarrow> gives (with_err g p) t Q"
  unfolding gives_def with_err_def by (rule brings_seq, erule brings_mono) (auto intro: brings_ret)

lemma gives_check: "f t = Inr x \<Longrightarrow> Q x t \<Longrightarrow> gives (check_with f) t Q"
  by (simp add: gives_def brings_def check_with_def)

lemma gives_post: "gives p t Q \<Longrightarrow> post p t (\<lambda>_. I) \<Longrightarrow> gives p t (\<lambda>x t'. Q x t' \<and> I t')"
  unfolding gives_def by (drule (1) brings_post) (auto elim: brings_mono)

section \<open>A debugger that answers\<close>

definition responded :: "i64 \<Rightarrow> dap_message list \<Rightarrow> bool" where
  "responded i ms \<longleftrightarrow> (\<exists>q. MResponse q \<in> set ms \<and> re_request_seq q = i)"

text \<open>
  Every request gets a response that accepts it and names its command. Only the response to launch may
  come later, until configurationDone: \<open>owes\<close> tells the number of the launch whose response is still
  owed. The initialized event comes with launch. The stream stays up.
\<close>

definition cooperative :: "'p peer \<Rightarrow> ('p \<Rightarrow> i64 option) \<Rightarrow> bool" where
  "cooperative peer owes \<longleftrightarrow>
     (\<forall>r p. \<exists>ms p'. peer r p = (Emits ms False, p') \<and>
        (\<forall>q. MResponse q \<in> set ms \<longrightarrow> re_success q \<and>
           (re_request_seq q = rq_seq r \<and> re_command q = rq_command r \<or>
            owes p = Some (re_request_seq q) \<and> re_command q = ''launch'')) \<and>
        (\<forall>i. i = rq_seq r \<or> owes p = Some i \<longrightarrow> responded i ms \<or> owes p' = Some i) \<and>
        (\<forall>i. owes p' = Some i \<longrightarrow> owes p = Some i \<or> rq_command r = ''launch'' \<and> i = rq_seq r) \<and>
        (rq_command r = ''configurationDone'' \<longrightarrow> owes p' = None) \<and>
        (rq_command r = ''launch'' \<longrightarrow> MEvent EvInitialized \<in> set ms))"

lemma cooperativeD:
  assumes "cooperative peer owes" "peer r p = (Emits ms closes, p')"
  shows "MResponse q \<in> set ms \<Longrightarrow> re_success q \<and> (re_request_seq q = rq_seq r \<and> re_command q = rq_command r \<or>
      owes p = Some (re_request_seq q) \<and> re_command q = ''launch'')"
    and "i = rq_seq r \<or> owes p = Some i \<Longrightarrow> responded i ms \<or> owes p' = Some i"
    and "owes p' = Some i \<Longrightarrow> owes p = Some i \<or> rq_command r = ''launch'' \<and> i = rq_seq r"
    and "rq_command r = ''configurationDone'' \<Longrightarrow> owes p' = None"
    and "rq_command r = ''launch'' \<Longrightarrow> MEvent EvInitialized \<in> set ms"
proof -
  from assms(1) obtain ns p2 where n: "peer r p = (Emits ns False, p2)"
    "(\<forall>q. MResponse q \<in> set ns \<longrightarrow> re_success q \<and> (re_request_seq q = rq_seq r \<and> re_command q = rq_command r \<or>
       owes p = Some (re_request_seq q) \<and> re_command q = ''launch'')) \<and>
     (\<forall>i. i = rq_seq r \<or> owes p = Some i \<longrightarrow> responded i ns \<or> owes p2 = Some i) \<and>
     (\<forall>i. owes p2 = Some i \<longrightarrow> owes p = Some i \<or> rq_command r = ''launch'' \<and> i = rq_seq r) \<and>
     (rq_command r = ''configurationDone'' \<longrightarrow> owes p2 = None) \<and>
     (rq_command r = ''launch'' \<longrightarrow> MEvent EvInitialized \<in> set ns)"
    unfolding cooperative_def by blast
  from n(1) assms(2) have "ns = ms" "p2 = p'" by simp_all
  note all = n(2) [unfolded this]
  show "MResponse q \<in> set ms \<Longrightarrow> re_success q \<and> (re_request_seq q = rq_seq r \<and> re_command q = rq_command r \<or>
      owes p = Some (re_request_seq q) \<and> re_command q = ''launch'')" using all by blast
  show "i = rq_seq r \<or> owes p = Some i \<Longrightarrow> responded i ms \<or> owes p' = Some i" using all by blast
  show "owes p' = Some i \<Longrightarrow> owes p = Some i \<or> rq_command r = ''launch'' \<and> i = rq_seq r" using all by blast
  show "rq_command r = ''configurationDone'' \<Longrightarrow> owes p' = None" using all by blast
  show "rq_command r = ''launch'' \<Longrightarrow> MEvent EvInitialized \<in> set ms" using all by blast
qed

text \<open>The program stops, or ends, once the configuration is done.\<close>

definition stops_when_done :: "'p peer \<Rightarrow> bool" where
  "stops_when_done peer \<longleftrightarrow>
     (\<forall>r p ms closes p'. rq_command r = ''configurationDone'' \<and> peer r p = (Emits ms closes, p') \<longrightarrow>
        (\<exists>m \<in> set ms. stop_event m \<noteq> []))"

section \<open>What a cooperating debugger keeps\<close>

abbreviation number :: "nat \<Rightarrow> i64" where
  "number t \<equiv> int t + 1"

text \<open>An accepting response to a request of the log.\<close>

definition proper :: "request list \<Rightarrow> response \<Rightarrow> bool" where
  "proper log q \<longleftrightarrow> (\<exists>t < length log. re_request_seq q = number t \<and> re_success q \<and> re_command q = rq_command (log ! t))"

definition cell_assured :: "('p \<Rightarrow> i64 option) \<Rightarrow> 'p world \<Rightarrow> nat \<Rightarrow> bool" where
  "cell_assured owes w t \<longleftrightarrow>
     (case cl_responses (wo_client w) ! t of
        Waiting \<Rightarrow> responded (number t) (wo_queue w) \<or> owes (wo_peer w) = Some (number t)
      | Delivered x \<Rightarrow> \<exists>q. x = Inr (MResponse q) \<and> re_request_seq q = number t \<and> proper (wo_log w) q
      | Abandoned \<Rightarrow> False)"

definition assured :: "('p \<Rightarrow> i64 option) \<Rightarrow> 'p world \<Rightarrow> bool" where
  "assured owes w \<longleftrightarrow>
     world_ok w \<and> \<not> wo_eof w \<and>
     length (cl_responses (wo_client w)) = length (wo_log w) \<and> length (wo_log w) < 2 ^ 63 \<and>
     (\<forall>q. MResponse q \<in> set (wo_queue w) \<longrightarrow> proper (wo_log w) q) \<and>
     (\<forall>t < length (wo_log w). cell_assured owes w t) \<and>
     (\<forall>i. owes (wo_peer w) = Some i \<longrightarrow> (\<exists>t < length (wo_log w). i = number t \<and> rq_command (wo_log w ! t) = ''launch'')) \<and>
     (MEvent EvInitialized \<in> set (wo_seen w) \<longrightarrow> cl_fired (wo_client w))"

lemma assured_new: "owes p = None \<Longrightarrow> assured owes (world_new p lag)"
  by (simp add: assured_def world_new_def world_ok_def client_ok_new) (simp add: client_new_def)

lemma assured_open: "assured owes w \<Longrightarrow> cl_closed (wo_client w) = None"
  by (auto simp: assured_def world_ok_def)

text \<open>While the numbers have room, cells are numbered from 1.\<close>

lemma cell_number:
  assumes "client_ok c" "t < length (cl_responses c)" "length (cl_responses c) < 2 ^ 63"
  shows "cl_made_for c ! t = number t"
proof -
  from assms have "cl_made_for c ! t = wrap_i64 (number t)" "int t + 1 < 2 ^ 63"
    by (auto simp: client_ok_def pending_ok_def seq_ok_def)
  then show ?thesis by (simp add: wrap_i64_id in_i64_def i64_min_def i64_max_def)
qed

lemma pending_number:
  assumes "client_ok c" "length (cl_responses c) < 2 ^ 63"
  shows "hm_get (cl_pending c) (number t) = Some u \<longleftrightarrow>
    u = t \<and> t < length (cl_responses c) \<and> cl_responses c ! t = Waiting"
proof
  assume p: "hm_get (cl_pending c) (number t) = Some u"
  from assms(1) have ok: "pending_ok c" by (simp add: client_ok_def)
  from pending_okD [OF ok p] cell_number [OF assms(1) _ assms(2), of u]
  show "u = t \<and> t < length (cl_responses c) \<and> cl_responses c ! t = Waiting" by auto
next
  assume t: "u = t \<and> t < length (cl_responses c) \<and> cl_responses c ! t = Waiting"
  from assms(1) have ok: "pending_ok c" by (simp add: client_ok_def)
  from pending_ok_waiting [OF ok, of t] t cell_number [OF assms(1) _ assms(2), of t]
  show "hm_get (cl_pending c) (number t) = Some u" by simp
qed

lemma dispatch_event_requests: "same_requests c (dispatch_event e c)"
  by (cases e) (simp_all add: stop_fields stop_deliver_def stop_deliver_exit_def stop_cancel_def)

lemma dispatch_message_fired:
  "cl_fired (dispatch_message m c) \<longleftrightarrow> cl_fired c \<or> m = MEvent EvInitialized"
  by (cases "m = MEvent EvInitialized")
    (simp_all add: dispatch_inits signal_initialized_def split: option.split)

lemma responded_Nil [simp]: "\<not> responded i []"
  by (simp add: responded_def)

lemma responded_Cons: "responded i (m # ms) \<longleftrightarrow> (\<exists>q. m = MResponse q \<and> re_request_seq q = i) \<or> responded i ms"
  by (auto simp: responded_def)

lemma responded_append: "responded i (ms @ ns) \<longleftrightarrow> responded i ms \<or> responded i ns"
  by (auto simp: responded_def)

lemma cell_assured_keep:
  assumes "cell_assured owes w t" "cl_responses (wo_client v) ! t = cl_responses (wo_client w) ! t"
    and "responded (number t) (wo_queue w) \<Longrightarrow> responded (number t) (wo_queue v)"
    and "owes (wo_peer w) = Some (number t) \<Longrightarrow> responded (number t) (wo_queue v) \<or> owes (wo_peer v) = Some (number t)"
    and "\<And>q. proper (wo_log w) q \<Longrightarrow> proper (wo_log v) q"
  shows "cell_assured owes v t"
proof (cases "cl_responses (wo_client w) ! t")
  case Waiting
  with assms show ?thesis by (auto simp: cell_assured_def)
next
  case (Delivered x)
  with assms(1) obtain q where "x = Inr (MResponse q)" "re_request_seq q = number t" "proper (wo_log w) q"
    by (auto simp: cell_assured_def)
  with Delivered assms(2,5) show ?thesis by (simp add: cell_assured_def)
next
  case Abandoned
  with assms(1) show ?thesis by (simp add: cell_assured_def)
qed

lemma assured_cell: "assured owes w \<Longrightarrow> t < length (wo_log w) \<Longrightarrow> cell_assured owes w t"
  by (simp add: assured_def)

lemma assured_read: "assured owes w \<Longrightarrow> assured owes (read_one w)"
proof (cases "wo_queue w")
  case Nil
  assume a: "assured owes w"
  with Nil show ?thesis by (simp add: read_one_def assured_def)
next
  case (Cons m q)
  assume a: "assured owes w"
  let ?c = "wo_client w" and ?w = "read_one w"
  from a have ok: "client_ok ?c" and len: "length (cl_responses ?c) = length (wo_log w)" "length (wo_log w) < 2 ^ 63"
    by (simp_all add: assured_def world_ok_def)
  have w: "?w = w\<lparr>wo_client := dispatch_message m ?c, wo_seen := wo_seen w @ [m], wo_queue := q\<rparr>"
    using Cons by (simp add: read_one_def)
  have rest: "wo_queue ?w = q" "wo_log ?w = wo_log w" "wo_peer ?w = wo_peer w" by (simp_all add: w)
  have cells: "length (cl_responses (dispatch_message m ?c)) = length (wo_log w) \<and>
      (\<forall>t < length (wo_log w). cell_assured owes ?w t)"
  proof (cases m)
    case (MResponse r)
    with a Cons obtain u where u: "u < length (wo_log w)" "re_request_seq r = number u" "proper (wo_log w) r"
      by (auto simp: assured_def proper_def)
    have c: "cl_responses (dispatch_message m ?c) =
        (if cl_responses ?c ! u = Waiting then (cl_responses ?c)[u := Delivered (Inr m)] else cl_responses ?c)"
    proof (cases "hm_get (cl_pending ?c) (number u)")
      case None
      with pending_number [OF ok, of u u] u len have "cl_responses ?c ! u \<noteq> Waiting" by auto
      with None u(2) show ?thesis by (simp add: MResponse dispatch_response_fields)
    next
      case (Some v)
      with pending_number [OF ok, of u v] len have "v = u" "cl_responses ?c ! u = Waiting" by auto
      with Some u(2) show ?thesis by (simp add: MResponse dispatch_response_fields)
    qed
    have cells: "cl_responses (wo_client ?w) =
        (if cl_responses ?c ! u = Waiting then (cl_responses ?c)[u := Delivered (Inr m)] else cl_responses ?c)"
      using c by (simp add: w)
    have "cell_assured owes ?w t" if t: "t < length (wo_log w)" for t
    proof (cases "t = u")
      case True
      with assured_cell [OF a t] t u len(1) show ?thesis
        unfolding cell_assured_def rest cells by (auto simp: MResponse split: cell.splits)
    next
      case False
      with u(2) show ?thesis
        by (intro cell_assured_keep [OF assured_cell [OF a t]]) (auto simp: rest cells Cons responded_Cons MResponse)
    qed
    with c len show ?thesis by simp
  next
    case (MEvent e)
    have "cell_assured owes ?w t" if t: "t < length (wo_log w)" for t
      by (rule cell_assured_keep [OF assured_cell [OF a t]])
        (use dispatch_event_requests [of e ?c] in \<open>auto simp: w Cons responded_Cons MEvent\<close>)
    then show ?thesis using dispatch_event_requests [of e ?c] len by (simp add: MEvent)
  next
    case (MOther x)
    have "cell_assured owes ?w t" if t: "t < length (wo_log w)" for t
      by (rule cell_assured_keep [OF assured_cell [OF a t]]) (auto simp: w Cons responded_Cons MOther)
    then show ?thesis using len by (simp add: MOther)
  qed
  have ok': "world_ok ?w" using a by (intro read_one_ok) (simp add: assured_def)
  from a cells ok' Cons show ?thesis
    unfolding assured_def by (auto simp: w dispatch_message_fired)
qed

lemma assured_reads: "assured owes w \<Longrightarrow> assured owes ((read_one ^^ n) w)"
  by (induction n) (simp_all add: assured_read)

lemma assured_tick: "assured owes w \<Longrightarrow> assured owes (tick w)"
proof -
  assume a: "assured owes w"
  have "cell_assured owes (w\<lparr>wo_lag := l\<rparr>) t" if "t < length (wo_log w)" for l t
    by (rule cell_assured_keep [OF assured_cell [OF a that]]) simp_all
  with a assured_open [OF a] have "assured owes (w\<lparr>wo_lag := l\<rparr>)" for l
    by (simp add: assured_def world_ok_def)
  with a show ?thesis by (auto simp: tick_def assured_reads split: list.split)
qed

lemma assured_wait: "assured owes w \<Longrightarrow> wait_until P w = Some w' \<Longrightarrow> assured owes w'"
  using wait_steps_Some assured_reads unfolding wait_until_def by metis

lemma proper_append: "proper log q \<Longrightarrow> proper (log @ [r]) q"
  unfolding proper_def by (metis length_append_singleton less_SucI nth_append)

section \<open>Sending\<close>

text \<open>The state after a request was written: the same in all cases, since the debugger does not fail.\<close>

lemma send_reaches:
  assumes co: "cooperative peer owes" and a: "assured owes w" and room: "Suc (length (wo_log w)) < 2 ^ 63"
  obtains ms p' c where
    "world_send_async sj peer r w = (Inr (length (wo_log w)), (tick w)
      \<lparr>wo_client := c, wo_peer := p', wo_log := wo_log w @ [r], wo_queue := wo_queue (tick w) @ ms, wo_eof := False\<rparr>)"
    "peer (set_seq (number (length (wo_log w))) r) (wo_peer (tick w)) = (Emits ms False, p')"
    "c = snd (send_start r (wo_client (tick w)))" "client_ok c"
    "cl_responses c = cl_responses (wo_client (tick w)) @ [Waiting]"
proof -
  let ?w = "tick w" and ?n = "length (wo_log w)"
  let ?c = "wo_client ?w"
  obtain c' where c': "snd (send_start r ?c) = c'" by blast
  have t: "assured owes ?w" using a by (rule assured_tick)
  then have ok: "client_ok ?c" and len: "length (cl_responses ?c) = ?n" and eof: "\<not> wo_eof ?w"
    by (simp_all add: assured_def world_ok_def tick_log)
  have sq: "wrap_i64 (cl_seq ?c + 1) = number ?n"
  proof -
    have "cl_seq ?c = wrap_i64 (int ?n)" using ok len by (simp add: client_ok_def seq_ok_def pending_ok_def)
    then have "wrap_i64 (cl_seq ?c + 1) = wrap_i64 (number ?n)" by (simp add: wrap_i64_add)
    also have "\<dots> = number ?n" using room by (intro wrap_i64_id) (auto simp: in_i64_def i64_min_def i64_max_def)
    finally show ?thesis .
  qed
  have free: "hm_get (cl_pending ?c) (number ?n) = None"
    using pending_number [OF ok, of ?n] len room by (cases "hm_get (cl_pending ?c) (number ?n)") auto
  have st: "send_start r ?c = ((?n, number ?n, set_seq (number ?n) r), c')"
    using send_start_fields(4) [of r ?c] c' by (simp add: sq len prod_eq_iff)
  obtain ms p' where p: "peer (set_seq (number ?n) r) (wo_peer ?w) = (Emits ms False, p')"
    using co unfolding cooperative_def by blast
  have "world_send_async sj peer r w = (Inr ?n, ?w\<lparr>wo_client := c', wo_peer := p', wo_log := wo_log w @ [r],
      wo_queue := wo_queue ?w @ ms, wo_eof := False\<rparr>)"
    by (simp add: world_send_async_def Let_def st emit_def p send_written_def eof tick_log)
  moreover have "cl_responses c' = cl_responses ?c @ [Waiting]"
    by (simp add: c' [symmetric] send_start_fields sq free cell_drop_def)
  ultimately show ?thesis using that [OF _ p c' [symmetric]] send_start_ok [OF ok, of r] c' by simp
qed

text \<open>What is certain after a request \<open>r\<close> was written.\<close>

definition sent :: "'p peer \<Rightarrow> ('p \<Rightarrow> i64 option) \<Rightarrow> request \<Rightarrow> 'p world \<Rightarrow> 'p world \<Rightarrow> bool" where
  "sent peer owes r w w' \<longleftrightarrow>
     assured owes w' \<and> wo_log w' = wo_log w @ [r] \<and> set (emitted w) \<subseteq> set (emitted w') \<and>
     (rq_command r \<noteq> ''launch'' \<longrightarrow> owes (wo_peer w') \<noteq> Some (number (length (wo_log w)))) \<and>
     (rq_command r = ''configurationDone'' \<longrightarrow> owes (wo_peer w') = None) \<and>
     (rq_command r = ''launch'' \<longrightarrow> MEvent EvInitialized \<in> set (emitted w')) \<and>
     (rq_command r = ''configurationDone'' \<and> stops_when_done peer \<longrightarrow> (\<exists>m \<in> set (emitted w'). stop_event m \<noteq> []))"

lemma read_one_peer: "wo_peer (read_one w) = wo_peer w"
  by (simp add: read_one_def split: list.split)

lemma reads_keep:
  "wo_peer ((read_one ^^ n) w) = wo_peer w" "emitted ((read_one ^^ n) w) = emitted w"
  by (induction n) (simp_all add: read_one_peer read_one_emitted)

lemma tick_keep: "wo_peer (tick w) = wo_peer w" "emitted (tick w) = emitted w"
  by (simp_all add: tick_def reads_keep split: list.split) (simp_all add: emitted_def)

lemma wait_keep: "wait_until P w = Some w' \<Longrightarrow> wo_peer w' = wo_peer w \<and> emitted w' = emitted w"
  using wait_steps_Some reads_keep unfolding wait_until_def by metis

lemma send_start_signals: "cl_fired (snd (send_start r c)) = cl_fired c" "cl_closed (snd (send_start r c)) = cl_closed c"
  using remove_pending_same(5) by blast+

text \<open>The debugger's reaction to one more request, in the account.\<close>

lemma assured_owed:
  "assured owes w \<Longrightarrow> owes (wo_peer w) = Some i \<Longrightarrow>
     \<exists>t < length (wo_log w). i = number t \<and> rq_command (wo_log w ! t) = ''launch''"
  by (simp add: assured_def)

lemma proper_extend:
  assumes co: "cooperative peer owes" and a: "assured owes w"
    and p: "peer st (wo_peer w) = (Emits ms False, p')" "rq_command st = rq_command r" "rq_seq st = number (length (wo_log w))"
    and q: "MResponse q \<in> set (wo_queue w @ ms)"
  shows "proper (wo_log w @ [r]) q"
proof (cases "MResponse q \<in> set (wo_queue w)")
  case True
  with a show ?thesis by (simp add: assured_def proper_append)
next
  case False
  with q have "MResponse q \<in> set ms" by simp
  from cooperativeD(1) [OF co p(1) this, unfolded p] consider
      "re_success q" "re_request_seq q = number (length (wo_log w))" "re_command q = rq_command r"
    | "re_success q" "owes (wo_peer w) = Some (re_request_seq q)" "re_command q = ''launch''" by blast
  then show ?thesis
  proof cases
    case 1
    then show ?thesis unfolding proper_def by (intro exI [of _ "length (wo_log w)"]) simp
  next
    case 2
    from assured_owed [OF a 2(2)] obtain t where
      "t < length (wo_log w)" "re_request_seq q = number t" "rq_command (wo_log w ! t) = ''launch''" by blast
    with 2 show ?thesis unfolding proper_def by (intro exI [of _ t]) (simp add: nth_append)
  qed
qed

lemma assured_extend:
  assumes co: "cooperative peer owes" and a: "assured owes w" and room: "Suc (length (wo_log w)) < 2 ^ 63"
    and p: "peer st (wo_peer w) = (Emits ms False, p')" "rq_command st = rq_command r" "rq_seq st = number (length (wo_log w))"
    and c: "client_ok c" "cl_responses c = cl_responses (wo_client w) @ [Waiting]"
      "cl_fired c = cl_fired (wo_client w)" "cl_closed c = cl_closed (wo_client w)"
  shows "assured owes (w\<lparr>wo_client := c, wo_peer := p', wo_log := wo_log w @ [r], wo_queue := wo_queue w @ ms, wo_eof := False\<rparr>)"
    (is "assured owes ?v")
proof -
  let ?n = "length (wo_log w)"
  note coop = cooperativeD [OF co p(1), unfolded p]
  from a have len: "length (cl_responses (wo_client w)) = ?n" by (simp add: assured_def)
  have cells: "cell_assured owes ?v t" if "t < Suc ?n" for t
  proof (cases "t = ?n")
    case True
    have "responded (number ?n) ms \<or> owes p' = Some (number ?n)" using coop(2) [of "number ?n"] by blast
    then show ?thesis by (auto simp: True cell_assured_def c nth_append len responded_append)
  next
    case False
    with that have l: "t < ?n" by simp
    show ?thesis
    proof (rule cell_assured_keep [OF assured_cell [OF a l]])
      show "cl_responses (wo_client ?v) ! t = cl_responses (wo_client w) ! t" using l by (simp add: c nth_append len)
      show "responded (number t) (wo_queue w) \<Longrightarrow> responded (number t) (wo_queue ?v)" by (simp add: responded_append)
      show "owes (wo_peer w) = Some (number t) \<Longrightarrow> responded (number t) (wo_queue ?v) \<or> owes (wo_peer ?v) = Some (number t)"
        using coop(2) [of "number t"] by (auto simp: responded_append)
      show "\<And>q. proper (wo_log w) q \<Longrightarrow> proper (wo_log ?v) q" by (simp add: proper_append)
    qed
  qed
  have launches: "\<exists>t < Suc ?n. i = number t \<and> rq_command ((wo_log w @ [r]) ! t) = ''launch''" if "owes p' = Some i" for i
    using coop(3) [OF that]
  proof
    assume "owes (wo_peer w) = Some i"
    from assured_owed [OF a this] obtain t where "t < ?n" "i = number t" "rq_command (wo_log w ! t) = ''launch''" by blast
    then show ?thesis by (intro exI [of _ t]) (simp add: nth_append)
  next
    assume "rq_command r = ''launch'' \<and> i = number ?n"
    then show ?thesis by (intro exI [of _ ?n]) simp
  qed
  have "world_ok ?v" "MEvent EvInitialized \<in> set (wo_seen w) \<longrightarrow> cl_fired c"
    using a assured_open [OF a] by (simp_all add: assured_def world_ok_def c)
  with len room proper_extend [OF co a p] cells launches show ?thesis unfolding assured_def by (simp add: c)
qed

lemma assured_send:
  assumes co: "cooperative peer owes" and a: "assured owes w" and room: "Suc (length (wo_log w)) < 2 ^ 63"
  obtains w' where "world_send_async sj peer r w = (Inr (length (wo_log w)), w')" "sent peer owes r w w'"
proof -
  let ?w = "tick w" and ?n = "length (wo_log w)"
  let ?s = "set_seq (number ?n) r"
  obtain ms p' c where run: "world_send_async sj peer r w = (Inr ?n, ?w\<lparr>wo_client := c, wo_peer := p',
      wo_log := wo_log w @ [r], wo_queue := wo_queue ?w @ ms, wo_eof := False\<rparr>)" (is "_ = (_, ?v)")
    and p: "peer ?s (wo_peer ?w) = (Emits ms False, p')" and c: "c = snd (send_start r (wo_client ?w))"
    and ok: "client_ok c" and cells: "cl_responses c = cl_responses (wo_client ?w) @ [Waiting]"
    using send_reaches [OF co a room] by blast
  have t: "assured owes ?w" using a by (rule assured_tick)
  have cmd: "rq_command ?s = rq_command r" "rq_seq ?s = number ?n" by (simp_all add: set_seq_def)
  note coop = cooperativeD [OF co p, unfolded cmd]
  have "assured owes ?v"
    using assured_extend [OF co t, of ?s ms p' r c] p ok cells room by (simp add: tick_log cmd c send_start_signals)
  moreover have em: "emitted ?v = emitted w @ ms"
    using tick_keep(2) [of w] by (simp add: emitted_def flip: append_assoc)
  moreover have "owes p' \<noteq> Some (number ?n)" if "rq_command r \<noteq> ''launch''"
    using coop(3) [of "number ?n"] assured_owed [OF t, of "number ?n"] that by (auto simp: tick_log)
  moreover have "\<exists>m \<in> set ms. stop_event m \<noteq> []" if "rq_command r = ''configurationDone''" "stops_when_done peer"
    using that p unfolding stops_when_done_def by (metis cmd(1))
  ultimately have "sent peer owes r w ?v"
    using coop(4,5) unfolding sent_def em by auto
  with run that show ?thesis by blast
qed

section \<open>Waiting\<close>

text \<open>A wait ends if its condition holds once everything that was emitted has been read.\<close>

lemma drained: "wo_queue ((read_one ^^ n) w) = drop n (wo_queue w)"
proof (induction n arbitrary: w)
  case (Suc n)
  have "wo_queue (read_one w) = drop 1 (wo_queue w)" by (simp add: read_one_def split: list.split)
  with Suc.IH [of "read_one w"] show ?case by (simp only: funpow_Suc_right o_apply) simp
qed simp

lemma wait_ends:
  assumes a: "assured owes w"
    and read: "\<And>v. assured owes v \<Longrightarrow> wo_queue v = [] \<Longrightarrow> \<exists>n. v = (read_one ^^ n) w \<Longrightarrow> P (wo_client v)"
  obtains v n where "wait_until P w = Some v" "assured owes v" "v = (read_one ^^ n) w" "P (wo_client v)"
proof -
  let ?v = "(read_one ^^ length (wo_queue w)) w"
  have "P (wo_client ?v)" by (rule read [OF assured_reads [OF a]]) (auto simp: drained)
  then obtain v where v: "wait_until P w = Some v" using wait_until_complete [of P w] by (cases "wait_until P w") auto
  with wait_steps_Some [of _ P w v] obtain n where "P (wo_client v)" "v = (read_one ^^ n) w" unfolding wait_until_def by blast
  with v assured_wait [OF a v] that show ?thesis by blast
qed

lemma await_answers:
  assumes a: "assured owes w" and t: "t < length (wo_log w)" "owes (wo_peer w) \<noteq> Some (number t)"
  obtains q w' where "world_await t w = Some (Some (Inr (MResponse q)), w')" "assured owes w'" "wo_log w' = wo_log w"
    "wo_peer w' = wo_peer w" "emitted w' = emitted w" "re_success q" "re_command q = rq_command (wo_log w ! t)"
proof -
  let ?P = "\<lambda>c. poll_response t c \<noteq> None"
  have cell: "cell_assured owes v t" if "assured owes v" "\<exists>n. v = (read_one ^^ n) (tick w)" for v
    using assured_cell [OF that(1)] that(2) t(1) by (auto simp: read_ahead_log tick_log)
  obtain v n where v: "wait_until ?P (tick w) = Some v" "assured owes v" "v = (read_one ^^ n) (tick w)" "?P (wo_client v)"
  proof (rule wait_ends [OF assured_tick [OF a], of ?P])
    fix v assume v: "assured owes v" "wo_queue v = []" "\<exists>n. v = (read_one ^^ n) (tick w)"
    then show "?P (wo_client v)"
      using cell [OF v(1,3)] t(2)
      by (auto simp: cell_assured_def poll_response_def responded_def reads_keep tick_keep split: cell.splits)
  qed blast
  from v(3) have same: "wo_log v = wo_log w" "wo_peer v = wo_peer w" "emitted v = emitted w"
    by (simp_all add: read_ahead_log tick_log reads_keep tick_keep)
  from cell [OF v(2)] v(3,4) obtain q where q: "cl_responses (wo_client v) ! t = Delivered (Inr (MResponse q))"
    "re_request_seq q = number t" "proper (wo_log v) q"
    by (auto simp: cell_assured_def poll_response_def split: cell.splits)
  from q(2,3) same have "re_success q" "re_command q = rq_command (wo_log w ! t)" by (auto simp: proper_def)
  moreover have "world_await t w = Some (Some (Inr (MResponse q)), v)" by (simp add: world_await_def v(1) q(1) del: not_None_eq)
  ultimately show ?thesis using that v(2) same by blast
qed

section \<open>The calls of the backend\<close>

text \<open>After the requests \<open>rs\<close>.\<close>

definition advanced :: "('p \<Rightarrow> i64 option) \<Rightarrow> 'p world \<Rightarrow> request list \<Rightarrow> 'p world \<Rightarrow> bool" where
  "advanced owes w rs w' \<longleftrightarrow>
     assured owes w' \<and> wo_log w' = wo_log w @ rs \<and> set (emitted w) \<subseteq> set (emitted w')"

lemma advanced_trans: "advanced owes w rs v \<Longrightarrow> advanced owes v rs' u \<Longrightarrow> advanced owes w (rs @ rs') u"
  by (auto simp: advanced_def)

lemma sent_advanced: "sent peer owes r w w' \<Longrightarrow> advanced owes w [r] w'"
  by (simp add: sent_def advanced_def)

lemma send_gives:
  assumes "cooperative peer owes" "assured owes w" "Suc (length (wo_log w)) < 2 ^ 63" "rq_command r \<noteq> ''launch''"
  shows "gives (world_send sj peer r) w (\<lambda>m w'. (\<exists>q. m = MResponse q \<and> re_success q \<and> re_command q = rq_command r) \<and>
    sent peer owes r w w')"
proof -
  let ?n = "length (wo_log w)"
  from assured_send [OF assms(1-3)] obtain v where s: "world_send_async sj peer r w = (Inr ?n, v)" "sent peer owes r w v"
    by blast
  then have v: "assured owes v" "?n < length (wo_log v)" "owes (wo_peer v) \<noteq> Some (number ?n)" "wo_log v ! ?n = r"
    using assms(4) by (simp_all add: sent_def)
  obtain q u where a: "world_await ?n v = Some (Some (Inr (MResponse q)), u)" "assured owes u" "wo_log u = wo_log v"
    "wo_peer u = wo_peer v" "emitted u = emitted v" "re_success q" "re_command q = rq_command r"
    using await_answers [OF v(1-3)] v(4) by metis
  have "sent peer owes r w u" using s(2) a(2-5) by (simp add: sent_def)
  with s a show ?thesis
    by (auto simp: gives_def brings_def world_send_def)
qed

lemma assured_client:
  assumes "assured owes w" "client_ok c" "cl_responses c = cl_responses (wo_client w)"
    and "cl_closed c = cl_closed (wo_client w)" "cl_fired c = cl_fired (wo_client w)"
  shows "assured owes (w\<lparr>wo_client := c\<rparr>)"
proof -
  have "cell_assured owes (w\<lparr>wo_client := c\<rparr>) t" if "t < length (wo_log w)" for t
    by (rule cell_assured_keep [OF assured_cell [OF assms(1) that]]) (simp_all add: assms)
  with assms assured_open [OF assms(1)] show ?thesis by (simp add: assured_def world_ok_def)
qed

lemma read_one_init_cells: "length (cl_inits (wo_client (read_one w))) = length (cl_inits (wo_client w))"
proof (cases "wo_queue w")
  case (Cons m q)
  then show ?thesis
    using dispatch_inits [of m "wo_client w"]
    by (cases "m = MEvent EvInitialized") (simp_all add: read_one_def signal_initialized_def split: option.split)
qed (simp add: read_one_def recover_inits)

lemma reads_init_cells: "length (cl_inits (wo_client ((read_one ^^ n) w))) = length (cl_inits (wo_client w))"
  by (induction n) (simp_all add: read_one_init_cells)

lemma wait_initialized_brings:
  assumes a: "assured owes w" and e: "MEvent EvInitialized \<in> set (emitted w)"
  shows "brings world_wait_initialized w (\<lambda>_ w'. advanced owes w [] w')"
proof -
  let ?w = "tick w"
  obtain ot c where c: "wait_initialized (wo_client ?w) = (ot, c)" by fastforce
  have t: "assured owes ?w" using a by (rule assured_tick)
  then have ok: "client_ok (wo_client ?w)" by (simp add: assured_def world_ok_def)
  have fields: "client_ok c" "cl_responses c = cl_responses (wo_client ?w)" "cl_closed c = cl_closed (wo_client ?w)"
    "cl_fired c = cl_fired (wo_client ?w)" "\<And>t. ot = Some t \<Longrightarrow> t < length (cl_inits c)"
    using c client_ok_ops(4) [OF ok] by (auto simp: wait_initialized_def Let_def split: if_splits)
  let ?v = "?w\<lparr>wo_client := c\<rparr>"
  have v: "assured owes ?v" by (rule assured_client [OF t fields(1-4)])
  have em: "emitted ?v = emitted w" "wo_log ?v = wo_log w" using tick_keep(2) [of w] tick_log [of w] by (simp_all add: emitted_def)
  obtain u n where u: "wait_until (init_done ot) ?v = Some u" "assured owes u" "u = (read_one ^^ n) ?v"
  proof (rule wait_ends [OF v, of "init_done ot"])
    fix u assume u: "assured owes u" "wo_queue u = []" "\<exists>n. u = (read_one ^^ n) ?v"
    then obtain n where n: "u = (read_one ^^ n) ?v" by blast
    have "MEvent EvInitialized \<in> set (wo_seen u)"
      using e em(1) reads_keep(2) [of n ?v] u(2) n by (simp add: emitted_def)
    then have "cl_init_waiter (wo_client u) = None" "slot_ok (cl_init_waiter (wo_client u)) (cl_inits (wo_client u))"
      using u(1) by (auto simp: assured_def world_ok_def client_ok_def signals_ok_def)
    moreover have "length (cl_inits (wo_client u)) = length (cl_inits c)" using n reads_init_cells [of n ?v] by simp
    ultimately show "init_done ot (wo_client u)"
      using fields(5) by (auto simp: init_done_def slot_ok_def split: option.split)
  qed blast
  have "emitted u = emitted w" "wo_log u = wo_log w" using u(3) em by (simp_all add: reads_keep read_ahead_log)
  then have "advanced owes w [] u" using u(2) by (simp add: advanced_def)
  then show ?thesis
    by (rule bringsI [rotated]) (simp add: world_wait_initialized_def Let_def c u(1))
qed

section \<open>The handshake succeeds\<close>

lemma gives_check_response: "re_success q \<Longrightarrow> Q q t \<Longrightarrow> gives (check_response lb a b (MResponse q)) t Q"
  unfolding check_response_def by (rule gives_check) simp_all

text \<open>A sent request whose response is checked, or not looked at.\<close>

lemma sends_ok:
  assumes "cooperative peer owes" "assured owes w" "Suc (length (wo_log w)) < 2 ^ 63" "rq_command r \<noteq> ''launch''"
    and "\<And>q w'. re_success q \<Longrightarrow> re_command q = rq_command r \<Longrightarrow> sent peer owes r w w' \<Longrightarrow> gives (k (MResponse q)) w' Q"
  shows "gives (try_then (with_err g (tr_send (dap_transport sj peer) r)) k) w Q"
proof (intro gives_try gives_with_err)
  show "gives (tr_send (dap_transport sj peer) r) w (\<lambda>x t'. gives (k x) t' Q)"
    using assms(5) by (auto simp: dap_transport_def intro: gives_mono [OF send_gives [OF assms(1-4)]])
qed

lemma initialize_gives:
  assumes "lb_transport lb = dap_transport sj peer" "cooperative peer owes" "assured owes w" "Suc (length (wo_log w)) < 2 ^ 63"
  shows "gives (be_initialize lb) w (\<lambda>_. advanced owes w [req_initialize])"
  unfolding be_initialize_def assms(1)
  by (rule sends_ok [OF assms(2-4)])
    (auto intro!: gives_try gives_check_response gives_ret intro: sent_advanced)

lemma unchecked_gives:
  assumes "lb_transport lb = dap_transport sj peer" "cooperative peer owes" "assured owes w" "Suc (length (wo_log w)) < 2 ^ 63"
    and "rq_command r \<noteq> ''launch''"
  shows "gives (send_unchecked lb what r) w (\<lambda>_. sent peer owes r w)"
  unfolding send_unchecked_def assms(1)
  by (rule sends_ok [OF assms(2-5)]) (auto intro: gives_ret)

lemma flush_source_gives:
  assumes "lb_transport lb = dap_transport sj peer" "cooperative peer owes"
  shows "assured owes w \<Longrightarrow> length (wo_log w) + length fs < 2 ^ 63 \<Longrightarrow>
    gives (flush_source_breakpoints lb fs) w (\<lambda>_. advanced owes w (map (\<lambda>(file, bps). req_set_breakpoints file bps) fs))"
proof (induction fs arbitrary: w)
  case Nil
  then show ?case by (auto intro!: gives_ret simp: advanced_def)
next
  case (Cons fb fs)
  obtain path bps where fb: "fb = (path, bps)" by (cases fb)
  have one: "gives (send_checked_breakpoints_for_file lb path bps) w (\<lambda>_. sent peer owes (req_set_breakpoints path bps) w)"
    unfolding send_checked_breakpoints_for_file_def assms(1)
    by (rule sends_ok [OF assms(2) Cons.prems(1)]) (use Cons.prems(2) in \<open>auto intro: gives_check\<close>)
  show ?case
    unfolding fb flush_source_breakpoints.simps
  proof (intro gives_try gives_mono [OF one])
    fix x and v assume s: "sent peer owes (req_set_breakpoints path bps) w v"
    then have "assured owes v" "length (wo_log v) + length fs < 2 ^ 63"
      using Cons.prems(2) by (simp_all add: sent_def)
    from Cons.IH [OF this]
    show "gives (flush_source_breakpoints lb fs) v
        (\<lambda>_. advanced owes w (map (\<lambda>(file, bps). req_set_breakpoints file bps) ((path, bps) # fs)))"
      by (rule gives_mono) (use advanced_trans [OF sent_advanced [OF s]] in auto)
  qed
qed

lemma flush_function_gives:
  assumes "lb_transport lb = dap_transport sj peer" "cooperative peer owes" "assured owes w" "Suc (length (wo_log w)) < 2 ^ 63"
  shows "gives (flush_function_breakpoints lb bps) w
    (\<lambda>_. advanced owes w (if bps = [] then [] else [req_set_function_breakpoints bps]))"
proof (cases "bps = []")
  case True
  then show ?thesis by (auto simp: flush_function_breakpoints_def advanced_def assms(3) intro: gives_ret)
next
  case False
  have "gives (try_then (with_err (\<lambda>e. Dap (''setFunctionBreakpoints failed: '' @ show_backend_error e))
      (tr_send (dap_transport sj peer) (req_set_function_breakpoints bps))) (\<lambda>m.
      try_then (check_response lb ''setFunctionBreakpoints'' ''setFunctionBreakpoints'' m) (\<lambda>_. ret (Inr ())))) w
    (\<lambda>_. advanced owes w [req_set_function_breakpoints bps])"
    by (rule sends_ok [OF assms(2-4)])
      (auto intro!: gives_try gives_check_response gives_ret intro: sent_advanced)
  with False show ?thesis by (simp add: flush_function_breakpoints_def assms(1))
qed

text \<open>A step of a handshake that started in \<open>w\<close>.\<close>

lemma gives_step:
  assumes "advanced owes w rs v" "gives p v (\<lambda>_. advanced owes v rs')"
    and "\<And>x u. advanced owes w (rs @ rs') u \<Longrightarrow> gives (f x) u Q"
  shows "gives (try_then p f) v Q"
  by (intro gives_try gives_mono [OF assms(2)] assms(3) advanced_trans [OF assms(1)])

text \<open>The launch request, whose response is not awaited, and the initialized event.\<close>

lemma deferred_send_gives:
  assumes lb: "lb_transport lb = dap_transport sj peer" and co: "cooperative peer owes"
    and v: "advanced owes w rs v" "Suc (length (wo_log v)) < 2 ^ 63" and r: "rq_command r = ''launch''"
    and k: "\<And>u. advanced owes w (rs @ [r]) u \<Longrightarrow> gives (k (length (wo_log w) + length rs)) u Q"
  shows "gives (try_then (with_err g (tr_send_async (lb_transport lb) r)) (\<lambda>rx.
    seq (tr_wait_initialized (lb_transport lb)) (\<lambda>_. k rx))) v Q"
proof -
  let ?rx = "length (wo_log w) + length rs"
  have rx: "length (wo_log v) = ?rx" and av: "assured owes v" using v(1) by (simp_all add: advanced_def)
  from assured_send [OF co av v(2), of sj r] obtain u where
    u: "world_send_async sj peer r v = (Inr ?rx, u)" "sent peer owes r v u" by (auto simp: rx)
  have au: "advanced owes w (rs @ [r]) u" by (rule advanced_trans [OF v(1) sent_advanced [OF u(2)]])
  have "brings world_wait_initialized u (\<lambda>_. advanced owes u [])"
    using u(2) r by (intro wait_initialized_brings) (auto simp: sent_def)
  then have "brings world_wait_initialized u (\<lambda>_ u'. gives (k ?rx) u' Q)"
    by (rule brings_mono) (use advanced_trans [OF au] in \<open>auto intro: k\<close>)
  then have "gives (seq world_wait_initialized (\<lambda>_. k ?rx)) u Q" by (rule gives_seq)
  then show ?thesis
    by (intro gives_try gives_with_err) (simp add: lb dap_transport_def gives_def [of "\<lambda>w. Some (f w)" for f] brings_def u(1))
qed

text \<open>The part up to configurationDone.\<close>

lemma prelude_gives:
  assumes lb: "lb_transport lb = dap_transport sj peer" and co: "cooperative peer owes" and a: "assured owes w"
    and room: "length (wo_log w) + length (launch_requests spec) < 2 ^ 63"
  shows "gives (launch_prelude lb spec) w
    (\<lambda>rx w'. rx = Suc (length (wo_log w)) \<and> advanced owes w (butlast (launch_requests spec)) w')"
proof -
  let ?sets = "map (\<lambda>(file, bps). req_set_breakpoints file bps) (ls_source_breakpoints spec)"
  let ?funs = "if ls_function_breakpoints spec = [] then [] else [req_set_function_breakpoints (ls_function_breakpoints spec)]"
  let ?R1 = "[req_initialize] @ [launch_request_of spec]" and ?rx = "Suc (length (wo_log w))"
  let ?Q = "\<lambda>rx w'. rx = ?rx \<and> advanced owes w (butlast (launch_requests spec)) w'"
  have all: "butlast (launch_requests spec) = ((?R1 @ ?sets) @ ?funs) @ [req_set_exception_breakpoints]"
    by (simp add: launch_requests_def butlast_append)
  have len: "length (launch_requests spec) = 4 + length ?sets + length ?funs"
    by (simp add: launch_requests_def)
  have fits: "assured owes v \<and> Suc (length (wo_log v)) < 2 ^ 63" if "advanced owes w rs v" "length rs < length (launch_requests spec)" for rs v
    using that room by (simp add: advanced_def)
  have exc: "gives (try_then (send_unchecked lb x req_set_exception_breakpoints) (\<lambda>_. ret (Inr ?rx))) v ?Q"
    if v: "advanced owes w ((?R1 @ ?sets) @ ?funs) v" for x v
    using fits [OF v] len
    by (intro gives_step [OF v gives_mono [OF unchecked_gives [OF lb co] sent_advanced]]) (auto simp: all intro: gives_ret)
  have funs: "gives (try_then (flush_function_breakpoints lb (ls_function_breakpoints spec)) (\<lambda>_.
      try_then (send_unchecked lb x req_set_exception_breakpoints) (\<lambda>_. ret (Inr ?rx)))) v ?Q"
    if v: "advanced owes w (?R1 @ ?sets) v" for x v
    using fits [OF v] len by (intro gives_step [OF v flush_function_gives [OF lb co]] exc) auto
  have sets: "gives (try_then (flush_source_breakpoints lb (ls_source_breakpoints spec)) (\<lambda>_.
      try_then (flush_function_breakpoints lb (ls_function_breakpoints spec)) (\<lambda>_.
      try_then (send_unchecked lb x req_set_exception_breakpoints) (\<lambda>_. ret (Inr ?rx))))) v ?Q"
    if v: "advanced owes w ?R1 v" for x v
    using v len room by (intro gives_step [OF v flush_source_gives [OF lb co]] funs) (auto simp: advanced_def)
  have launch: "gives (try_then (with_err g (tr_send_async (lb_transport lb) (launch_request_of spec))) (\<lambda>rx.
      seq (tr_wait_initialized (lb_transport lb)) (\<lambda>_.
      try_then (flush_source_breakpoints lb (ls_source_breakpoints spec)) (\<lambda>_.
      try_then (flush_function_breakpoints lb (ls_function_breakpoints spec)) (\<lambda>_.
      try_then (send_unchecked lb x req_set_exception_breakpoints) (\<lambda>_. ret (Inr rx))))))) v ?Q"
    if v: "advanced owes w [req_initialize] v" for g x v
    using fits [OF v] len sets by (intro deferred_send_gives [OF lb co v]) simp_all
  have start: "advanced owes w [] w" using a by (simp add: advanced_def)
  from fits [OF start] len show ?thesis
    unfolding launch_prelude_def
    by (intro gives_step [OF start initialize_gives [OF lb co]] launch) simp_all
qed

text \<open>The launch response when nothing is owed any more, and the stop once it was emitted.\<close>

lemma deferred_gives:
  assumes lb: "lb_transport lb = dap_transport sj peer" and a: "assured owes w" "owes (wo_peer w) = None" "t < length (wo_log w)"
  shows "gives (await_deferred lb op t) w (\<lambda>_ w'. assured owes w' \<and> emitted w' = emitted w)"
proof -
  from await_answers [OF a(1,3)] a(2) obtain q w' where w': "world_await t w = Some (Some (Inr (MResponse q)), w')"
    "assured owes w'" "emitted w' = emitted w" "re_success q" by (metis option.distinct(1))
  have "gives (check_response lb op op (MResponse q)) w' (\<lambda>_ w'. assured owes w' \<and> emitted w' = emitted w)"
    using w' by (intro gives_check_response) simp_all
  with w'(1) show ?thesis
    unfolding await_deferred_def lb by (intro gives_seq) (simp add: dap_transport_def brings_def)
qed

lemma stop_await_brings:
  assumes a: "assured owes w" and t: "waiting_for t w" and e: "\<exists>m \<in> set (emitted w). stop_event m \<noteq> []"
  shows "brings (world_stop_await t) w (\<lambda>_ w'. emitted w' = emitted w)"
proof -
  let ?P = "\<lambda>c. poll_stop t c \<noteq> None"
  obtain v where v: "wait_until ?P (tick w) = Some v"
  proof (rule wait_ends [OF assured_tick [OF a], of ?P])
    fix v assume v: "assured owes v" "wo_queue v = []" "\<exists>n. v = (read_one ^^ n) (tick w)"
    then have "waiting_for t v" "emitted v = emitted w"
      using registered.I_reads [OF registered.I_tick [OF t]] by (auto simp: reads_keep tick_keep)
    with e v(2) have "offers v \<noteq> []" "tracks t (offers v) (wo_client v)"
      by (auto simp: emitted_def offers_def waiting_for_def)
    then show "?P (wo_client v)" by (auto simp: tracks_def poll_stop_def split: list.splits)
  qed blast
  moreover have "emitted v = emitted w" using wait_keep [OF v] by (simp add: tick_keep)
  ultimately show ?thesis by (auto simp: brings_def world_stop_await_def simp del: not_None_eq)
qed

lemma register_brings:
  assumes lb: "lb_transport lb = dap_transport sj peer" and a: "assured owes w"
  shows "brings (register_if wanted lb) w (\<lambda>_. advanced owes w [])"
proof (cases wanted)
  case False
  with a show ?thesis by (simp add: brings_def register_if_def advanced_def)
next
  case True
  let ?w = "tick w"
  obtain t c where c: "stop_register (wo_client ?w) = (t, c)" by fastforce
  have w: "assured owes ?w" using a by (rule assured_tick)
  then have ok: "client_ok (wo_client ?w)" by (simp add: assured_def world_ok_def)
  have "client_ok c" "cl_responses c = cl_responses (wo_client ?w)" "cl_closed c = cl_closed (wo_client ?w)"
    "cl_fired c = cl_fired (wo_client ?w)"
    using c client_ok_ops(2) [OF ok] by (auto simp: stop_register_def Let_def)
  from assured_client [OF w this] have "advanced owes w [] (?w\<lparr>wo_client := c\<rparr>)"
    using tick_keep(2) [of w] by (simp add: advanced_def tick_log emitted_def)
  with True c show ?thesis
    by (simp add: brings_def register_if_def lb dap_transport_def world_stop_register_def Let_def)
qed

text \<open>From the registration to the outcome.\<close>

abbreviation awaits :: "nat option \<Rightarrow> 'p world \<Rightarrow> bool" where
  "awaits waiter v \<equiv> \<forall>t. waiter = Some t \<longrightarrow> waiting_for t v"

lemma keeps_awaits: "(\<And>t. registered.keeps t p) \<Longrightarrow> awaits waiter v \<Longrightarrow> post p v (\<lambda>_. awaits waiter)"
  unfolding registered.keeps_def post_def by blast

lemma finish_gives:
  assumes lb: "lb_transport lb = dap_transport sj peer" and co: "cooperative peer owes"
    and u: "assured owes u" "Suc (length (wo_log u)) < 2 ^ 63" "rx < length (wo_log u)"
    and x: "waiter = None \<or> (\<exists>t. waiter = Some t \<and> waiting_for t u \<and> stops_when_done peer)"
  shows "gives (try_then (send_unchecked lb what req_configuration_done) (\<lambda>_. launch_finish lb rx waiter)) u
    (\<lambda>out w'. (waiter = None \<longrightarrow> out = LRunning) \<and> (waiter \<noteq> None \<longrightarrow> (\<exists>m \<in> set (emitted w'). stop_event m \<noteq> [])))"
    (is "gives _ _ ?Q")
proof -
  have cmd: "rq_command req_configuration_done = ''configurationDone''" by (simp add: req_configuration_done_def request_new_def)
  have sent: "gives (send_unchecked lb what req_configuration_done) u (\<lambda>_ v. sent peer owes req_configuration_done u v \<and> awaits waiter v)"
    using x by (intro gives_post unchecked_gives [OF lb co u(1,2)] keeps_awaits registered.keeps_unchecked [OF lb]) (auto simp: cmd)
  have finish: "gives (launch_finish lb rx waiter) v ?Q"
    if s: "sent peer owes req_configuration_done u v" and v: "awaits waiter v" for v
  proof -
    have late: "assured owes v" "owes (wo_peer v) = None" "rx < length (wo_log v)"
      "waiter \<noteq> None \<Longrightarrow> \<exists>m \<in> set (emitted v). stop_event m \<noteq> []"
      using s u(3) x by (auto simp: sent_def cmd)
    have "gives (await_deferred lb ''launch'' rx) v (\<lambda>_ w'. (assured owes w' \<and> emitted w' = emitted v) \<and> awaits waiter w')"
      by (intro gives_post deferred_gives [OF lb late(1-3)] keeps_awaits registered.keeps_deferred [OF lb] v)
    then show ?thesis
      unfolding launch_finish_def
    proof (intro gives_try, elim gives_mono, elim conjE)
      fix y w' assume w': "assured owes w'" "emitted w' = emitted v" "awaits waiter w'"
      show "gives (case waiter of None \<Rightarrow> ret (Inr LRunning)
          | Some rx \<Rightarrow> seq (tr_stop_await (lb_transport lb) rx) (\<lambda>oo. ret (Inr (launch_outcome_of oo)))) w' ?Q"
      proof (cases waiter)
        case None
        then show ?thesis by (auto intro: gives_ret)
      next
        case (Some t)
        then have stop: "\<exists>m \<in> set (emitted w'). stop_event m \<noteq> []" using late(4) w'(2) by simp
        have "brings (world_stop_await t) w' (\<lambda>_ w''. emitted w'' = emitted w')"
          using w'(3) Some by (intro stop_await_brings [OF w'(1) _ stop]) simp
        then show ?thesis
          using stop by (auto simp: Some lb dap_transport_def intro!: gives_seq gives_ret elim!: brings_mono)
      qed
    qed
  qed
  show ?thesis by (intro gives_try gives_mono [OF sent], elim conjE) (rule finish)
qed

lemma launch_gives:
  assumes lb: "lb_transport lb = dap_transport sj peer" and co: "cooperative peer owes" and a: "assured owes w"
    and room: "length (wo_log w) + length (launch_requests spec) < 2 ^ 63"
    and soe: "ls_stop_on_entry spec \<Longrightarrow> not_running peer w \<and> stops_when_done peer"
  shows "gives (run_launch lb spec) w (\<lambda>out w'. (\<not> ls_stop_on_entry spec \<longrightarrow> out = LRunning) \<and>
    (ls_stop_on_entry spec \<longrightarrow> (\<exists>m \<in> set (emitted w'). stop_event m \<noteq> [])))" (is "gives _ _ ?Q")
proof -
  let ?I = "\<lambda>v. ls_stop_on_entry spec \<longrightarrow> not_running peer v"
  have "post (launch_prelude lb spec) w (\<lambda>_. ?I)"
    using soe prelude_not_running [OF lb, of spec] unfolding before_done.keeps_def post_def by blast
  from gives_post [OF prelude_gives [OF lb co a room] this]
  show ?thesis
    unfolding run_launch_split
  proof (intro gives_try, elim gives_mono)
    fix rx v assume "(rx = Suc (length (wo_log w)) \<and> advanced owes w (butlast (launch_requests spec)) v) \<and> ?I v"
    then have rx: "rx = Suc (length (wo_log w))" and v: "advanced owes w (butlast (launch_requests spec)) v" and nr: "?I v" by simp_all
    have "post (register_if (ls_stop_on_entry spec) lb) v (\<lambda>waiter u. if ls_stop_on_entry spec then
        \<exists>t. waiter = Some t \<and> waiting_for t u else waiter = None)"
      using nr register_waiting [OF _ _ lb] by (cases "ls_stop_on_entry spec") (auto simp: post_def, simp add: register_if_def)
    moreover have av: "assured owes v" using v by (simp add: advanced_def)
    ultimately show "gives (seq (register_if (ls_stop_on_entry spec) lb) (\<lambda>waiter.
        try_then (send_unchecked lb ''configurationDone'' req_configuration_done) (\<lambda>_. launch_finish lb rx waiter))) v ?Q"
    proof (intro gives_seq brings_mono [OF brings_post [OF register_brings [OF lb av]]])
      fix waiter u
      assume u: "advanced owes v [] u \<and> (if ls_stop_on_entry spec then \<exists>t. waiter = Some t \<and> waiting_for t u else waiter = None)"
      have "assured owes u" "Suc (length (wo_log u)) < 2 ^ 63" "rx < length (wo_log u)"
        using u v rx room by (auto simp: advanced_def launch_requests_def)
      from gives_mono [OF finish_gives [OF lb co this, of waiter]] u soe
      show "gives (try_then (send_unchecked lb ''configurationDone'' req_configuration_done) (\<lambda>_. launch_finish lb rx waiter)) u ?Q"
        by (auto split: if_splits)
    qed
  qed
qed

text \<open>
  The launch handshake ends: against a debugger that answers, and under every schedule of the read
  loop, it returns an outcome, \<^term>\<open>LRunning\<close> without stop on entry and the first stop or exit that
  was emitted with it.
\<close>

lemma cooperative_launch:
  assumes lb: "lb_transport lb = dap_transport sj peer" and co: "cooperative peer owes" "owes p = None"
    and room: "length (launch_requests spec) < 2 ^ 63"
    and soe: "ls_stop_on_entry spec \<Longrightarrow> waits_for_done peer \<and> stops_when_done peer"
  shows "\<exists>out w'. run_launch lb spec (world_new p lag) = Some (Inr out, w') \<and>
    (\<not> ls_stop_on_entry spec \<longrightarrow> out = LRunning) \<and>
    (ls_stop_on_entry spec \<longrightarrow> out = launch_outcome_of (Some (hd (concat (map stop_event (emitted w'))))))"
proof -
  let ?w = "world_new p lag"
  have log: "wo_log ?w = []" by (simp add: world_new_def)
  have "gives (run_launch lb spec) ?w (\<lambda>out w'. (\<not> ls_stop_on_entry spec \<longrightarrow> out = LRunning) \<and>
    (ls_stop_on_entry spec \<longrightarrow> (\<exists>m \<in> set (emitted w'). stop_event m \<noteq> [])))"
    using room soe not_running_new
    by (intro launch_gives [OF lb co(1) assured_new [where owes = owes and p = p, OF co(2)]]) (auto simp: log)
  then obtain out w' where run: "run_launch lb spec ?w = Some (Inr out, w')"
    and out: "\<not> ls_stop_on_entry spec \<Longrightarrow> out = LRunning"
      "ls_stop_on_entry spec \<Longrightarrow> \<exists>m \<in> set (emitted w'). stop_event m \<noteq> []"
    by (auto simp: gives_def brings_def)
  have "out = launch_outcome_of (Some (hd (concat (map stop_event (emitted w')))))" if s: "ls_stop_on_entry spec"
  proof -
    from out(2) [OF s] have some: "concat (map stop_event (emitted w')) \<noteq> []" by auto
    from soe [OF s] have "not_running peer ?w" by (simp add: not_running_new)
    from launch_stop_outcome [OF lb this s run] have
      "out = launch_outcome_of (Some (hd (concat (map stop_event (emitted w')) @ [Terminated])))" .
    with some show ?thesis by (simp only: hd_append if_False)
  qed
  with run out(1) show ?thesis by blast
qed

end
