(* ===== verification/Attach_Stop.thy ===== *)
theory Attach_Stop
  imports Lldb_Progress
begin

text \<open>
  Why an attach waits for ever for a stop that has come: it registers its waiter after the attach
  response. Against a debugger that stops the program before it answers the attach, every message
  that could wake the waiter has been read by then.
\<close>

section \<open>A debugger that stops before it answers the attach\<close>

text \<open>The attach request is the second request of a connection.\<close>

definition attach_number :: i64 where
  "attach_number = 2"

definition stops_in :: "dap_message list \<Rightarrow> stop_outcome list" where
  "stops_in ms = concat (map stop_event ms)"

text \<open>
  The stream stays up, and the program stops, or ends, only in reaction to configurationDone and before
  the response to the attach.
\<close>

definition stops_before_answer :: "'p peer \<Rightarrow> bool" where
  "stops_before_answer peer \<longleftrightarrow>
     (\<forall>r p ms closes p'. peer r p = (Emits ms closes, p') \<longrightarrow> \<not> closes \<and>
        (if rq_command r = ''configurationDone'' then
           \<exists>ms1 ms2. ms = ms1 @ ms2 \<and> \<not> responded attach_number ms1 \<and> stops_in ms2 = []
         else \<not> responded attach_number ms \<and> stops_in ms = []))"

lemma stops_in_append [simp]: "stops_in (ms @ ns) = stops_in ms @ stops_in ns"
  by (simp add: stops_in_def)

lemma stops_in_Nil [simp]: "stops_in [] = []"
  by (simp add: stops_in_def)

section \<open>No stop is unread once the attach is answered\<close>

definition dones :: "'p world \<Rightarrow> nat" where
  "dones w = length (filter (\<lambda>r. rq_command r = ''configurationDone'') (wo_log w))"

text \<open>
  Before configurationDone there is neither a stop nor a response to the attach. After it the stops are in the
  part of the stream before the response.
\<close>

definition stops_first :: "nat \<Rightarrow> dap_message list \<Rightarrow> dap_message list \<Rightarrow> bool" where
  "stops_first n seen queue \<longleftrightarrow>
     (\<exists>ms1 ms2. queue = ms1 @ ms2 \<and> stops_in ms2 = [] \<and>
        (ms1 = [] \<or> \<not> responded attach_number (seen @ ms1)) \<and>
        (n = 0 \<longrightarrow> ms1 = [] \<and> \<not> responded attach_number (seen @ ms2)))"

lemma stops_firstI:
  "queue = ms1 @ ms2 \<Longrightarrow> stops_in ms2 = [] \<Longrightarrow> ms1 = [] \<or> \<not> responded attach_number (seen @ ms1) \<Longrightarrow>
     n = 0 \<longrightarrow> ms1 = [] \<and> \<not> responded attach_number (seen @ ms2) \<Longrightarrow> stops_first n seen queue"
  unfolding stops_first_def by blast

lemma stops_firstE:
  assumes "stops_first n seen queue"
  obtains ms1 ms2 where "queue = ms1 @ ms2" "stops_in ms2 = []" "ms1 = [] \<or> \<not> responded attach_number (seen @ ms1)"
    "n = 0 \<longrightarrow> ms1 = [] \<and> \<not> responded attach_number (seen @ ms2)"
  using assms unfolding stops_first_def by blast

lemma stops_first_read: "stops_first n seen (m # q) \<Longrightarrow> stops_first n (seen @ [m]) q"
proof (elim stops_firstE)
  fix ms1 ms2 assume ms: "m # q = ms1 @ ms2" "stops_in ms2 = []" "ms1 = [] \<or> \<not> responded attach_number (seen @ ms1)"
    "n = 0 \<longrightarrow> ms1 = [] \<and> \<not> responded attach_number (seen @ ms2)"
  show ?thesis
  proof (cases ms1)
    case Nil
    with ms show ?thesis by (intro stops_firstI [of _ "[]" q]) (auto simp: stops_in_def)
  next
    case (Cons x xs)
    with ms show ?thesis by (intro stops_firstI [of _ xs ms2]) auto
  qed
qed

lemma stops_first_append:
  assumes "stops_first n seen queue" "\<not> responded attach_number ms" "stops_in ms = []"
  shows "stops_first n seen (queue @ ms)"
  using assms by (elim stops_firstE, intro stops_firstI [of _ _ "_ @ ms"]) (auto simp: responded_append)

lemma stops_first_done:
  assumes "stops_first 0 seen queue" "\<not> responded attach_number ms1" "stops_in ms2 = []"
  shows "stops_first (Suc 0) seen (queue @ ms1 @ ms2)"
  using assms by (elim stops_firstE, intro stops_firstI [of _ "queue @ ms1" ms2]) (auto simp: responded_append)

definition stop_precedes :: "'p peer \<Rightarrow> 'p world \<Rightarrow> bool" where
  "stop_precedes peer w \<longleftrightarrow> stops_before_answer peer \<and> world_ok w \<and> answers (wo_client w) \<subseteq> set (wo_seen w) \<and>
     (dones w \<le> 1 \<longrightarrow> \<not> wo_eof w \<and> stops_first (dones w) (wo_seen w) (wo_queue w))"

lemma dispatch_answers: "answers (dispatch_message m c) \<subseteq> insert m (answers c)"
proof (cases m)
  case (MResponse r)
  then show ?thesis
    by (auto simp: answers_def dispatch_response_fields split: option.splits
        dest!: subsetD [OF set_update_subset_insert])
next
  case (MEvent e)
  have "cl_responses (dispatch_event e c) = cl_responses c"
    by (cases e) (simp_all add: stop_fields stop_deliver_def stop_deliver_exit_def stop_cancel_def)
  with MEvent show ?thesis by (auto simp: answers_def)
qed auto

lemma recover_answers: "answers (recover e c) \<subseteq> answers c"
proof -
  have *: "set (fold (\<lambda>t cs. cell_send t (Inl err) cs) ts cs) \<subseteq> insert (Delivered (Inl err)) (set cs)" for err ts and cs :: "pending_result cell list"
    by (induction ts arbitrary: cs) (auto simp: cell_send_def dest!: subsetD [OF set_update_subset_insert])
  have "cl_responses (recover e c) = cl_responses (cancel_all_pending Closed (snd (close_once e c)))"
    using stop_fields by (simp add: recover_def stop_cancel_def)
  then show ?thesis
    using * [of Closed "map snd (cl_pending c)" "cl_responses c"] by (auto simp: answers_def cancel_all_pending_def Let_def close_once_def)
qed

lemma precedes_read: "stop_precedes peer w \<Longrightarrow> stop_precedes peer (read_one w)"
proof -
  assume w: "stop_precedes peer w"
  then have ok: "world_ok (read_one w)" by (simp add: stop_precedes_def read_one_ok)
  have log: "dones (read_one w) = dones w" by (simp add: dones_def read_one_log)
  show ?thesis
  proof (cases "wo_queue w")
    case Nil
    with w ok log recover_answers [of WEof "wo_client w"] show ?thesis
      by (auto simp: stop_precedes_def read_one_def)
  next
    case (Cons m q)
    have v: "wo_seen (read_one w) = wo_seen w @ [m]" "wo_queue (read_one w) = q" "wo_eof (read_one w) = wo_eof w"
      "wo_client (read_one w) = dispatch_message m (wo_client w)"
      using Cons by (simp_all add: read_one_def)
    have ans: "answers (wo_client (read_one w)) \<subseteq> set (wo_seen (read_one w))"
      using w dispatch_answers [of m "wo_client w"] by (auto simp: v stop_precedes_def)
    with w ok Cons show ?thesis by (auto simp: stop_precedes_def v log intro: stops_first_read)
  qed
qed

lemma precedes_emit: "stop_precedes peer w \<Longrightarrow> stop_precedes peer (snd (emit peer (set_seq sq r) r w))"
proof -
  let ?st = "set_seq sq r"
  assume w: "stop_precedes peer w"
  obtain a p where p: "peer ?st (wo_peer w) = (a, p)" by fastforce
  let ?v = "snd (emit peer ?st r w)"
  have ok: "world_ok ?v" "answers (wo_client ?v) \<subseteq> set (wo_seen ?v)"
    using w by (simp_all add: stop_precedes_def emit_ok emit_fields)
  have cmd: "rq_command ?st = rq_command r" by (simp add: set_seq_def)
  have dones: "dones ?v = (if rq_command r = ''configurationDone'' then Suc (dones w) else dones w)"
    using emit_log [of peer ?st r w "fst (emit peer ?st r w)" ?v] by (simp add: dones_def)
  show ?thesis
  proof (cases a)
    case (WriteFails e)
    with p have v: "wo_queue ?v = wo_queue w" "wo_eof ?v = wo_eof w" "wo_seen ?v = wo_seen w" by (simp_all add: emit_def)
    show ?thesis using w ok unfolding stop_precedes_def v dones
      using stops_first_done [of "wo_seen w" "wo_queue w" "[]" "[]"] by (auto split: if_splits)
  next
    case (Emits ms closes)
    have peer: "stops_before_answer peer" using w by (simp add: stop_precedes_def)
    from peer [unfolded stops_before_answer_def, rule_format, OF p [unfolded Emits]]
    have ms: "\<not> closes" "if rq_command r = ''configurationDone'' then
           \<exists>ms1 ms2. ms = ms1 @ ms2 \<and> \<not> responded attach_number ms1 \<and> stops_in ms2 = []
         else \<not> responded attach_number ms \<and> stops_in ms = []" by (simp_all add: cmd)
    have "\<not> wo_eof ?v \<and> stops_first (dones ?v) (wo_seen ?v) (wo_queue ?v)" if le: "dones ?v \<le> 1"
    proof -
      from le dones w have old: "\<not> wo_eof w" "stops_first (dones w) (wo_seen w) (wo_queue w)"
        by (auto simp: stop_precedes_def split: if_splits)
      have v: "\<not> wo_eof ?v" "wo_queue ?v = wo_queue w @ ms" "wo_seen ?v = wo_seen w"
        using p Emits ms(1) old(1) by (simp_all add: emit_def)
      show ?thesis
      proof (cases "rq_command r = ''configurationDone''")
        case False
        with ms(2) old v dones stops_first_append show ?thesis by simp
      next
        case True
        with le dones have "dones w = 0" "dones ?v = Suc 0" by simp_all
        with True ms(2) old v stops_first_done show ?thesis by auto
      qed
    qed
    with ok peer show ?thesis by (simp add: stop_precedes_def)
  qed
qed

lemma precedes_lag: "stop_precedes peer w \<Longrightarrow> stop_precedes peer (w\<lparr>wo_lag := l\<rparr>)"
  by (simp add: stop_precedes_def dones_def world_ok_def)

lemma precedes_client:
  "stop_precedes peer w \<Longrightarrow> client_ok c \<Longrightarrow> quiet_call (wo_client w) c \<Longrightarrow> stop_precedes peer (w\<lparr>wo_client := c\<rparr>)"
  by (auto simp: stop_precedes_def dones_def world_ok_def quiet_call_def)

lemma precedes_ok: "stop_precedes peer w \<Longrightarrow> world_ok w"
  by (simp add: stop_precedes_def)

interpretation preceding: world_invariant "stop_precedes peer" peer "\<lambda>_. True" for peer
  by unfold_locales
    (rule precedes_ok precedes_read precedes_lag precedes_client precedes_emit; assumption)+


section \<open>The cell of the attach\<close>

definition numbered :: "nat \<Rightarrow> 'p world \<Rightarrow> bool" where
  "numbered n w \<longleftrightarrow> world_ok w \<and> n \<le> length (cl_responses (wo_client w))"

lemma dispatch_cells: "length (cl_responses (dispatch_message m c)) = length (cl_responses c)"
proof (cases m)
  case (MEvent e)
  with dispatch_event_requests [of e c] show ?thesis by simp
qed (simp_all add: dispatch_response_fields split: option.split)

lemma recover_cells: "length (cl_responses (recover e c)) = length (cl_responses c)"
  using stop_fields by (simp add: recover_def stop_cancel_def cancel_all_fields)

lemma read_cells: "length (cl_responses (wo_client (read_one w))) = length (cl_responses (wo_client w))"
  by (simp add: read_one_def dispatch_cells recover_cells split: list.split)

lemma reads_cells: "length (cl_responses (wo_client ((read_one ^^ n) w))) = length (cl_responses (wo_client w))"
  by (induction n) (simp_all add: read_cells)

lemma tick_cells: "length (cl_responses (wo_client (tick w))) = length (cl_responses (wo_client w))"
  by (simp add: tick_def reads_cells split: list.split)

lemma wait_cells: "wait_until P w = Some v \<Longrightarrow> length (cl_responses (wo_client v)) = length (cl_responses (wo_client w))"
  using wait_steps_Some reads_cells unfolding wait_until_def by metis

lemma send_async_cells:
  assumes "world_send_async sj peer r w = (x, v)"
  shows "length (cl_responses (wo_client v)) = Suc (length (cl_responses (wo_client w)))"
    and "x = Inr t \<Longrightarrow> t = length (cl_responses (wo_client w))"
proof -
  obtain u sq st c where s: "send_start r (wo_client (tick w)) = ((u, sq, st), c)" by (metis prod.exhaust)
  obtain failed w1 where e: "emit peer st r ((tick w)\<lparr>wo_client := c\<rparr>) = (failed, w1)" by fastforce
  have u: "u = length (cl_responses (wo_client w))" "length (cl_responses c) = Suc u"
    using send_start_fields(3,4) [of r "wo_client (tick w)"] by (simp_all add: s tick_cells)
  have "wo_client w1 = c" using emit_fields(1) [of peer st r "(tick w)\<lparr>wo_client := c\<rparr>"] by (simp add: e)
  with assms s e u show "length (cl_responses (wo_client v)) = Suc (length (cl_responses (wo_client w)))"
    "x = Inr t \<Longrightarrow> t = length (cl_responses (wo_client w))"
    by (auto simp: world_send_async_def Let_def send_written_def abort_pending_fields split: option.splits)
qed

interpretation counted: world_invariant "numbered n" peer "\<lambda>_. True" for n peer
  by unfold_locales
    (auto simp: numbered_def read_one_ok read_cells emit_ok emit_fields quiet_call_def, auto simp: world_ok_def)

lemma send_cells:
  "world_send sj peer r w = Some (x, v) \<Longrightarrow>
     length (cl_responses (wo_client v)) = Suc (length (cl_responses (wo_client w)))"
  by (auto simp: world_send_def world_await_def tick_cells dest!: send_async_cells(1) wait_cells
      split: prod.splits sum.splits)

lemma initialize_cells:
  assumes "lb_transport lb = dap_transport sj peer"
  shows "post (be_initialize lb) w (\<lambda>_ v. length (cl_responses (wo_client v)) = Suc (length (cl_responses (wo_client w))))"
proof -
  have "post (world_send sj peer req_initialize) w (\<lambda>_ v. length (cl_responses (wo_client v)) = Suc (length (cl_responses (wo_client w))))"
    by (simp add: post_def send_cells)
  then show ?thesis
    unfolding be_initialize_def assms
    by (intro post_try post_with_err)
      (auto simp: dap_transport_def check_response_def elim!: post_mono
        intro!: post_try post_check post_ret split: sum.split)
qed

section \<open>The attach up to its response\<close>

text \<open>What \<^const>\<open>run_attach\<close> does until the debugger has accepted the attach.\<close>

definition attach_answered :: "'t lldb_backend \<Rightarrow> attach_spec \<Rightarrow> ('t, backend_error + response) proc" where
  "attach_answered lb spec =
     try_then (be_initialize lb) (\<lambda>_.
     try_then (with_err (\<lambda>e. Dap (''attach request failed: '' @ show_backend_error e))
                 (tr_send_async (lb_transport lb) (attach_request_of spec))) (\<lambda>attach_rx.
     seq (tr_wait_initialized (lb_transport lb)) (\<lambda>_.
     try_then (send_unchecked lb ''setExceptionBreakpoints'' req_set_exception_breakpoints) (\<lambda>_.
     try_then (send_unchecked lb ''configurationDone'' req_configuration_done) (\<lambda>_.
       await_deferred lb ''attach'' attach_rx)))))"

lemma run_attach_split:
  "run_attach lb spec =
     try_then (attach_answered lb spec) (\<lambda>_.
     seq (register_if True lb) (\<lambda>waiter.
     seq (tr_stop_await (lb_transport lb) (the waiter)) (\<lambda>oo. ret (Inr (attach_outcome_of oo)))))"
  by (simp add: run_attach_def attach_finish_def attach_answered_def try_try try_seq try_ret)


lemma answered_log:
  assumes tr: "lb_transport lb = dap_transport sj peer"
  shows "sends wo_log (attach_requests spec) (attach_answered lb spec)"
proof -
  have "sends wo_log ([req_initialize] @ [attach_request_of spec] @ [req_set_exception_breakpoints] @
      [req_configuration_done] @ []) (attach_answered lb spec)"
    unfolding attach_answered_def
    by (intro sends_try sends_seq dap_log.sends_initialize [OF tr] sends_with_err dap_log.sends_unchecked [OF tr]
        quiet_sends dap_log.quiet_deferred [OF tr])
      (simp_all add: tr dap_log.sends_send dap_log.quiet_calls)
  then show ?thesis by (simp add: attach_requests_def)
qed

lemma answered_keeps:
  "lb_transport lb = dap_transport sj peer \<Longrightarrow> preceding.keeps peer (attach_answered lb spec)"
  unfolding attach_answered_def
  by (intro preceding.keeps_try preceding.keeps_seq preceding.keeps_with_err preceding.keeps_initialize
      preceding.keeps_unchecked preceding.keeps_deferred)
    (simp_all add: dap_transport_def preceding.keeps_send_async preceding.keeps_wait_initialized)

text \<open>The response that was accepted answers the attach, and has been read.\<close>

definition attach_read :: "'p world \<Rightarrow> bool" where
  "attach_read w \<longleftrightarrow> (\<exists>m. numbered 2 w \<and> cl_responses (wo_client w) ! 1 = Delivered (Inr m))"

lemma await_delivers:
  assumes "world_await t w = Some (Some (Inr m), v)"
  shows "cl_responses (wo_client v) ! t = Delivered (Inr m)"
  using assms by (auto simp: world_await_def split: cell.splits)

lemma deferred_read:
  assumes lb: "lb_transport lb = dap_transport sj peer" and w: "numbered 2 w"
  shows "post (await_deferred lb op 1) w (\<lambda>r v. \<not> isl r \<longrightarrow> attach_read v)"
proof -
  have "post (case res of None \<Rightarrow> ret (Inl Closed)
      | Some (Inl e) \<Rightarrow> ret (Inl (Dap (op @ '' request failed: '' @ show_backend_error e)))
      | Some (Inr m) \<Rightarrow> check_response lb op op m) v (\<lambda>r v. \<not> isl r \<longrightarrow> attach_read v)"
    if run: "world_await 1 w = Some (res, v)" for res v
  proof (cases "\<exists>m. res = Some (Inr m)")
    case True
    then obtain m where m: "res = Some (Inr m)" by blast
    from await_delivers [OF run [unfolded m]] counted.keepsD [OF counted.keeps_await w run] have "attach_read v"
      unfolding attach_read_def by blast
    with m show ?thesis by (simp add: check_response_def post_check)
  qed (auto intro!: post_ret split: option.split sum.split)
  then show ?thesis
    unfolding await_deferred_def lb by (intro post_seq) (simp add: dap_transport_def post_def)
qed

lemma counted_post: "counted.keeps n p \<Longrightarrow> numbered n w \<Longrightarrow> post p w (\<lambda>_. numbered n)"
  by (simp add: counted.keeps_def)

lemma answered_reads:
  fixes w :: "'p world"
  assumes lb: "lb_transport lb = dap_transport sj peer" and w: "numbered 0 w" "cl_responses (wo_client w) = []"
  shows "post (attach_answered lb spec) w (\<lambda>r v. \<not> isl r \<longrightarrow> attach_read v)"
proof -
  let ?Q = "\<lambda>r v. \<not> isl r \<longrightarrow> attach_read v"
  have final: "post (try_then (send_unchecked lb a r) (\<lambda>_. try_then (send_unchecked lb b r')
      (\<lambda>_. await_deferred lb op 1))) v ?Q" if "numbered 2 v" for a b op r r' and v :: "'p world"
    using that by (intro post_try post_mono [OF counted_post [OF counted.keeps_unchecked [OF lb TrueI]]])
      (auto split: sum.split intro!: post_try post_mono [OF counted_post [OF counted.keeps_unchecked [OF lb TrueI]]] deferred_read [OF lb, simplified])
  have rest: "post (seq (tr_wait_initialized (lb_transport lb)) (\<lambda>_. try_then (send_unchecked lb a r)
      (\<lambda>_. try_then (send_unchecked lb b r') (\<lambda>_. await_deferred lb op 1)))) v ?Q"
    if "numbered 2 v" for a b op r r' and v :: "'p world"
    using that by (intro post_seq post_mono [OF counted_post [of 2]] final)
      (simp_all add: lb dap_transport_def counted.keeps_wait_initialized)
  have sent: "post (tr_send_async (lb_transport lb) r) v (\<lambda>x v'. numbered 2 v' \<and> (\<forall>t. x = Inr t \<longrightarrow> t = 1))"
    if v: "numbered 0 v" "length (cl_responses (wo_client v)) = 1" for r and v :: "'p world"
  proof -
    obtain x v' where x: "world_send_async sj peer r v = (x, v')" by fastforce
    have "numbered 0 v'" using counted.I_send_async [OF v(1) TrueI x] .
    with send_async_cells [OF x] v(2) x show ?thesis
      by (auto simp: lb dap_transport_def post_def numbered_def)
  qed
  have init: "post (be_initialize lb) w (\<lambda>_ v. numbered 0 v \<and> length (cl_responses (wo_client v)) = 1)"
    using initialize_cells [OF lb, of w] counted_post [OF counted.keeps_initialize [OF lb TrueI] w(1)] w(2)
    by (simp add: post_def)
  have attach: "post (try_then (with_err g (tr_send_async (lb_transport lb) r0)) (\<lambda>rx.
      seq (tr_wait_initialized (lb_transport lb)) (\<lambda>_. try_then (send_unchecked lb a r)
      (\<lambda>_. try_then (send_unchecked lb b r') (\<lambda>_. await_deferred lb op rx))))) v ?Q"
    if v: "numbered 0 v" "length (cl_responses (wo_client v)) = 1" for a b op r r' r0 g and v :: "'p world"
  proof (intro post_try post_with_err post_mono [OF sent [OF v]])
    fix x :: "backend_error + nat" and v' :: "'p world" assume "numbered 2 v' \<and> (\<forall>t. x = Inr t \<longrightarrow> t = 1)"
    then show "case map_err g x of Inl e \<Rightarrow> ?Q (Inl e) v'
      | Inr rx \<Rightarrow> post (seq (tr_wait_initialized (lb_transport lb)) (\<lambda>_. try_then (send_unchecked lb a r)
          (\<lambda>_. try_then (send_unchecked lb b r') (\<lambda>_. await_deferred lb op rx)))) v' ?Q"
      using rest by (cases x) auto
  qed
  show ?thesis
    unfolding attach_answered_def by (intro post_try post_mono [OF init]) (auto split: sum.split intro: attach)
qed

lemma no_stop_unread:
  assumes lb: "lb_transport lb = dap_transport sj peer" and s: "stops_before_answer peer"
    and run: "attach_answered lb spec (world_new p lag) = Some (Inr q, v)"
  shows "world_ok v \<and> \<not> wo_eof v \<and> stops_in (wo_queue v) = []"
proof -
  let ?w = "world_new p lag"
  have ok: "world_ok ?w" by (simp add: world_new_def world_ok_def client_ok_new) (simp add: client_new_def)
  have "stops_first 0 [] []" by (rule stops_firstI [of _ "[]" "[]"]) simp_all
  with s ok have "stop_precedes peer ?w"
    by (simp add: stop_precedes_def) (simp add: world_new_def answers_def dones_def client_new_def)
  from preceding.keepsD [OF answered_keeps [OF lb] this run] have v: "stop_precedes peer v" .
  have "numbered 0 ?w" "cl_responses (wo_client ?w) = []" using ok by (simp_all add: numbered_def world_new_def client_new_def)
  from postD [OF answered_reads [OF lb this] run] obtain m where m: "2 \<le> length (cl_responses (wo_client v))"
    "cl_responses (wo_client v) ! 1 = Delivered (Inr m)" by (auto simp: attach_read_def numbered_def)
  from v have c: "client_ok (wo_client v)" by (simp add: stop_precedes_def world_ok_def)
  have "cl_made_for (wo_client v) ! 1 = attach_number"
    using c m(1) by (simp add: client_ok_def seq_ok_def pending_ok_def attach_number_def wrap_i64_def)
  moreover have "answers_ok (wo_client v)" using c by (simp add: client_ok_def)
  then have "\<exists>r. m = MResponse r \<and> re_request_seq r = cl_made_for (wo_client v) ! 1"
    using m unfolding answers_ok_def by force
  moreover have "m \<in> set (wo_seen v)"
  proof -
    have "Delivered (Inr m) \<in> set (cl_responses (wo_client v))" using m nth_mem [of 1 "cl_responses (wo_client v)"] by simp
    with v show ?thesis by (auto simp: stop_precedes_def answers_def)
  qed
  ultimately have seen: "responded attach_number (wo_seen v)" by (auto simp: responded_def)
  from sendsE [OF answered_log [OF lb] run] obtain k where "wo_log v = attach_requests spec"
    by (metis append_Nil isl_def sum.disc(2) take_all_iff world_new_def world.select_convs(6))
  then have "dones v = 1"
    by (simp add: dones_def attach_requests_def) (simp add: req_configuration_done_def request_new_def)
  with v have "\<not> wo_eof v" "stops_first 1 (wo_seen v) (wo_queue v)" by (simp_all add: stop_precedes_def)
  with seen v show ?thesis
    by (auto simp: responded_append stop_precedes_def elim: stops_firstE)
qed


section \<open>The wait\<close>

definition silent :: "'p peer" where
  "silent r p = (WriteFails WEof, p)"

lemma wait_in_vain:
  assumes lb: "lb_transport lb = dap_transport sj peer" and v: "world_ok v" "\<not> wo_eof v" "stops_in (wo_queue v) = []"
  shows "seq (register_if True lb) (\<lambda>waiter. seq (tr_stop_await (lb_transport lb) (the waiter)) f) v = None"
proof -
  have quiet: "no_stop_coming silent v" using v by (simp add: no_stop_coming_def never_stops_def silent_def stops_in_def)
  have "register_if True lb v = register_if True (lldb_over sj b64 silent True) v"
    by (simp add: register_if_def lb dap_transport_def)
  with register_in_vain [OF lldb_over_transport quiet] obtain t v'
    where "register_if True lb v = Some (Some t, v')" "waiting_in_vain silent t v'"
    by (fastforce simp: post_def register_if_def lb dap_transport_def world_stop_register_def Let_def split: prod.splits)
  moreover from this(2) have "world_stop_await t v' = None" by (rule await_in_vain)
  ultimately show ?thesis by (simp add: seq_def lb dap_transport_def)
qed

text \<open>
  C33. An attach never reports a stop that comes before the answer to the attach: if the program stops (or
  ends) after configurationDone but before the debugger answers the attach, and the stream stays up, then
  once the attach is answered it waits for ever. What it can return is an error of the steps up to the answer.
\<close>

theorem attach_misses_its_stop:
  assumes "stops_before_answer peer"
  shows "run_attach (lldb_over sj b64 peer d) aspec (world_new p lag) =
    (case attach_answered (lldb_over sj b64 peer d) aspec (world_new p lag) of
       None \<Rightarrow> None
     | Some (Inl e, w) \<Rightarrow> Some (Inl e, w)
     | Some (Inr _, _) \<Rightarrow> None)"
proof (cases "attach_answered (lldb_over sj b64 peer d) aspec (world_new p lag)")
  case None
  then show ?thesis by (simp add: run_attach_split try_then_def seq_def)
next
  case (Some rw)
  obtain r w where rw: "attach_answered (lldb_over sj b64 peer d) aspec (world_new p lag) = Some (r, w)"
    using Some by (cases rw) simp
  show ?thesis
  proof (cases r)
    case (Inl e)
    with rw show ?thesis by (simp add: run_attach_split try_then_def seq_def ret_def)
  next
    case (Inr q)
    from no_stop_unread [OF lldb_over_transport assms rw [unfolded Inr]]
      wait_in_vain [OF lldb_over_transport, of w sj b64 peer d "\<lambda>oo. ret (Inr (attach_outcome_of oo))"] rw Inr
    show ?thesis by (simp add: run_attach_split try_then_def) (simp add: seq_def [of "attach_answered _ _"])
  qed
qed

text \<open>
  A debugger that answers the second request of the connection, the attach, only after
  configurationDone, as lldb-dap does, and reports the stop first. An attach to it hangs, although it
  has accepted everything; a launch with stop on entry reports the stop.
\<close>

definition prompt :: "unit peer" where
  "prompt r p =
     (Emits (if rq_seq r = 2 then [MEvent EvInitialized]
             else if rq_command r = ''configurationDone'' then
               [MEvent (EvStopped entry_stop), ok_response 2 ''attach'', ok_response (rq_seq r) (rq_command r)]
             else [ok_response (rq_seq r) (rq_command r)]) False, p)"

lemma prompt_stops_first: "stops_before_answer prompt"
proof -
  have "\<exists>ms1 ms2. MEvent (EvStopped entry_stop) # ms = ms1 @ ms2 \<and> \<not> responded attach_number ms1 \<and> stops_in ms2 = []"
    if "stops_in ms = []" for ms
    using that by (intro exI [of _ "[MEvent (EvStopped entry_stop)]"] exI [of _ ms]) (simp add: responded_Cons)
  moreover have "\<exists>ms1 ms2. [MEvent EvInitialized] = ms1 @ ms2 \<and> \<not> responded attach_number ms1 \<and> stops_in ms2 = []"
    by (intro exI [of _ "[]"] exI [of _ "[MEvent EvInitialized]"]) (simp add: stops_in_def)
  ultimately show ?thesis
    by (auto simp: stops_before_answer_def prompt_def stops_in_def responded_Cons ok_response_def attach_number_def)
qed

lemma prompt_accepts:
  "map_option (\<lambda>(r, _). isl r) (attach_answered (sample_backend prompt) sample_attach (world_new () sample_lag)) = Some False"
  by code_simp

theorem attach_misses_its_stop_witness:
  "run_attach (sample_backend prompt) sample_attach (world_new () sample_lag) = None \<and>
   map_option fst (run_launch (sample_backend prompt) sample_spec (world_new () sample_lag)) =
     Some (Inr (LStopped (stop_info_from_event entry_stop)))"
proof
  obtain r w where r: "attach_answered (sample_backend prompt) sample_attach (world_new () sample_lag) = Some (r, w)" "\<not> isl r"
    using prompt_accepts by auto
  then obtain q where "r = Inr q" by (cases r) simp_all
  with r(1) attach_misses_its_stop [OF prompt_stops_first]
  show "run_attach (sample_backend prompt) sample_attach (world_new () sample_lag) = None"
    unfolding sample_backend_def by simp
qed code_simp

end
