(* ===== verification/Tool_Args.thy ===== *)
theory Tool_Args
  imports Debugger_Core Serde
begin

text \<open>
  \<^verbatim>\<open>mcp-tools/src/args.rs\<close>, \<^verbatim>\<open>response.rs\<close> and \<^verbatim>\<open>errors.rs\<close>: reading the arguments of a tool call,
  the outcome of a handler with its object builder, and the rendering of backend errors per call
  site. What comes from the JSON text library and from the Unicode tables is the record \<open>text_env\<close>.
\<close>

record text_env =
  te_parse :: "string \<Rightarrow> json_error + json"
  te_show_json :: "json_error \<Rightarrow> string"
  te_lower :: "string \<Rightarrow> string"

section \<open>Outcomes\<close>

datatype tool_outcome = Json json | Text string | Error string

definition is_error :: "tool_outcome \<Rightarrow> bool" where
  "is_error out \<longleftrightarrow> (case out of Error _ \<Rightarrow> True | _ \<Rightarrow> False)"

text \<open>\<^verbatim>\<open>RespBuilder\<close>: an object under construction.\<close>

type_synonym resp_builder = jmap

definition resp_new :: resp_builder where "resp_new = []"

definition resp_set :: "string \<Rightarrow> json \<Rightarrow> resp_builder \<Rightarrow> resp_builder" where
  "resp_set key v m = bt_insert key v m"

definition resp_set_opt :: "string \<Rightarrow> json option \<Rightarrow> resp_builder \<Rightarrow> resp_builder" where
  "resp_set_opt key ov m = (case ov of None \<Rightarrow> m | Some v \<Rightarrow> bt_insert key v m)"

definition resp_set_if :: "bool \<Rightarrow> string \<Rightarrow> json \<Rightarrow> resp_builder \<Rightarrow> resp_builder" where
  "resp_set_if c key v m = (if c then bt_insert key v m else m)"

definition resp_build :: "resp_builder \<Rightarrow> json" where
  "resp_build m = JObj m"

definition into_outcome :: "resp_builder \<Rightarrow> tool_outcome" where
  "into_outcome m = Json (resp_build m)"

lemma resp_get [simp]:
  "bt_get resp_new k = None"
  "bt_get (resp_set key v m) k = (if k = key then Some v else bt_get m k)"
  "bt_get (resp_set_opt key ov m) k = (if k = key \<and> ov \<noteq> None then ov else bt_get m k)"
  "bt_get (resp_set_if c key v m) k = (if c \<and> k = key then Some v else bt_get m k)"
  by (auto simp: resp_new_def resp_set_def resp_set_opt_def resp_set_if_def split: option.split)

section \<open>Arguments\<close>

text \<open>A name between single quotes.\<close>

definition quoted :: "string \<Rightarrow> string" where
  "quoted s = CHR 0x27 # s @ [CHR 0x27]"

type_synonym args = jmap

definition get_raw :: "args \<Rightarrow> string \<Rightarrow> json option" where
  "get_raw a key = bt_get a key"

definition missing_required :: "string \<Rightarrow> string" where
  "missing_required detail = ''missing required parameter: '' @ detail"

definition not_found_msg :: "string \<Rightarrow> string" where
  "not_found_msg key = ''required argument \"'' @ key @ ''\" not found''"

definition not_of_type :: "string \<Rightarrow> string \<Rightarrow> string" where
  "not_of_type key ty = ''argument \"'' @ key @ ''\" is not of type '' @ ty"

definition require_string :: "args \<Rightarrow> string \<Rightarrow> string + string" where
  "require_string a key =
     (case bt_get a key of
        None \<Rightarrow> Inl (missing_required (not_found_msg key))
      | Some (JStr s) \<Rightarrow> Inr s
      | Some _ \<Rightarrow> Inl (missing_required (not_of_type key ''string'')))"

definition require_int :: "args \<Rightarrow> string \<Rightarrow> string + i64" where
  "require_int a key =
     (case bt_get a key of
        None \<Rightarrow> Inl (missing_required (not_found_msg key))
      | Some v \<Rightarrow>
          (case json_as_f64 v of
             Some f \<Rightarrow> Inr (f64_as_i64 f)
           | None \<Rightarrow> Inl (missing_required (not_of_type key ''int''))))"

definition get_string :: "args \<Rightarrow> string \<Rightarrow> string \<Rightarrow> string" where
  "get_string a key dft = (case bt_get a key of Some (JStr s) \<Rightarrow> s | _ \<Rightarrow> dft)"

definition get_bool :: "args \<Rightarrow> string \<Rightarrow> bool \<Rightarrow> bool" where
  "get_bool a key dft = (case bt_get a key of Some (JBool b) \<Rightarrow> b | _ \<Rightarrow> dft)"

definition get_f64 :: "args \<Rightarrow> string \<Rightarrow> f64 option" where
  "get_f64 a key = (case bt_get a key of None \<Rightarrow> None | Some v \<Rightarrow> json_as_f64 v)"

definition explicit_positive_thread_id :: "args \<Rightarrow> string + i64 option" where
  "explicit_positive_thread_id a =
     (case get_raw a ''thread_id'' of
        None \<Rightarrow> Inr None
      | Some JNull \<Rightarrow> Inr None
      | Some v \<Rightarrow>
          (case json_as_f64 v of
             None \<Rightarrow> Inr None
           | Some f \<Rightarrow>
               let tid = f64_as_i64 f in
               if tid \<le> 0 then Inl (quoted ''thread_id'' @ '' must be a positive integer'') else Inr (Some tid)))"

definition require_positive_int :: "args \<Rightarrow> string \<Rightarrow> string + i64" where
  "require_positive_int a key =
     and_then (require_int a key) (\<lambda>n.
       if n \<le> 0 then Inl (quoted key @ '' must be a positive integer'') else Inr n)"

definition parse_json_array :: "text_env \<Rightarrow> args \<Rightarrow> string \<Rightarrow> string + string list" where
  "parse_json_array te a key =
     (case bt_get a key of
        None \<Rightarrow> Inr []
      | Some JNull \<Rightarrow> Inr []
      | Some (JStr s) \<Rightarrow>
          map_err (\<lambda>e. ''failed to parse '' @ quoted key @ '' as JSON array: '' @ te_show_json te e)
            (and_then (te_parse te s) (dec_vec dec_string))
      | Some _ \<Rightarrow>
          Inl (quoted key @ '' must be a JSON array string, e.g. '' @ quoted ''[\"--flag\", \"value\"]''))"

fun json_type_name :: "json \<Rightarrow> string" where
  "json_type_name JNull = ''null''"
| "json_type_name (JBool _) = ''bool''"
| "json_type_name (JNum _) = ''number''"
| "json_type_name (JStr _) = ''string''"
| "json_type_name (JArr _) = ''array''"
| "json_type_name (JObj _) = ''object''"

text \<open>\<^verbatim>\<open>serde_json::from_str::<Map<_, _>>\<close>: a repeated key keeps its last value.\<close>

definition parse_map :: "text_env \<Rightarrow> string \<Rightarrow> json_error + jmap" where
  "parse_map te s =
     and_then (te_parse te s) (\<lambda>v. case v of JObj kvs \<Rightarrow> Inr (bt_of_list kvs) | _ \<Rightarrow> Inl (InvalidType ''map''))"

fun string_entries :: "string \<Rightarrow> (string \<times> json) list \<Rightarrow> string + (string \<times> string) list" where
  "string_entries key [] = Inr []"
| "string_entries key ((k, v) # kvs) =
     (case v of
        JStr s \<Rightarrow> map_ok (\<lambda>out. (k, s) # out) (string_entries key kvs)
      | _ \<Rightarrow> Inl (''failed to parse '' @ quoted key @ '' as JSON object: cannot unmarshal '' @
                json_type_name v @ '' into Go value of type string''))"

definition parse_json_object :: "text_env \<Rightarrow> args \<Rightarrow> string \<Rightarrow> string + (string \<times> string) list" where
  "parse_json_object te a key =
     (case bt_get a key of
        None \<Rightarrow> Inr []
      | Some JNull \<Rightarrow> Inr []
      | Some (JStr s) \<Rightarrow>
          (case parse_map te s of
             Inl e \<Rightarrow> Inl (''failed to parse '' @ quoted key @ '' as JSON object: '' @ te_show_json te e)
           | Inr m \<Rightarrow> string_entries key m)
      | Some _ \<Rightarrow>
          Inl (quoted key @ '' must be a JSON object string, e.g. '' @ quoted ''{\"KEY\": \"value\"}''))"

section \<open>Backend errors per call site\<close>

record op_error =
  ope_request_failed :: string
  ope_unexpected :: string
  ope_failed :: string

definition render_dap :: "op_error \<Rightarrow> string \<Rightarrow> string" where
  "render_dap op_e message =
     (case after_first '' request failed: '' message of
        Some inner \<Rightarrow> ope_request_failed op_e @ inner
      | None \<Rightarrow>
          (case after_first '' failed: '' message of
             Some inner \<Rightarrow> ope_failed op_e @ inner
           | None \<Rightarrow> message))"

definition protocol_label :: "string \<Rightarrow> string" where
  "protocol_label ty = (case split_once (CHR '':'') ty of Some (_, rest) \<Rightarrow> rest | None \<Rightarrow> ty)"

fun render :: "op_error \<Rightarrow> backend_error \<Rightarrow> string" where
  "render op_e (Send inner) = ope_request_failed op_e @ inner"
| "render op_e Closed = ope_request_failed op_e @ ''connection closed''"
| "render op_e Timeout = ope_request_failed op_e @ ''operation timed out''"
| "render op_e (Detect m) = ope_request_failed op_e @ m"
| "render op_e (Spawn m) = ope_request_failed op_e @ m"
| "render op_e (Dap message) = render_dap op_e message"
| "render op_e (Protocol ty) = ope_unexpected op_e @ protocol_label ty"

text \<open>Most call sites use one verb for the three templates.\<close>

definition op_verb :: "string \<Rightarrow> op_error" where
  "op_verb verb =
     \<lparr>ope_request_failed = verb @ '' request failed: '',
      ope_unexpected = ''unexpected '' @ verb @ '' response type: '',
      ope_failed = verb @ '' failed: ''\<rparr>"

definition CONTINUE :: op_error where "CONTINUE = op_verb ''continue''"
definition STEP_OVER :: op_error where "STEP_OVER = op_verb ''step over''"
definition STEP_INTO :: op_error where "STEP_INTO = op_verb ''step into''"
definition STEP_OUT :: op_error where "STEP_OUT = op_verb ''step out''"
definition PAUSE :: op_error where "PAUSE = op_verb ''pause''"
definition SET_BREAKPOINTS :: op_error where "SET_BREAKPOINTS = op_verb ''setBreakpoints''"

definition SET_FUNCTION_BREAKPOINTS :: op_error where
  "SET_FUNCTION_BREAKPOINTS =
     \<lparr>ope_request_failed = ''setFunctionBreakpoints request failed: '',
      ope_unexpected = ''unexpected response type: '',
      ope_failed = ''setFunctionBreakpoints failed: ''\<rparr>"

definition STACK_TRACE :: op_error where "STACK_TRACE = op_verb ''stackTrace''"
definition THREADS :: op_error where "THREADS = op_verb ''threads''"
definition SCOPES :: op_error where "SCOPES = op_verb ''scopes''"
definition EVALUATE :: op_error where "EVALUATE = op_verb ''evaluate''"
definition READ_MEMORY :: op_error where "READ_MEMORY = op_verb ''readMemory''"
definition DISASSEMBLE :: op_error where "DISASSEMBLE = op_verb ''disassemble''"

definition RUN_COMMAND :: op_error where
  "RUN_COMMAND =
     \<lparr>ope_request_failed = ''run_command request failed: '',
      ope_unexpected = ''unexpected evaluate response type: '',
      ope_failed = ''command failed: ''\<rparr>"

definition VARIABLES :: op_error where
  "VARIABLES =
     \<lparr>ope_request_failed = ''variables request failed: '',
      ope_unexpected = ''unexpected variables response type: '',
      ope_failed = ''variables request failed: ''\<rparr>"

section \<open>Facts\<close>

lemma require_int_in: "require_int a key = Inr n \<Longrightarrow> in_i64 n"
  by (auto simp: require_int_def f64_as_i64_in split: option.splits)

lemma bit_length_bounds: "2 ^ k \<le> n \<Longrightarrow> n < 2 ^ Suc k \<Longrightarrow> bit_length n = Suc k"
proof (induction k arbitrary: n)
  case 0
  then have "n = 1" by simp
  then show ?case by (simp add: bit_length.simps)
next
  case (Suc k)
  from Suc.prems have "2 ^ k \<le> n div 2" "n div 2 < 2 ^ Suc k" "n \<noteq> 0" by auto
  with Suc.IH [of "n div 2"] show ?case by (subst bit_length.simps) simp
qed

lemma bit_length_eq: "2 ^ (m - 1) \<le> n \<Longrightarrow> n < 2 ^ m \<Longrightarrow> 0 < m \<Longrightarrow> bit_length n = m"
  using bit_length_bounds [of "m - 1" n] by simp

lemma number_of_int_f64: "number_as_f64 (number_of_int n) = int_to_f64 n"
  by (simp add: number_as_f64_def number_of_int_def)

lemma require_int_jint: "bt_get a key = Some (jint n) \<Longrightarrow> \<bar>n\<bar> \<le> 2 ^ 53 \<Longrightarrow> require_int a key = Inr n"
  by (simp add: require_int_def jint_def json_as_f64_def number_of_int_f64 f64_as_i64_small)

text \<open>The error of rounding to a double is at most half a unit in the last place.\<close>

lemma bit_length_le: "0 < n \<Longrightarrow> 2 ^ (bit_length n - 1) \<le> n"
proof (induction n rule: bit_length.induct)
  case (1 n)
  show ?case
  proof (cases "n div 2 = 0")
    case True
    with 1 show ?thesis by (simp add: bit_length.simps [of n] bit_length.simps [of 0])
  next
    case False
    with 1 have "2 ^ (bit_length (n div 2) - 1) \<le> n div 2" "0 < bit_length (n div 2)"
      by (simp_all add: bit_length.simps [of "n div 2"])
    then have "2 ^ bit_length (n div 2) \<le> 2 * (n div 2)"
      by (metis One_nat_def Suc_pred mult_le_mono2 power_Suc)
    with 1 show ?thesis by (simp add: bit_length.simps [of n]) 
  qed
qed

lemma bit_length_large: "2 ^ k \<le> n \<Longrightarrow> k < bit_length n"
proof (induction k arbitrary: n)
  case 0
  then show ?case by (simp add: bit_length.simps [of n])
next
  case (Suc k)
  have "n \<noteq> 0" "2 ^ k \<le> n div 2" using Suc.prems by (cases n; simp)+
  with Suc.IH [of "n div 2"] show ?case by (simp add: bit_length.simps [of n])
qed

lemma f64_round_error: "2 ^ 53 * \<bar>int (f64_round n) - int n\<bar> \<le> int n"
proof (cases "n \<le> 2 ^ 53")
  case True
  then show ?thesis by (simp add: f64_round_def)
next
  case False
  define k where "k = bit_length n - 53"
  define q where "q = n div 2 ^ k"
  define r where "r = n mod 2 ^ k"
  have k: "0 < k" "bit_length n = k + 53" using bit_length_large [of 53 n] False by (simp_all add: k_def)
  then have top: "2 ^ (k + 52) \<le> n" using bit_length_le [of n] False by (simp add: add.commute)
  have n: "n = q * 2 ^ k + r" "r < 2 ^ k" by (simp_all add: q_def r_def div_mult_mod_eq)
  have half: "(2::nat) ^ k = 2 * 2 ^ (k - 1)" using k(1) by (metis Suc_diff_1 power_Suc)
  have "f64_round n = (if 2 ^ (k - 1) < r \<or> (r = 2 ^ (k - 1) \<and> odd q) then (q + 1) * 2 ^ k else q * 2 ^ k)"
    using False by (simp add: f64_round_def Let_def k_def [symmetric] q_def r_def)
  then have "f64_round n \<le> n + 2 ^ (k - 1) \<and> n \<le> f64_round n + 2 ^ (k - 1)"
    using n half by (auto simp: algebra_simps)
  then have "\<bar>int (f64_round n) - int n\<bar> \<le> int (2 ^ (k - 1))" by linarith
  then have "\<bar>int (f64_round n) - int n\<bar> \<le> 2 ^ (k - 1)" by simp
  then have "2 ^ 53 * \<bar>int (f64_round n) - int n\<bar> \<le> 2 ^ 53 * 2 ^ (k - 1)" by simp
  also have "\<dots> = int (2 ^ (k + 52))"
  proof -
    have "k + 52 = 53 + (k - 1)" using k(1) by simp
    then show ?thesis by (simp only: power_add) simp
  qed
  also have "\<dots> \<le> int n" using top by linarith
  finally show ?thesis .
qed

definition rounded :: "int \<Rightarrow> i64 \<Rightarrow> bool" where
  "rounded n k \<longleftrightarrow> 2 ^ 53 * \<bar>k - n\<bar> \<le> \<bar>n\<bar> \<and> (\<bar>n\<bar> \<le> 2 ^ 53 \<longrightarrow> k = n)"

lemma int_to_f64_error: "\<exists>r. int_to_f64 n = F64 r 0 \<and> 2 ^ 53 * \<bar>r - n\<bar> \<le> \<bar>n\<bar>"
proof (cases "n < 0")
  case True
  with f64_round_error [of "nat (- n)"] show ?thesis by (simp add: int_to_f64_def abs_minus_commute add.commute)
next
  case False
  with f64_round_error [of "nat n"] show ?thesis by (simp add: int_to_f64_def)
qed

lemma integer_rounded:
  assumes "in_i64 n"
  shows "rounded n (f64_as_i64 (int_to_f64 n))"
proof -
  obtain r where r: "int_to_f64 n = F64 r 0" "2 ^ 53 * \<bar>r - n\<bar> \<le> \<bar>n\<bar>" using int_to_f64_error by blast
  have "\<bar>max i64_min (min i64_max r) - n\<bar> \<le> \<bar>r - n\<bar>" using assms by (auto simp: in_i64_def)
  moreover have "f64_as_i64 (F64 r 0) = max i64_min (min i64_max r)" by (simp add: f64_as_i64_def f64_trunc_def)
  ultimately show ?thesis using r f64_as_i64_small [of n] by (auto simp: rounded_def)
qed

lemma f64_round_large: "2 ^ 63 \<le> n \<Longrightarrow> 2 ^ 63 \<le> f64_round n"
proof -
  assume n: "2 ^ 63 \<le> n"
  define k where "k = bit_length n - 53"
  have k: "bit_length n = k + 53" "11 \<le> k" using bit_length_large [OF n] by (simp_all add: k_def)
  have "2 ^ (k + 52) \<le> n" using bit_length_le [of n] n k by (simp add: add.commute)
  then have "2 ^ 52 * 2 ^ k \<le> n" by (simp add: power_add mult.commute)
  then have "2 ^ 52 \<le> n div 2 ^ k" by (simp add: less_eq_div_iff_mult_less_eq)
  then have "2 ^ 52 * 2 ^ 11 \<le> n div 2 ^ k * 2 ^ k" using k(2) by (intro mult_le_mono power_increasing) simp_all
  moreover have "n div 2 ^ k * 2 ^ k \<le> f64_round n"
    using n by (auto simp: f64_round_def Let_def k_def [symmetric])
  ultimately show ?thesis by simp
qed

lemma integer_saturates: "i64_max < int n \<Longrightarrow> f64_as_i64 (int_to_f64 (int n)) = i64_max"
proof -
  assume "i64_max < int n"
  then have "2 ^ 63 \<le> n" by (simp add: i64_max_def)
  from f64_round_large [OF this] have "int (2 ^ 63) \<le> int (f64_round n)" by (rule of_nat_mono)
  then show ?thesis by (simp add: int_to_f64_def f64_as_i64_def f64_trunc_def i64_min_def i64_max_def)
qed

text \<open>
  C37. Integer arguments. A missing key and a value that is not a number are errors with their own
  message. A number always gives a value of the type: an integer unchanged up to 2^53 in size and
  otherwise rounded to a double, with a relative error of at most 2^-53; an unsigned integer above the
  type's maximum as that maximum; a fraction truncated toward zero, whatever its sign, and cut at
  the bounds of the type. The positive variant accepts exactly the positive results.
\<close>

theorem integer_arguments:
  "(case bt_get a key of
      None \<Rightarrow> require_int a key = Inl (missing_required (not_found_msg key))
    | Some (JNum (PosInt n)) \<Rightarrow>
        if int n \<le> i64_max then \<exists>k. require_int a key = Inr k \<and> rounded (int n) k else require_int a key = Inr i64_max
    | Some (JNum (NegInt n)) \<Rightarrow> in_i64 n \<longrightarrow> (\<exists>k. require_int a key = Inr k \<and> rounded n k)
    | Some (JNum (Float (F64 m e))) \<Rightarrow>
        require_int a key = Inr (max i64_min (min i64_max (sgn m * (\<bar>m\<bar> div 2 ^ e))))
    | Some _ \<Rightarrow> require_int a key = Inl (missing_required (not_of_type key ''int''))) \<and>
   (require_int a key = Inr n \<longrightarrow> in_i64 n) \<and>
   require_positive_int a key =
     (case require_int a key of
        Inl msg \<Rightarrow> Inl msg
      | Inr i \<Rightarrow> if 0 < i then Inr i else Inl (quoted key @ '' must be a positive integer''))"
proof (intro conjI impI)
  have trunc: "f64_as_i64 (F64 m e) = max i64_min (min i64_max (sgn m * (\<bar>m\<bar> div 2 ^ e)))" for m e
    by (cases "m = 0") (auto simp: f64_as_i64_def f64_trunc_def sgn_if)
  have "in_i64 (int k)" if "int k \<le> i64_max" for k using that by (simp add: in_i64_def i64_min_def)
  then show "case bt_get a key of
      None \<Rightarrow> require_int a key = Inl (missing_required (not_found_msg key))
    | Some (JNum (PosInt n)) \<Rightarrow>
        if int n \<le> i64_max then \<exists>k. require_int a key = Inr k \<and> rounded (int n) k else require_int a key = Inr i64_max
    | Some (JNum (NegInt n)) \<Rightarrow> in_i64 n \<longrightarrow> (\<exists>k. require_int a key = Inr k \<and> rounded n k)
    | Some (JNum (Float (F64 m e))) \<Rightarrow>
        require_int a key = Inr (max i64_min (min i64_max (sgn m * (\<bar>m\<bar> div 2 ^ e))))
    | Some _ \<Rightarrow> require_int a key = Inl (missing_required (not_of_type key ''int''))"
    by (auto simp: require_int_def json_as_f64_def number_as_f64_def trunc integer_rounded integer_saturates
        split: option.split json.split jnumber.split f64.split)
  show "in_i64 n" if "require_int a key = Inr n" using that by (rule require_int_in)
  show "require_positive_int a key =
     (case require_int a key of
        Inl msg \<Rightarrow> Inl msg
      | Inr i \<Rightarrow> if 0 < i then Inr i else Inl (quoted key @ '' must be a positive integer''))"
    by (auto simp: require_positive_int_def split: sum.split)
qed

theorem integer_arguments_witness:
  "require_int [(''line'', jint 42)] ''line'' = Inr 42 \<and>
   require_int [(''line'', JNum (Float (F64 (- 47) 3)))] ''line'' = Inr (- 5) \<and>
   require_int [(''line'', JNum (PosInt (2 ^ 64 - 1)))] ''line'' = Inr i64_max"
  using integer_arguments [of "[(''line'', jint 42)]" "''line''" 42]
    integer_arguments [of "[(''line'', JNum (Float (F64 (- 47) 3)))]" "''line''" 0]
    integer_arguments [of "[(''line'', JNum (PosInt (2 ^ 64 - 1)))]" "''line''" 0]
  by (auto simp: i64_max_def i64_min_def jint_def number_of_int_def rounded_def)

text \<open>
  Integers above 2^53 are not forwarded unchanged: they go through a double, so the next odd
  integer is rounded and a value above the type's maximum becomes the maximum.
\<close>

theorem large_integers_rounded:
  "require_int [(''count'', jint (2 ^ 53 + 1))] ''count'' = Inr (2 ^ 53) \<and>
   require_int [(''count'', JNum (PosInt (2 ^ 64 - 1)))] ''count'' = Inr i64_max"
proof -
  have b: "bit_length (2 ^ 53 + 1) = 54" "bit_length (2 ^ 64 - 1) = 64"
    by (rule bit_length_eq; simp)+
  have "f64_round (2 ^ 53 + 1) = 2 ^ 53" "f64_round (2 ^ 64 - 1) = 2 ^ 64"
    using b by (simp_all add: f64_round_def Let_def)
  then have "number_as_f64 (PosInt (2 ^ 53 + 1)) = F64 (2 ^ 53) 0"
    "number_as_f64 (PosInt (2 ^ 64 - 1)) = F64 (2 ^ 64) 0"
    by (simp_all add: number_as_f64_def int_to_f64_def)
  then show ?thesis
    by (simp add: require_int_def jint_def number_of_int_def json_as_f64_def f64_as_i64_def f64_trunc_def
        i64_min_def i64_max_def)
qed

text \<open>
  A message built by \<open>send_checked\<close>: the first separator is the one after the verb, when the verb
  has no blank.
\<close>

lemma after_first_verb:
  assumes "CHR '' '' \<notin> set verb"
  shows "after_first (CHR '' '' # sep) (verb @ (CHR '' '' # sep) @ t) = Some t"
proof (rule after_first_here)
  fix i assume i: "i < length verb"
  then have "drop i (verb @ (CHR '' '' # sep) @ t) = verb ! i # drop (Suc i) verb @ (CHR '' '' # sep) @ t"
    by (simp add: Cons_nth_drop_Suc [symmetric])
  moreover have "verb ! i \<noteq> CHR '' ''" using assms i by (metis nth_mem)
  ultimately show "\<not> starts_with (CHR '' '' # sep) (drop i (verb @ (CHR '' '' # sep) @ t))"
    by (simp add: starts_with_def)
qed

text \<open>
  C38. The three messages the backend builds for an operation come out under the call site's own
  templates with the detail unchanged, provided the detail of a refusal does not itself contain
  the words " request failed: " or begin with "request failed: ". When it does, the refusal is reported
  as a failed request and the part of the detail up to and with those words is lost.
\<close>

theorem render_keeps_detail:
  assumes "CHR '' '' \<notin> set verb" "CHR '':'' \<notin> set verb"
  shows "render op_e (Dap (verb @ '' request failed: '' @ detail)) = ope_request_failed op_e @ detail \<and>
    render op_e (Protocol (verb @ '':'' @ detail)) = ope_unexpected op_e @ detail \<and>
    render op_e (Dap (verb @ '' failed: '' @ detail)) =
      (case after_first '' request failed: '' (verb @ '' failed: '' @ detail) of
         None \<Rightarrow> ope_failed op_e @ detail
       | Some lost \<Rightarrow> ope_request_failed op_e @ lost)"
proof -
  have "after_first '' request failed: '' (verb @ '' request failed: '' @ detail) = Some detail"
    "after_first '' failed: '' (verb @ '' failed: '' @ detail) = Some detail"
    using after_first_verb [OF assms(1), of "''request failed: ''" detail]
      after_first_verb [OF assms(1), of "''failed: ''" detail] by simp_all
  then show ?thesis
    using split_once_here [OF assms(2), of detail]
    by (simp add: render_dap_def protocol_label_def split: option.split)
qed

theorem render_keeps_detail_witness:
  "render STACK_TRACE (Dap ''stackTrace failed: no thread'') = ''stackTrace failed: no thread'' \<and>
   render EVALUATE (Dap ''evaluate failed: the request failed: x'') = ''evaluate request failed: x''"
proof -
  have v: "CHR '' '' \<notin> set ''stackTrace''" "CHR '':'' \<notin> set ''stackTrace''"
    "CHR '' '' \<notin> set ''evaluate''" "CHR '':'' \<notin> set ''evaluate''" by simp_all
  have f: "after_first '' request failed: '' (''stackTrace'' @ '' failed: '' @ ''no thread'') = None"
    "after_first '' request failed: '' (''evaluate'' @ '' failed: '' @ ''the request failed: x'') = Some ''x''"
    by code_simp+
  from render_keeps_detail [OF v(1,2), of STACK_TRACE "''no thread''"]
    render_keeps_detail [OF v(3,4), of EVALUATE "''the request failed: x''"] f
  show ?thesis by (simp add: STACK_TRACE_def EVALUATE_def op_verb_def)
qed

end
