(* ===== verification/Output_Buffer.thy ===== *)
theory Output_Buffer
  imports Prelude Rust_Text
begin

text \<open>
  The session's output buffer (\<^verbatim>\<open>mcp-session/src/output_buffer.rs\<close>): entries are appended at
  the back and evicted from the front while the total exceeds 1 MiB; a drain returns and
  clears them, with a marker entry when something was evicted. The buffer is shown to be a
  bounded log: between two drains it holds the longest suffix of what was appended.
\<close>

definition MAX_SIZE :: nat where "MAX_SIZE = 1048576"

record output_entry =
  oe_category :: string
  oe_text :: string

record buffered =
  bf_entries :: "output_entry list"
  bf_size :: nat
  bf_truncated :: bool

definition output_buffer_new :: buffered where
  "output_buffer_new = \<lparr>bf_entries = [], bf_size = 0, bf_truncated = False\<rparr>"

lemma output_entry_eta [simp]: "\<lparr>oe_category = oe_category e, oe_text = oe_text e\<rparr> = e"
  by simp

definition entry_size :: "output_entry \<Rightarrow> nat" where
  "entry_size e = length (oe_category e) + length (oe_text e)"

text \<open>The eviction loop \<^verbatim>\<open>while b.size > MAX_SIZE && !b.entries.is_empty()\<close>.\<close>

fun evict :: "output_entry list \<Rightarrow> nat \<Rightarrow> bool \<Rightarrow> buffered" where
  "evict [] sz tr = \<lparr>bf_entries = [], bf_size = sz, bf_truncated = tr\<rparr>"
| "evict (e # es) sz tr =
     (if sz > MAX_SIZE then evict es (sz - entry_size e) True
      else \<lparr>bf_entries = e # es, bf_size = sz, bf_truncated = tr\<rparr>)"

definition output_append :: "buffered \<Rightarrow> string \<Rightarrow> string \<Rightarrow> buffered" where
  "output_append b category txt =
     (let e = \<lparr>oe_category = category, oe_text = txt\<rparr>
      in evict (bf_entries b @ [e]) (bf_size b + entry_size e) (bf_truncated b))"

definition truncation_marker :: output_entry where
  "truncation_marker = \<lparr>oe_category = ''console'', oe_text = ''[output truncated]''\<rparr>"

definition output_drain :: "buffered \<Rightarrow> output_entry list \<times> buffered" where
  "output_drain b =
     (if bf_entries b = [] \<and> \<not> bf_truncated b then ([], b)
      else ((if bf_truncated b then [truncation_marker] else []) @ bf_entries b, output_buffer_new))"

section \<open>Invariant\<close>

text \<open>The size field is the total of the entries, and the total is within the cap.\<close>

definition buffer_ok :: "buffered \<Rightarrow> bool" where
  "buffer_ok b \<longleftrightarrow> bf_size b = weight entry_size (bf_entries b) \<and> bf_size b \<le> MAX_SIZE"

lemma evict_spec:
  "sz = weight entry_size es \<Longrightarrow>
     bf_entries (evict es sz tr) = keep_suffix entry_size MAX_SIZE es \<and>
     bf_size (evict es sz tr) = weight entry_size (bf_entries (evict es sz tr)) \<and>
     (bf_truncated (evict es sz tr) \<longleftrightarrow> tr \<or> weight entry_size es > MAX_SIZE)"
proof (induction es sz tr rule: evict.induct)
  case (1 sz tr)
  then show ?case by simp
next
  case (2 e es sz tr)
  show ?case
  proof (cases "sz > MAX_SIZE")
    case True
    from 2 have "sz - entry_size e = weight entry_size es" by simp
    with 2 True show ?thesis by auto
  next
    case False
    with 2 show ?thesis by auto
  qed
qed

lemma buffer_ok_new [simp]: "buffer_ok output_buffer_new"
  by (simp add: buffer_ok_def output_buffer_new_def)

lemma output_append_entries:
  "buffer_ok b \<Longrightarrow> bf_entries (output_append b c t) =
     keep_suffix entry_size MAX_SIZE (bf_entries b @ [\<lparr>oe_category = c, oe_text = t\<rparr>])"
  by (simp add: output_append_def buffer_ok_def Let_def evict_spec)

lemma buffer_ok_append [simp]: "buffer_ok b \<Longrightarrow> buffer_ok (output_append b c t)"
  using keep_suffix_weight [of entry_size MAX_SIZE]
  by (simp add: output_append_def buffer_ok_def Let_def evict_spec)

lemma output_append_truncated:
  "buffer_ok b \<Longrightarrow> bf_truncated (output_append b c t) \<longleftrightarrow>
     bf_truncated b \<or> MAX_SIZE < bf_size b + entry_size \<lparr>oe_category = c, oe_text = t\<rparr>"
  by (simp add: output_append_def buffer_ok_def Let_def evict_spec)

lemma buffer_ok_drain [simp]: "buffer_ok b \<Longrightarrow> buffer_ok (snd (output_drain b))"
  by (simp add: output_drain_def)

lemma output_drain_empties: "buffer_ok b \<Longrightarrow> snd (output_drain b) = output_buffer_new"
  by (cases b) (auto simp: output_drain_def output_buffer_new_def buffer_ok_def)

section \<open>Histories\<close>

definition append_entry :: "buffered \<Rightarrow> output_entry \<Rightarrow> buffered" where
  "append_entry b e = output_append b (oe_category e) (oe_text e)"

definition append_entries :: "buffered \<Rightarrow> output_entry list \<Rightarrow> buffered" where
  "append_entries b es = foldl append_entry b es"

lemma append_entries_ok: "buffer_ok b \<Longrightarrow> buffer_ok (append_entries b es)"
  unfolding append_entries_def by (induction es arbitrary: b) (auto simp: append_entry_def)

lemma append_entries_contents:
  "buffer_ok b \<Longrightarrow>
     bf_entries (append_entries b es) = keep_suffix entry_size MAX_SIZE (bf_entries b @ es)"
proof (induction es arbitrary: b)
  case Nil
  then show ?case by (simp add: append_entries_def buffer_ok_def keep_suffix_id)
next
  case (Cons e es)
  have "append_entries b (e # es) = append_entries (append_entry b e) es"
    by (simp add: append_entries_def)
  moreover have "buffer_ok (append_entry b e)" using Cons.prems by (simp add: append_entry_def)
  moreover have "bf_entries (append_entry b e) = keep_suffix entry_size MAX_SIZE (bf_entries b @ [e])"
    using Cons.prems by (simp add: append_entry_def output_append_entries)
  ultimately show ?case
    using Cons.IH keep_suffix_append [of entry_size MAX_SIZE "bf_entries b @ [e]" es] by simp
qed

lemma append_entries_truncated:
  "buffer_ok b \<Longrightarrow> bf_truncated (append_entries b es) \<longleftrightarrow>
     bf_truncated b \<or> MAX_SIZE < weight entry_size (bf_entries b @ es)"
proof (induction es rule: rev_induct)
  case Nil
  then show ?case by (simp add: append_entries_def buffer_ok_def)
next
  case (snoc e es)
  let ?b = "append_entries b es"
  have step: "append_entries b (es @ [e]) = append_entry ?b e" by (simp add: append_entries_def)
  have ok: "buffer_ok ?b" using snoc.prems by (rule append_entries_ok)
  then have sz: "bf_size ?b = weight entry_size (keep_suffix entry_size MAX_SIZE (bf_entries b @ es))"
    by (simp add: buffer_ok_def append_entries_contents [OF snoc.prems])
  have "MAX_SIZE < bf_size ?b + entry_size e \<or> MAX_SIZE < weight entry_size (bf_entries b @ es) \<longleftrightarrow>
        MAX_SIZE < weight entry_size (bf_entries b @ es) + entry_size e"
    by (cases "weight entry_size (bf_entries b @ es) \<le> MAX_SIZE") (auto simp: sz keep_suffix_id)
  with snoc.IH [OF snoc.prems] show ?case
    by (auto simp: step append_entry_def output_append_truncated [OF ok] add.assoc)
qed

interpretation output_log: suffix_log bf_entries append_entries
  "\<lambda>b. b = output_buffer_new" buffer_ok entry_size "\<lambda>_. MAX_SIZE"
  by unfold_locales
    (auto simp: output_buffer_new_def append_entries_ok append_entries_contents
       buffer_ok_new [unfolded output_buffer_new_def])

text \<open>Draining after a run of appends: the kept suffix, marked iff something was lost.\<close>

lemma drain_after_appends:
  "fst (output_drain (append_entries output_buffer_new es)) =
     (if weight entry_size es \<le> MAX_SIZE then es
      else truncation_marker # keep_suffix entry_size MAX_SIZE es)"
proof -
  have "bf_entries (append_entries output_buffer_new es) = keep_suffix entry_size MAX_SIZE es"
    "bf_truncated (append_entries output_buffer_new es) \<longleftrightarrow> MAX_SIZE < weight entry_size es"
    by (simp_all add: append_entries_contents append_entries_truncated)
      (simp_all add: output_buffer_new_def)
  then show ?thesis by (auto simp: output_drain_def keep_suffix_id)
qed

text \<open>
  C22. Whatever is appended after a drain, the next drain returns it unchanged when it fits in
  1 MiB, and otherwise the truncation marker followed by the longest suffix that fits; the
  buffer is then as new, so a second drain returns nothing.
\<close>

theorem output_drain_longest_suffix:
  "fst (output_drain (append_entries output_buffer_new es)) =
     (if weight entry_size es \<le> MAX_SIZE then es
      else truncation_marker # keep_suffix entry_size MAX_SIZE es) \<and>
   snd (output_drain (append_entries output_buffer_new es)) = output_buffer_new \<and>
   fst (output_drain output_buffer_new) = []"
  by (simp add: drain_after_appends output_drain_empties append_entries_ok)
    (simp add: output_drain_def output_buffer_new_def)

end
