(* ===== verification/Session.thy ===== *)
theory Session
  imports Debugger_Core Output_Buffer
begin

text \<open>
  The crate \<^verbatim>\<open>mcp-session\<close>: the session manager with its state machine, generation epoch,
  caches and breakpoint tracking (\<^verbatim>\<open>state.rs\<close>, \<^verbatim>\<open>breakpoint.rs\<close>, \<^verbatim>\<open>manager.rs\<close>) and the event
  pump (\<^verbatim>\<open>pump.rs\<close>). Every method takes the lock once, so each is one atomic state
  transformer; the output buffer is a field although it has a lock of its own.
\<close>

section \<open>States\<close>

datatype sess_state = Idle | Configuring | SStopped | Running | STerminated

fun show_state :: "sess_state \<Rightarrow> string" where
  "show_state Idle = ''idle''"
| "show_state Configuring = ''configuring''"
| "show_state SStopped = ''stopped''"
| "show_state Running = ''running''"
| "show_state STerminated = ''terminated''"

lemma show_state_inject [simp]: "show_state s = show_state t \<longleftrightarrow> s = t"
  by (cases s; cases t) auto

record breakpoint_info =
  bi_id :: i64
  bi_ty :: string
  bi_file :: string
  bi_line :: i64
  bi_function :: string
  bi_condition :: string
  bi_verified :: bool

section \<open>The session\<close>

record session =
  ss_state :: sess_state
  ss_generation :: u64
  ss_program :: string
  ss_pid :: i64
  ss_exit_code :: "i64 option"
  ss_last_stopped :: "stop_info option"
  ss_frame_mapping :: "(i64, i64) hash_map"
  ss_source_bps :: "(string, source_bp list) hash_map"
  ss_function_bps :: "function_bp list"
  ss_bp_responses :: "(i64, breakpoint_info) hash_map"
  ss_pending_source_bps :: "(string, source_bp list) hash_map"
  ss_pending_function_bps :: "function_bp list"
  ss_output :: buffered

definition session_new :: session where
  "session_new = \<lparr>ss_state = Idle, ss_generation = 0, ss_program = [], ss_pid = 0,
     ss_exit_code = None, ss_last_stopped = None, ss_frame_mapping = [], ss_source_bps = [],
     ss_function_bps = [], ss_bp_responses = [], ss_pending_source_bps = [],
     ss_pending_function_bps = [], ss_output = output_buffer_new\<rparr>"

definition set_state :: "sess_state \<Rightarrow> session \<Rightarrow> session" where
  "set_state st s = s\<lparr>ss_state := st\<rparr>"

definition set_state_if_generation :: "u64 \<Rightarrow> sess_state \<Rightarrow> session \<Rightarrow> bool \<times> session" where
  "set_state_if_generation g st s =
     (if ss_generation s \<noteq> g then (False, s) else (True, s\<lparr>ss_state := st\<rparr>))"

definition check_state :: "sess_state list \<Rightarrow> session \<Rightarrow> string + unit" where
  "check_state allowed s =
     (let current = ss_state s in
      if current \<in> set allowed then Inr ()
      else case current of
          Idle \<Rightarrow> Inl ''no debug session active. Use 'launch' or 'attach' first.''
        | Running \<Rightarrow> Inl ''process is running. Use 'pause' first.''
        | _ \<Rightarrow> Inl (''invalid state: '' @ show_state current @ '', expected one of: '' @
                 join '', '' (map show_state allowed)))"

text \<open>\<^verbatim>\<open>reset\<close> clears the inner record under the lock, then drains the output buffer.\<close>

definition reset_inner :: "session \<Rightarrow> session" where
  "reset_inner s = s\<lparr>ss_state := Idle, ss_generation := ss_generation s + 1, ss_program := [],
     ss_pid := 0, ss_exit_code := None, ss_last_stopped := None, ss_frame_mapping := [],
     ss_source_bps := [], ss_function_bps := [], ss_bp_responses := [],
     ss_pending_source_bps := [], ss_pending_function_bps := []\<rparr>"

definition drain_output :: "session \<Rightarrow> output_entry list \<times> session" where
  "drain_output s = (let (es, b) = output_drain (ss_output s) in (es, s\<lparr>ss_output := b\<rparr>))"

definition reset :: "session \<Rightarrow> session" where
  "reset s = snd (drain_output (reset_inner s))"

definition set_program :: "string \<Rightarrow> session \<Rightarrow> session" where
  "set_program p s = s\<lparr>ss_program := p\<rparr>"

definition set_pid :: "i64 \<Rightarrow> session \<Rightarrow> session" where
  "set_pid p s = s\<lparr>ss_pid := p\<rparr>"

definition set_exit_code :: "i64 \<Rightarrow> session \<Rightarrow> session" where
  "set_exit_code c s = s\<lparr>ss_exit_code := Some c\<rparr>"

definition terminate_if_generation :: "u64 \<Rightarrow> i64 option \<Rightarrow> session \<Rightarrow> bool \<times> session" where
  "terminate_if_generation g code s =
     (if ss_generation s \<noteq> g then (False, s)
      else let s1 = (case code of None \<Rightarrow> s | Some c \<Rightarrow> s\<lparr>ss_exit_code := Some c\<rparr>)
           in (True, s1\<lparr>ss_state := STerminated\<rparr>))"

definition set_last_stopped :: "stop_info \<Rightarrow> session \<Rightarrow> session" where
  "set_last_stopped i s = s\<lparr>ss_last_stopped := Some i\<rparr>"

definition set_frame_mapping :: "(i64, i64) hash_map \<Rightarrow> session \<Rightarrow> session" where
  "set_frame_mapping m s = s\<lparr>ss_frame_mapping := m\<rparr>"

definition append_output :: "string \<Rightarrow> string \<Rightarrow> session \<Rightarrow> session" where
  "append_output c t s = s\<lparr>ss_output := output_append (ss_output s) c t\<rparr>"

section \<open>Breakpoint tracking\<close>

definition add_source_breakpoint :: "string \<Rightarrow> i64 \<Rightarrow> string \<Rightarrow> session \<Rightarrow> source_bp \<times> session" where
  "add_source_breakpoint file ln condition s =
     (let bp = \<lparr>sb_line = ln, sb_condition = condition\<rparr>
      in (bp, s\<lparr>ss_source_bps := hm_push file bp (ss_source_bps s)\<rparr>))"

definition add_function_breakpoint :: "string \<Rightarrow> string \<Rightarrow> session \<Rightarrow> function_bp \<times> session" where
  "add_function_breakpoint name condition s =
     (let bp = \<lparr>fb_name = name, fb_condition = condition\<rparr>
      in (bp, s\<lparr>ss_function_bps := ss_function_bps s @ [bp]\<rparr>))"

definition add_breakpoint_response :: "breakpoint_info \<Rightarrow> session \<Rightarrow> session" where
  "add_breakpoint_response info s =
     s\<lparr>ss_bp_responses := hm_insert (bi_id info) info (ss_bp_responses s)\<rparr>"

definition get_breakpoint_info :: "i64 \<Rightarrow> session \<Rightarrow> breakpoint_info option" where
  "get_breakpoint_info bid s = hm_get (ss_bp_responses s) bid"

text \<open>
  \<^verbatim>\<open>get_mut\<close> then removal in place: a file with no tracked list is left without one.
\<close>

definition remove_source_bp :: "string \<Rightarrow> i64 \<Rightarrow> (string, source_bp list) hash_map \<Rightarrow> (string, source_bp list) hash_map" where
  "remove_source_bp file ln m =
     (case hm_get m file of None \<Rightarrow> m
      | Some bps \<Rightarrow> hm_insert file (remove_first (\<lambda>bp. sb_line bp = ln) bps) m)"

definition remove_breakpoint_by_id :: "i64 \<Rightarrow> session \<Rightarrow> (string + string \<times> bool) \<times> session" where
  "remove_breakpoint_by_id bid s =
     (case hm_get (ss_bp_responses s) bid of
        None \<Rightarrow> (Inl (''breakpoint ID '' @ show_int bid @ '' not found''), s)
      | Some info \<Rightarrow>
          let (file_path, was_function, s1) =
            (if bi_ty info = ''source'' then
               (bi_file info, False,
                s\<lparr>ss_source_bps := remove_source_bp (bi_file info) (bi_line info) (ss_source_bps s)\<rparr>)
             else if bi_ty info = ''function'' then
               ('''', True,
                s\<lparr>ss_function_bps := remove_first (\<lambda>bp. fb_name bp = bi_function info) (ss_function_bps s)\<rparr>)
             else ('''', False, s))
          in (Inr (file_path, was_function),
              s1\<lparr>ss_bp_responses := hm_remove bid (ss_bp_responses s1)\<rparr>))"

text \<open>
  \<^verbatim>\<open>values()\<close> of a hash map come in an arbitrary order, which \<open>order\<close> stands for; the stable
  sort by id follows.
\<close>

definition list_breakpoints :: "(breakpoint_info list \<Rightarrow> breakpoint_info list) \<Rightarrow> session \<Rightarrow> breakpoint_info list" where
  "list_breakpoints order s = sort_key bi_id (order (map snd (ss_bp_responses s)))"

definition source_breakpoints_for_file :: "string \<Rightarrow> session \<Rightarrow> source_bp list" where
  "source_breakpoints_for_file file s = hm_list (ss_source_bps s) file"

definition all_function_breakpoints :: "session \<Rightarrow> function_bp list" where
  "all_function_breakpoints s = ss_function_bps s"

definition add_pending_source_breakpoint :: "string \<Rightarrow> i64 \<Rightarrow> string \<Rightarrow> session \<Rightarrow> session" where
  "add_pending_source_breakpoint file ln condition s =
     s\<lparr>ss_pending_source_bps :=
        hm_push file \<lparr>sb_line = ln, sb_condition = condition\<rparr> (ss_pending_source_bps s)\<rparr>"

definition add_pending_function_breakpoint :: "string \<Rightarrow> string \<Rightarrow> session \<Rightarrow> session" where
  "add_pending_function_breakpoint name condition s =
     s\<lparr>ss_pending_function_bps := ss_pending_function_bps s @ [\<lparr>fb_name = name, fb_condition = condition\<rparr>]\<rparr>"

definition flush_pending_breakpoints ::
    "session \<Rightarrow> ((string, source_bp list) hash_map \<times> function_bp list) \<times> session" where
  "flush_pending_breakpoints s =
     (let source_files = ss_pending_source_bps s; func_bps = ss_pending_function_bps s;
          s1 = s\<lparr>ss_pending_source_bps := [], ss_pending_function_bps := []\<rparr>;
          s2 = s1\<lparr>ss_source_bps := fold (\<lambda>(file, bps). hm_extend file bps) source_files (ss_source_bps s1)\<rparr>
      in ((source_files, func_bps), s2\<lparr>ss_function_bps := ss_function_bps s2 @ func_bps\<rparr>))"

section \<open>The event pump\<close>

definition pump_event :: "u64 \<Rightarrow> backend_event \<Rightarrow> session \<Rightarrow> session" where
  "pump_event generation e s =
     (case e of Output category txt \<Rightarrow> append_output category txt s
      | TerminatedEv code \<Rightarrow> snd (terminate_if_generation generation code s))"

definition event_pump :: "u64 \<Rightarrow> backend_event list \<Rightarrow> session \<Rightarrow> session" where
  "event_pump generation es s = fold (pump_event generation) es s"

end
