(* ===== verification/Tool_Server.thy ===== *)
theory Tool_Server
  imports Tool_Args Computations Session
begin

text \<open>
  The state the tool handlers share (\<^verbatim>\<open>ToolServer\<close> of \<^verbatim>\<open>mcp-tools/src/server.rs\<close>), the backend trait
  they call (\<^verbatim>\<open>DebuggerBackend\<close>) and the frame resolution of \<^verbatim>\<open>frame.rs\<close>. A handler is a computation
  on the server. An awaited backend call is one too, so it can also show what other tasks (the
  event pump, another handler) did to the session while the handler was waiting.
\<close>

section \<open>The server\<close>

text \<open>
  \<open>'b\<close> is a connected backend (\<^verbatim>\<open>Arc<dyn DebuggerBackend>\<close>), \<open>'w\<close> everything behind it. \<open>sv_pumps\<close>
  lists the event pumps that were spawned, each with the generation it was given.
\<close>

record ('b, 'w) tool_server =
  sv_session :: session
  sv_backend :: "'b option"
  sv_pumps :: "('b \<times> u64) list"
  sv_world :: 'w

definition tool_server_new :: "session \<Rightarrow> 'w \<Rightarrow> ('b, 'w) tool_server" where
  "tool_server_new s w = \<lparr>sv_session = s, sv_backend = None, sv_pumps = [], sv_world = w\<rparr>"

type_synonym ('b, 'w, 'a) task = "(('b, 'w) tool_server, 'a) proc"

record ('b, 'w) backend_api =
  ba_launch :: "launch_spec \<Rightarrow> ('b, 'w, backend_error + launch_outcome) task"
  ba_attach :: "attach_spec \<Rightarrow> ('b, 'w, backend_error + attach_outcome) task"
  ba_disconnect :: "bool \<Rightarrow> ('b, 'w, unit) task"
  ba_set_source_breakpoints ::
    "string \<Rightarrow> source_bp list \<Rightarrow> ('b, 'w, backend_error + breakpoint_result list) task"
  ba_set_function_breakpoints ::
    "function_bp list \<Rightarrow> ('b, 'w, backend_error + breakpoint_result list) task"
  ba_cont :: "i64 \<Rightarrow> ('b, 'w, backend_error + stop_outcome) task"
  ba_step :: "step_kind \<Rightarrow> i64 \<Rightarrow> granularity option \<Rightarrow> ('b, 'w, backend_error + stop_outcome) task"
  ba_pause :: "('b, 'w, backend_error + unit) task"
  ba_threads :: "('b, 'w, backend_error + thread_info list) task"
  ba_stack_trace :: "i64 \<Rightarrow> i64 \<Rightarrow> i64 \<Rightarrow> ('b, 'w, backend_error + (frame list \<times> i64)) task"
  ba_scopes :: "i64 \<Rightarrow> ('b, 'w, backend_error + scope list) task"
  ba_variables :: "i64 \<Rightarrow> ('b, 'w, backend_error + variable list) task"
  ba_evaluate :: "string \<Rightarrow> i64 option \<Rightarrow> eval_mode \<Rightarrow> ('b, 'w, backend_error + eval_result) task"
  ba_read_memory :: "string \<Rightarrow> i64 \<Rightarrow> ('b, 'w, backend_error + memory_read) task"
  ba_disassemble :: "string \<Rightarrow> i64 \<Rightarrow> ('b, 'w, backend_error + instruction list) task"
  ba_debugger_pid :: "i64 option"

text \<open>
  The surroundings of the handlers: the backends, the factory's \<open>connect\<close>, what dropping the last
  handle of a backend does, the five-second timer (\<open>Some s'\<close>: it fires before the awaited call is
  done, and then the server is \<open>s'\<close>), the wait for the drop, and the order in which the hash maps
  give their entries.
\<close>

record ('b, 'w) tool_env =
  env_text :: text_env
  env_api :: "'b \<Rightarrow> ('b, 'w) backend_api"
  env_connect :: "('b, 'w, backend_error + 'b) task"
  env_release :: "'b \<Rightarrow> 'w \<Rightarrow> 'w"
  env_timer :: "('b, 'w) tool_server \<Rightarrow> ('b, 'w) tool_server option"
  env_drop_wait :: "('b, 'w) tool_server \<Rightarrow> ('b, 'w) tool_server"
  env_order :: "breakpoint_info list \<Rightarrow> breakpoint_info list"
  env_file_order :: "(string \<times> source_bp list) list \<Rightarrow> (string \<times> source_bp list) list"

section \<open>Steps of a handler\<close>

definition modify_session :: "(session \<Rightarrow> session) \<Rightarrow> ('b, 'w, unit) task" where
  "modify_session f s = Some ((), s\<lparr>sv_session := f (sv_session s)\<rparr>)"

definition session_step :: "(session \<Rightarrow> 'a \<times> session) \<Rightarrow> ('b, 'w, 'a) task" where
  "session_step f s = (case f (sv_session s) of (x, s') \<Rightarrow> Some (x, s\<lparr>sv_session := s'\<rparr>))"

definition read_session :: "(session \<Rightarrow> 'a) \<Rightarrow> ('b, 'w, 'a) task" where
  "read_session f s = Some (f (sv_session s), s)"

text \<open>\<^verbatim>\<open>if let Err(e) = self.session.check_state(..) { return error(e) }\<close>.\<close>

definition guarded_by :: "sess_state list \<Rightarrow> ('b, 'w, tool_outcome) task \<Rightarrow> ('b, 'w, tool_outcome) task" where
  "guarded_by allowed p s =
     (case check_state allowed (sv_session s) of Inl e \<Rightarrow> Some (Error e, s) | Inr _ \<Rightarrow> p s)"

text \<open>\<^verbatim>\<open>match r { Ok(x) => x, Err(e) => return error(e) }\<close> on an argument.\<close>

definition arg_or :: "string + 'a \<Rightarrow> ('a \<Rightarrow> ('b, 'w, tool_outcome) task) \<Rightarrow> ('b, 'w, tool_outcome) task" where
  "arg_or r k = (case r of Inl e \<Rightarrow> ret (Error e) | Inr x \<Rightarrow> k x)"

text \<open>\<open>current_backend\<close>, and the return when there is none.\<close>

definition current_backend :: "('b, 'w, 'b option) task" where
  "current_backend s = Some (sv_backend s, s)"

definition with_backend ::
  "('b, 'w) tool_env \<Rightarrow> string \<Rightarrow> (('b, 'w) backend_api \<Rightarrow> ('b, 'w, tool_outcome) task) \<Rightarrow> ('b, 'w, tool_outcome) task" where
  "with_backend env missing k =
     seq current_backend (\<lambda>ob. case ob of None \<Rightarrow> ret (Error missing) | Some b \<Rightarrow> k (env_api env b))"

text \<open>An awaited call whose error becomes the outcome.\<close>

definition call_or ::
  "('e \<Rightarrow> string) \<Rightarrow> ('b, 'w, 'e + 'a) task \<Rightarrow> ('a \<Rightarrow> ('b, 'w, tool_outcome) task) \<Rightarrow> ('b, 'w, tool_outcome) task" where
  "call_or show_e p k = seq p (\<lambda>r. case r of Inl e \<Rightarrow> ret (Error (show_e e)) | Inr x \<Rightarrow> k x)"

text \<open>
  \<^verbatim>\<open>tokio::select!\<close> of a call and the cancellation token. \<open>ct\<close> gives \<open>Some s'\<close> when the token fires
  first: the call's future is dropped, and the server is then \<open>s'\<close>.
\<close>

type_synonym ('b, 'w) cancel = "('b, 'w) tool_server \<Rightarrow> ('b, 'w) tool_server option"

definition select_cancel :: "('b, 'w) cancel \<Rightarrow> ('b, 'w, 'a) task \<Rightarrow> ('b, 'w, 'a option) task" where
  "select_cancel ct p s =
     (case ct s of
        Some s' \<Rightarrow> Some (None, s')
      | None \<Rightarrow> (case p s of None \<Rightarrow> None | Some (x, s') \<Rightarrow> Some (Some x, s')))"

definition set_backend :: "'b \<Rightarrow> ('b, 'w, unit) task" where
  "set_backend b s = Some ((), s\<lparr>sv_backend := Some b\<rparr>)"

definition clear_backend :: "('b, 'w) tool_env \<Rightarrow> ('b, 'w, unit) task" where
  "clear_backend env s =
     (case sv_backend s of
        None \<Rightarrow> Some ((), s)
      | Some b \<Rightarrow> Some ((), s\<lparr>sv_backend := None, sv_world := env_release env b (sv_world s)\<rparr>))"

definition spawn_event_pump :: "'b \<Rightarrow> ('b, 'w, unit) task" where
  "spawn_event_pump b s = Some ((), s\<lparr>sv_pumps := sv_pumps s @ [(b, ss_generation (sv_session s))]\<rparr>)"

section \<open>Frames\<close>

definition map_implicit_error :: "backend_error \<Rightarrow> string" where
  "map_implicit_error err =
     (case err of
        Send inner \<Rightarrow> ''implicit stackTrace request failed: '' @ inner
      | Closed \<Rightarrow> ''implicit stackTrace request failed: connection closed''
      | Timeout \<Rightarrow> ''implicit stackTrace request failed: operation timed out''
      | Detect m \<Rightarrow> ''implicit stackTrace request failed: '' @ m
      | Spawn m \<Rightarrow> ''implicit stackTrace request failed: '' @ m
      | Protocol ty \<Rightarrow> ''unexpected stackTrace response type: '' @ protocol_label ty
      | Dap message \<Rightarrow>
          (case after_first '' request failed: '' message of
             Some inner \<Rightarrow> ''implicit stackTrace request failed: '' @ inner
           | None \<Rightarrow>
               (case after_first '' failed: '' message of
                  Some inner \<Rightarrow> ''implicit stackTrace failed: '' @ inner
                | None \<Rightarrow> message)))"

definition frame_map :: "frame list \<Rightarrow> (i64, i64) hash_map" where
  "frame_map frames = fold (\<lambda>f. hm_insert (fr_index f) (fr_id f)) frames []"

definition last_thread :: "session \<Rightarrow> i64" where
  "last_thread s = (case ss_last_stopped s of Some i \<Rightarrow> si_thread_id i | None \<Rightarrow> 1)"

definition frame_out_of_range :: "i64 \<Rightarrow> nat \<Rightarrow> string" where
  "frame_out_of_range frame_index n =
     ''frame index '' @ show_int frame_index @ '' out of range (stack has '' @ show_nat n @ '' frames)''"

definition resolve_frame_id :: "('b, 'w) backend_api \<Rightarrow> i64 \<Rightarrow> ('b, 'w, string + i64) task" where
  "resolve_frame_id api frame_index =
     seq (read_session (\<lambda>s. hm_get (ss_frame_mapping s) frame_index)) (\<lambda>hit.
       case hit of
         Some frame_id \<Rightarrow> ret (Inr frame_id)
       | None \<Rightarrow>
           seq (read_session last_thread) (\<lambda>thread_id.
           try_then (with_err map_implicit_error (ba_stack_trace api thread_id 0 20)) (\<lambda>(frames, _).
             let new_mapping = frame_map frames in
             seq (modify_session (set_frame_mapping new_mapping)) (\<lambda>_.
               ret (case hm_get new_mapping frame_index of
                      Some frame_id \<Rightarrow> Inr frame_id
                    | None \<Rightarrow> Inl (frame_out_of_range frame_index (length frames)))))))"

section \<open>Calls that fail or succeed\<close>

lemma guarded_by_fail:
  "ss_state (sv_session s) \<notin> set allowed \<Longrightarrow>
     guarded_by allowed p s = Some (Error (projl (check_state allowed (sv_session s))), s)"
  by (auto simp: guarded_by_def check_state_def Let_def split: sess_state.split)

lemma guarded_by_pass: "ss_state (sv_session s) \<in> set allowed \<Longrightarrow> guarded_by allowed p s = p s"
  by (simp add: guarded_by_def check_state_def)

lemma hm_ok_frame_map [simp]: "hm_ok (frame_map frames)"
proof -
  have "hm_ok m \<Longrightarrow> hm_ok (fold (\<lambda>f. hm_insert (fr_index f) (fr_id f)) frames m)" for m
    by (induction frames arbitrary: m) auto
  then show ?thesis by (simp add: frame_map_def)
qed

lemma frame_map_get:
  "hm_get (frame_map frames) i = map_option fr_id (last_opt (filter (\<lambda>f. fr_index f = i) frames))"
proof -
  have "hm_get (fold (\<lambda>f. hm_insert (fr_index f) (fr_id f)) frames m) i =
      (case last_opt (filter (\<lambda>f. fr_index f = i) frames) of None \<Rightarrow> hm_get m i | Some f \<Rightarrow> Some (fr_id f))" for m
    by (induction frames arbitrary: m) (auto simp: last_opt_def)
  then show ?thesis by (simp add: frame_map_def split: option.split)
qed

text \<open>
  Resolving a frame index: an index in the cached map costs no backend call and changes
  nothing; otherwise one stack trace of at most 20 frames from the top is made for the thread
  that stopped last (or thread 1), its frames replace the cached map, and the answer is the id of
  the last frame with that index, or the out-of-range error.
\<close>

theorem resolve_frame_spec:
  "(hm_get (ss_frame_mapping (sv_session s)) i = Some f \<longrightarrow> resolve_frame_id api i s = Some (Inr f, s)) \<and>
   (hm_get (ss_frame_mapping (sv_session s)) i = None \<and>
    ba_stack_trace api (last_thread (sv_session s)) 0 20 s = Some (Inr (frames, n), s') \<longrightarrow>
      resolve_frame_id api i s =
        Some (case last_opt (filter (\<lambda>f. fr_index f = i) frames) of
                Some f \<Rightarrow> Inr (fr_id f)
              | None \<Rightarrow> Inl (frame_out_of_range i (length frames)),
              s'\<lparr>sv_session := set_frame_mapping (frame_map frames) (sv_session s')\<rparr>)) \<and>
   (hm_get (ss_frame_mapping (sv_session s)) i = None \<and>
    ba_stack_trace api (last_thread (sv_session s)) 0 20 s = Some (Inl e, s') \<longrightarrow>
      resolve_frame_id api i s = Some (Inl (map_implicit_error e), s'))"
  by (auto simp: resolve_frame_id_def seq_def read_session_def ret_def try_then_def with_err_def
      modify_session_def Let_def frame_map_get split: option.split)

text \<open>A backend whose connection is closed: every call fails.\<close>

definition closed_api :: "('b, 'w) backend_api" where
  "closed_api =
     \<lparr>ba_launch = (\<lambda>_. ret (Inl Closed)), ba_attach = (\<lambda>_. ret (Inl Closed)), ba_disconnect = (\<lambda>_. ret ()),
      ba_set_source_breakpoints = (\<lambda>_ _. ret (Inl Closed)), ba_set_function_breakpoints = (\<lambda>_. ret (Inl Closed)),
      ba_cont = (\<lambda>_. ret (Inl Closed)), ba_step = (\<lambda>_ _ _. ret (Inl Closed)), ba_pause = ret (Inl Closed),
      ba_threads = ret (Inl Closed), ba_stack_trace = (\<lambda>_ _ _. ret (Inl Closed)),
      ba_scopes = (\<lambda>_. ret (Inl Closed)), ba_variables = (\<lambda>_. ret (Inl Closed)),
      ba_evaluate = (\<lambda>_ _ _. ret (Inl Closed)), ba_read_memory = (\<lambda>_ _. ret (Inl Closed)),
      ba_disassemble = (\<lambda>_ _. ret (Inl Closed)), ba_debugger_pid = None\<rparr>"

definition sample_frame :: "i64 \<Rightarrow> i64 \<Rightarrow> frame" where
  "sample_frame i fid =
     \<lparr>fr_index = i, fr_id = fid, fr_name = ''main'', fr_source_path = None, fr_line = 0,
      fr_instruction_pointer = Some ''1000''\<rparr>"

theorem resolve_frame_spec_witness:
  "resolve_frame_id (closed_api\<lparr>ba_stack_trace := \<lambda>_ _ _. ret (Inr ([sample_frame 0 7, sample_frame 1 8], 2))\<rparr>) 1
     (tool_server_new session_new () :: (unit, unit) tool_server) =
     Some (Inr 8, (tool_server_new session_new ())\<lparr>sv_session :=
       set_frame_mapping (frame_map [sample_frame 0 7, sample_frame 1 8]) session_new\<rparr>) \<and>
   resolve_frame_id closed_api 5 (tool_server_new session_new () :: (unit, unit) tool_server) =
     Some (Inl ''implicit stackTrace request failed: connection closed'', tool_server_new session_new ())"
  using resolve_frame_spec [of "tool_server_new session_new () :: (unit, unit) tool_server" 1 0
      "closed_api\<lparr>ba_stack_trace := \<lambda>_ _ _. ret (Inr ([sample_frame 0 7, sample_frame 1 8], 2))\<rparr>"
      "[sample_frame 0 7, sample_frame 1 8]" 2 "tool_server_new session_new ()" Closed]
    resolve_frame_spec [of "tool_server_new session_new () :: (unit, unit) tool_server" 5 0 closed_api
      "[]" 0 "tool_server_new session_new ()" Closed]
  by (simp add: tool_server_new_def session_new_def closed_api_def ret_def sample_frame_def last_opt_def
      map_implicit_error_def set_frame_mapping_def)

end
