(* ===== verification/Breakpoint_Tools.thy ===== *)
theory Breakpoint_Tools
  imports Tool_Server
begin

text \<open>
  \<^verbatim>\<open>mcp-tools/src/handlers/breakpoints.rs\<close>: setting, removing and listing breakpoints. While no
  program runs a breakpoint is only remembered; while it is stopped the whole list is sent, and
  the session changes after the debugger has accepted it.
\<close>

definition handle_set_breakpoint :: "('b, 'w) tool_env \<Rightarrow> args \<Rightarrow> ('b, 'w, tool_outcome) task" where
  "handle_set_breakpoint env a =
     guarded_by [Idle, SStopped] (
     arg_or (require_string a ''file'') (\<lambda>file.
     arg_or (require_positive_int a ''line'') (\<lambda>ln.
     let condition = get_string a ''condition'' [] in
     seq (read_session ss_state) (\<lambda>st.
     if st = Idle then
       seq (modify_session (add_pending_source_breakpoint file ln condition)) (\<lambda>_.
         ret (into_outcome
           (resp_set ''message'' (JStr ''Breakpoint will be set when program is launched'')
           (resp_set ''condition'' (JStr condition)
           (resp_set ''line'' (jint ln)
           (resp_set ''file'' (JStr file)
           (resp_set ''status'' (JStr ''pending'') resp_new)))))))
     else
       with_backend env (ope_request_failed SET_BREAKPOINTS) (\<lambda>api.
       seq (read_session (source_breakpoints_for_file file)) (\<lambda>tracked.
       call_or (render SET_BREAKPOINTS)
         (ba_set_source_breakpoints api file (tracked @ [\<lparr>sb_line = ln, sb_condition = condition\<rparr>])) (\<lambda>results.
       case (case find (\<lambda>bp. br_line bp = ln) results of Some bp \<Rightarrow> Some bp | None \<Rightarrow> last_opt results) of
         None \<Rightarrow> ret (Error ''setBreakpoints response contained no breakpoints'')
       | Some matched \<Rightarrow>
           seq (session_step (add_source_breakpoint file ln condition)) (\<lambda>_.
           seq (modify_session (add_breakpoint_response
                 \<lparr>bi_id = br_id matched, bi_ty = ''source'', bi_file = file, bi_line = br_line matched,
                  bi_function = [], bi_condition = condition, bi_verified = br_verified matched\<rparr>)) (\<lambda>_.
             ret (into_outcome
               (resp_set_if (br_message matched \<noteq> []) ''message'' (JStr (br_message matched))
               (resp_set ''line'' (jint (br_line matched))
               (resp_set ''file'' (JStr file)
               (resp_set ''verified'' (JBool (br_verified matched))
               (resp_set ''breakpoint_id'' (jint (br_id matched)) resp_new)))))))))))))))"

definition function_bp_message :: "string \<Rightarrow> bool \<Rightarrow> string \<Rightarrow> string" where
  "function_bp_message name verified message =
     (if message = [] then
        (if verified then ''Breakpoint set on function '' @ quoted name
         else ''Breakpoint on function '' @ quoted name @ '' pending verification'')
      else message)"

definition handle_set_function_breakpoint :: "('b, 'w) tool_env \<Rightarrow> args \<Rightarrow> ('b, 'w, tool_outcome) task" where
  "handle_set_function_breakpoint env a =
     guarded_by [Idle, SStopped] (
     arg_or (require_string a ''name'') (\<lambda>name.
     let condition = get_string a ''condition'' [] in
     seq (read_session ss_state) (\<lambda>st.
     if st = Idle then
       seq (modify_session (add_pending_function_breakpoint name condition)) (\<lambda>_.
         ret (into_outcome
           (resp_set ''message'' (JStr ''Function breakpoint will be set when program is launched'')
           (resp_set ''condition'' (JStr condition)
           (resp_set ''function'' (JStr name)
           (resp_set ''status'' (JStr ''pending'') resp_new))))))
     else
       with_backend env (ope_request_failed SET_FUNCTION_BREAKPOINTS) (\<lambda>api.
       seq (read_session all_function_breakpoints) (\<lambda>tracked.
       call_or (render SET_FUNCTION_BREAKPOINTS)
         (ba_set_function_breakpoints api (tracked @ [\<lparr>fb_name = name, fb_condition = condition\<rparr>])) (\<lambda>results.
       seq (session_step (add_function_breakpoint name condition)) (\<lambda>_.
       seq (case last_opt results of
              Some bp \<Rightarrow>
                seq (modify_session (add_breakpoint_response
                      \<lparr>bi_id = br_id bp, bi_ty = ''function'', bi_file = [], bi_line = 0, bi_function = name,
                       bi_condition = condition, bi_verified = br_verified bp\<rparr>)) (\<lambda>_.
                  ret (br_id bp, br_verified bp, br_message bp))
            | None \<Rightarrow> ret (0, False, [])) (\<lambda>(bid, verified, message).
         ret (into_outcome
           (resp_set ''message'' (JStr (function_bp_message name verified message))
           (resp_set ''function'' (JStr name)
           (resp_set ''verified'' (JBool verified)
           (resp_set ''breakpoint_id'' (jint bid) resp_new)))))))))))))"

definition remove_send_error :: "bool \<Rightarrow> string" where
  "remove_send_error was_function =
     (if was_function then ope_request_failed SET_FUNCTION_BREAKPOINTS else ope_request_failed SET_BREAKPOINTS)"

definition remaining_source_breakpoints :: "source_bp list \<Rightarrow> breakpoint_info \<Rightarrow> source_bp list" where
  "remaining_source_breakpoints current info = remove_first (\<lambda>bp. sb_line bp = bi_line info) current"

definition remaining_function_breakpoints :: "function_bp list \<Rightarrow> breakpoint_info \<Rightarrow> function_bp list" where
  "remaining_function_breakpoints current info = remove_first (\<lambda>bp. fb_name bp = bi_function info) current"

text \<open>The list that would remain is sent, then the removal is committed.\<close>

definition send_remaining ::
  "('b, 'w) backend_api \<Rightarrow> breakpoint_info \<Rightarrow> (unit \<Rightarrow> ('b, 'w, tool_outcome) task) \<Rightarrow> ('b, 'w, tool_outcome) task" where
  "send_remaining api info k =
     (if bi_ty info = ''function'' then
        seq (read_session all_function_breakpoints) (\<lambda>tracked.
        call_or (render SET_FUNCTION_BREAKPOINTS)
          (ba_set_function_breakpoints api (remaining_function_breakpoints tracked info)) (\<lambda>_. k ()))
      else
        seq (read_session (source_breakpoints_for_file (bi_file info))) (\<lambda>tracked.
        call_or (render SET_BREAKPOINTS)
          (ba_set_source_breakpoints api (bi_file info) (remaining_source_breakpoints tracked info)) (\<lambda>_. k ())))"

definition handle_remove_breakpoint :: "('b, 'w) tool_env \<Rightarrow> args \<Rightarrow> ('b, 'w, tool_outcome) task" where
  "handle_remove_breakpoint env a =
     guarded_by [SStopped] (
     arg_or (require_int a ''breakpoint_id'') (\<lambda>bid.
     seq (read_session (get_breakpoint_info bid)) (\<lambda>found.
     case found of
       None \<Rightarrow>
         ret (Error (''failed to remove breakpoint: breakpoint ID '' @ show_int bid @ '' not found''))
     | Some info \<Rightarrow>
         with_backend env (remove_send_error (bi_ty info = ''function'')) (\<lambda>api.
         send_remaining api info (\<lambda>_.
         seq (session_step (remove_breakpoint_by_id bid)) (\<lambda>removed.
         case removed of
           Inl e \<Rightarrow> ret (Error (''failed to remove breakpoint: '' @ e))
         | Inr _ \<Rightarrow>
             ret (into_outcome
               (resp_set ''breakpoint_id'' (jint bid) (resp_set ''removed'' (JBool True) resp_new)))))))))"

definition breakpoint_entry :: "breakpoint_info \<Rightarrow> json" where
  "breakpoint_entry bp =
     JObj (resp_set_if (bi_condition bp \<noteq> []) ''condition'' (JStr (bi_condition bp))
          (resp_set_if (bi_function bp \<noteq> []) ''function'' (JStr (bi_function bp))
          (resp_set_if (0 < bi_line bp) ''line'' (jint (bi_line bp))
          (resp_set_if (bi_file bp \<noteq> []) ''file'' (JStr (bi_file bp))
          (resp_set ''verified'' (JBool (bi_verified bp))
          (resp_set ''type'' (JStr (bi_ty bp))
          (resp_set ''id'' (jint (bi_id bp)) resp_new)))))))"

definition handle_list_breakpoints :: "('b, 'w) tool_env \<Rightarrow> ('b, 'w, tool_outcome) task" where
  "handle_list_breakpoints env =
     seq (read_session (list_breakpoints (env_order env))) (\<lambda>breakpoints.
       let items = map breakpoint_entry breakpoints in
       ret (into_outcome
         (resp_set ''count'' (jnat (length items)) (resp_set ''breakpoints'' (JArr items) resp_new))))"

end
