(* ===== verification/Output_Report.thy ===== *)
theory Output_Report
  imports Tool_Args Output_Buffer
begin

text \<open>
  \<^verbatim>\<open>format_output_entries\<close> of \<^verbatim>\<open>mcp-tools/src/format.rs\<close>: drained output grouped by category.
\<close>

definition bucket_of :: "output_entry \<Rightarrow> string" where
  "bucket_of e =
     (if oe_category e = ''stdout'' then ''stdout'' else if oe_category e = ''stderr'' then ''stderr'' else ''console'')"

text \<open>The loop over the entries, with its three accumulators.\<close>

fun group_output :: "output_entry list \<Rightarrow> string \<times> string \<times> string \<Rightarrow> string \<times> string \<times> string" where
  "group_output [] acc = acc"
| "group_output (e # es) (stdout, stderr, console) =
     (if oe_category e = ''stdout'' then group_output es (stdout @ oe_text e, stderr, console)
      else if oe_category e = ''stderr'' then group_output es (stdout, stderr @ oe_text e, console)
      else group_output es (stdout, stderr, console @ oe_text e))"

text \<open>The object, as a map.\<close>

definition format_output_entries :: "output_entry list \<Rightarrow> jmap" where
  "format_output_entries entries =
     (if entries = [] then resp_set ''count'' (jnat 0) (resp_set ''output'' (JStr []) resp_new)
      else
        (case group_output entries ([], [], []) of
           (stdout, stderr, console) \<Rightarrow>
             resp_set_if (console \<noteq> []) ''console'' (JStr console)
            (resp_set_if (stderr \<noteq> []) ''stderr'' (JStr stderr)
            (resp_set_if (stdout \<noteq> []) ''stdout'' (JStr stdout)
            (resp_set ''count'' (jnat (length entries)) resp_new)))))"

text \<open>\<^verbatim>\<open>merge_output\<close> of \<^verbatim>\<open>execution.rs\<close>: every key of the object is inserted into the response.\<close>

definition merge_output :: "output_entry list \<Rightarrow> resp_builder \<Rightarrow> resp_builder" where
  "merge_output entries b = fold (\<lambda>(k, v). resp_set k v) (format_output_entries entries) b"

definition bucket_text :: "string \<Rightarrow> output_entry list \<Rightarrow> string" where
  "bucket_text k es = concat (map oe_text (filter (\<lambda>e. bucket_of e = k) es))"

lemma group_output_spec:
  "group_output es (a, b, c) =
     (a @ bucket_text ''stdout'' es, b @ bucket_text ''stderr'' es, c @ bucket_text ''console'' es)"
  by (induction es arbitrary: a b c) (auto simp: bucket_text_def bucket_of_def)

lemma bt_ok_resp [simp]:
  "bt_ok resp_new" "bt_ok m \<Longrightarrow> bt_ok (resp_set k v m)" "bt_ok m \<Longrightarrow> bt_ok (resp_set_opt k ov m)"
  "bt_ok m \<Longrightarrow> bt_ok (resp_set_if c k v m)"
  by (auto simp: resp_new_def resp_set_def resp_set_opt_def resp_set_if_def split: option.split)

lemma format_output_get:
  assumes "es \<noteq> []" "k \<in> {''stdout'', ''stderr'', ''console''}"
  shows "bt_get (format_output_entries es) k = (if bucket_text k es = [] then None else Some (JStr (bucket_text k es)))"
  using assms by (auto simp: format_output_entries_def group_output_spec)

lemma bt_ok_format [simp]: "bt_ok (format_output_entries es)"
  by (simp add: format_output_entries_def split: prod.split)

lemma merge_get: "bt_ok m \<Longrightarrow> bt_get (fold (\<lambda>(k, v). resp_set k v) m b) k =
    (case bt_get m k of None \<Rightarrow> bt_get b k | Some v \<Rightarrow> Some v)"
proof (induction m arbitrary: b)
  case Nil
  then show ?case by simp
next
  case (Cons kv m)
  obtain k' v' where kv: "kv = (k', v')" by (cases kv)
  have "bt_ok m" "bt_get m k' = None" using Cons.prems
    by (auto simp: kv bt_ok_def bt_get_def map_of_eq_None_iff)
  moreover have "bt_get ((k', v') # m) k = (if k = k' then Some v' else bt_get m k)" by (simp add: bt_get_def)
  ultimately show ?case
    using Cons.IH [of "resp_set k' v' b"] by (simp add: kv split: option.split)
qed

text \<open>
  Merged into a response, drained output loses nothing: each of the three keys holds the texts
  of its bucket in the order they arrived and is there only when there is such text, every
  category other than stdout and stderr counts as console, the number of entries is reported, and
  the other keys of the response are untouched.
\<close>

theorem merged_output_complete:
  "k \<in> {''stdout'', ''stderr'', ''console''} \<Longrightarrow> bt_get b k = None \<Longrightarrow>
     bt_get (merge_output es b) k = (if bucket_text k es = [] then None else Some (JStr (bucket_text k es))) \<and>
     bt_get (merge_output es b) ''count'' = Some (jnat (length es)) \<and>
     (bt_get (merge_output es b) k' \<noteq> bt_get b k' \<longrightarrow>
        k' \<in> {''stdout'', ''stderr'', ''console'', ''count'', ''output''})"
proof (cases "es = []")
  case True
  then show "k \<in> {''stdout'', ''stderr'', ''console''} \<Longrightarrow> bt_get b k = None \<Longrightarrow> ?thesis"
    by (auto simp: merge_output_def merge_get) (auto simp: format_output_entries_def bucket_text_def split: if_splits)
next
  case False
  assume k: "k \<in> {''stdout'', ''stderr'', ''console''}" "bt_get b k = None"
  from False k show ?thesis
    by (auto simp: merge_output_def merge_get format_output_get)
      (auto simp: format_output_entries_def group_output_spec split: if_splits)
qed

theorem merged_output_complete_witness:
  "bt_get (merge_output [\<lparr>oe_category = ''stdout'', oe_text = ''a''\<rparr>, \<lparr>oe_category = ''telemetry'', oe_text = ''b''\<rparr>,
      \<lparr>oe_category = ''stdout'', oe_text = ''c''\<rparr>] resp_new) ''stdout'' = Some (JStr ''ac'')"
  using merged_output_complete [of "''stdout''" resp_new "[\<lparr>oe_category = ''stdout'', oe_text = ''a''\<rparr>,
      \<lparr>oe_category = ''telemetry'', oe_text = ''b''\<rparr>, \<lparr>oe_category = ''stdout'', oe_text = ''c''\<rparr>]" "''x''"]
  by (simp add: bucket_text_def bucket_of_def)

end
