(* ===== verification/Execution_Tools.thy ===== *)
theory Execution_Tools
  imports Tool_Server Output_Report
begin

text \<open>
  \<^verbatim>\<open>mcp-tools/src/handlers/execution.rs\<close> and \<^verbatim>\<open>output.rs\<close>: resuming the program and waiting for the
  next stop, pausing, reading the captured output.
\<close>

datatype resume = Continue | Step step_kind

definition run_backend ::
  "('b, 'w) backend_api \<Rightarrow> resume \<Rightarrow> i64 \<Rightarrow> granularity option \<Rightarrow> ('b, 'w, backend_error + stop_outcome) task" where
  "run_backend api r thread_id gran =
     (case r of Continue \<Rightarrow> ba_cont api thread_id | Step kind \<Rightarrow> ba_step api kind thread_id gran)"

definition parse_granularity :: "args \<Rightarrow> granularity option" where
  "parse_granularity a =
     (let g = get_string a ''granularity'' [] in
      if g = ''line'' then Some Line else if g = ''instruction'' then Some Instruction else None)"

text \<open>The explicit thread, else the one that stopped last, else 1.\<close>

definition resolve_thread_id :: "args \<Rightarrow> session \<Rightarrow> string + i64" where
  "resolve_thread_id a s =
     and_then (explicit_positive_thread_id a) (\<lambda>o_tid.
       case o_tid of Some tid \<Rightarrow> Inr tid | None \<Rightarrow> Inr (last_thread s))"

definition stopped_response :: "stop_info \<Rightarrow> resp_builder" where
  "stopped_response info =
     resp_set_if (si_hit_breakpoint_ids info \<noteq> []) ''hit_breakpoint_ids'' (JArr (map jint (si_hit_breakpoint_ids info)))
    (resp_set ''description'' (JStr (si_description info))
    (resp_set ''thread_id'' (jint (si_thread_id info))
    (resp_set ''reason'' (JStr (si_reason info))
    (resp_set ''status'' (JStr ''stopped'') resp_new))))"

text \<open>The outcome of a stop; the session is written only while the generation is the same.\<close>

definition handle_stop_result :: "stop_outcome \<Rightarrow> u64 \<Rightarrow> ('b, 'w, tool_outcome) task" where
  "handle_stop_result outcome generation =
     (case outcome of
        Stopped info \<Rightarrow>
          seq (session_step (set_state_if_generation generation SStopped)) (\<lambda>applied.
          seq (modify_session (if applied then set_last_stopped info else (\<lambda>s. s))) (\<lambda>_.
          seq (session_step drain_output) (\<lambda>entries.
            ret (into_outcome (merge_output entries (stopped_response info))))))
      | Exited code \<Rightarrow>
          seq (session_step (terminate_if_generation generation code)) (\<lambda>_.
          seq (session_step drain_output) (\<lambda>entries.
            ret (into_outcome (merge_output entries
              (resp_set_opt ''exit_code'' (map_option jint code)
              (resp_set ''status'' (JStr ''exited'') resp_new))))))
      | Terminated \<Rightarrow>
          seq (session_step (set_state_if_generation generation STerminated)) (\<lambda>_.
            ret (into_outcome
              (resp_set ''message'' (JStr ''Debug session ended'')
              (resp_set ''status'' (JStr ''terminated'') resp_new)))))"

definition resume_tool ::
  "('b, 'w) tool_env \<Rightarrow> resume \<Rightarrow> op_error \<Rightarrow> string \<Rightarrow> args \<Rightarrow> ('b, 'w) cancel \<Rightarrow> ('b, 'w, tool_outcome) task" where
  "resume_tool env r op_err timeout_msg a ct =
     guarded_by [SStopped] (
     seq (read_session (resolve_thread_id a)) (\<lambda>tid.
     arg_or tid (\<lambda>thread_id.
     with_backend env (ope_request_failed op_err) (\<lambda>api.
     seq (read_session ss_generation) (\<lambda>generation.
     seq (modify_session (set_state Running)) (\<lambda>_.
     let gran = (case r of Continue \<Rightarrow> None | Step _ \<Rightarrow> parse_granularity a) in
     seq (select_cancel ct (run_backend api r thread_id gran)) (\<lambda>result.
     case result of
       None \<Rightarrow> ret (Error timeout_msg)
     | Some (Inr outcome) \<Rightarrow> handle_stop_result outcome generation
     | Some (Inl e) \<Rightarrow>
         seq (modify_session (set_state SStopped)) (\<lambda>_. ret (Error (render op_err e))))))))))"

definition timed_out :: "string \<Rightarrow> string" where
  "timed_out verb = verb @ '' timed out; process still running, use '' @ quoted ''pause'' @ '' to stop it''"

definition handle_continue :: "('b, 'w) tool_env \<Rightarrow> args \<Rightarrow> ('b, 'w) cancel \<Rightarrow> ('b, 'w, tool_outcome) task" where
  "handle_continue env = resume_tool env Continue CONTINUE (timed_out ''continue'')"

definition handle_step_over :: "('b, 'w) tool_env \<Rightarrow> args \<Rightarrow> ('b, 'w) cancel \<Rightarrow> ('b, 'w, tool_outcome) task" where
  "handle_step_over env = resume_tool env (Step Over) STEP_OVER (timed_out ''step over'')"

definition handle_step_into :: "('b, 'w) tool_env \<Rightarrow> args \<Rightarrow> ('b, 'w) cancel \<Rightarrow> ('b, 'w, tool_outcome) task" where
  "handle_step_into env = resume_tool env (Step Into) STEP_INTO (timed_out ''step into'')"

definition handle_step_out :: "('b, 'w) tool_env \<Rightarrow> args \<Rightarrow> ('b, 'w) cancel \<Rightarrow> ('b, 'w, tool_outcome) task" where
  "handle_step_out env = resume_tool env (Step Out) STEP_OUT (timed_out ''step out'')"

definition handle_pause :: "('b, 'w) tool_env \<Rightarrow> ('b, 'w, tool_outcome) task" where
  "handle_pause env =
     guarded_by [Running] (
     with_backend env (ope_request_failed PAUSE) (\<lambda>api.
     call_or (render PAUSE) (ba_pause api) (\<lambda>_.
       ret (into_outcome
         (resp_set ''message'' (JStr (''Pause request sent. The running continue/step operation will return '' @
                                      ''when the process stops.''))
         (resp_set ''status'' (JStr ''pause_requested'') resp_new))))))"

definition handle_read_output :: "('b, 'w, tool_outcome) task" where
  "handle_read_output =
     guarded_by [Configuring, SStopped, Running, STerminated] (
     seq (session_step drain_output) (\<lambda>entries. ret (into_outcome (format_output_entries entries))))"

end
