(* ===== verification/Flatten.thy ===== *)
theory Flatten
  imports Tool_Args Computations
begin

text \<open>
  \<^verbatim>\<open>mcp-tools/src/flatten.rs\<close>: the expansion of a variables reference into a flat list with a
  depth and a count limit. The fetch of one level is a computation. The contract is a plain
  listing without a limit: what the code returns is its beginning.
\<close>

record flat_variable =
  fv_name :: string
  fv_value :: string
  fv_ty :: string
  fv_has_children :: bool
  fv_children_count :: i64

text \<open>The derived serialiser: empty type, false and zero are left out.\<close>

definition flat_json :: "flat_variable \<Rightarrow> json" where
  "flat_json v =
     JObj (resp_set_if (fv_children_count v \<noteq> 0) ''children_count'' (jint (fv_children_count v))
          (resp_set_if (fv_has_children v) ''has_children'' (JBool True)
          (resp_set_if (fv_ty v \<noteq> []) ''type'' (JStr (fv_ty v))
          (resp_set ''value'' (JStr (fv_value v))
          (resp_set ''name'' (JStr (fv_name v)) resp_new)))))"

definition flat_bare :: "string \<Rightarrow> variable \<Rightarrow> flat_variable" where
  "flat_bare name v =
     \<lparr>fv_name = name, fv_value = va_value v, fv_ty = va_ty v, fv_has_children = False, fv_children_count = 0\<rparr>"

definition flat_unexpanded :: "string \<Rightarrow> variable \<Rightarrow> flat_variable" where
  "flat_unexpanded name v =
     (flat_bare name v)\<lparr>fv_has_children := True, fv_children_count := wrap_i64 (va_named v + va_indexed v)\<rparr>"

type_synonym 'w fetcher = "i64 \<Rightarrow> ('w, backend_error + variable list) proc"

text \<open>
  \<open>flatten_recursive\<close> and its loop. The accumulated result is passed on; a depth that is not
  positive behaves like 0.
\<close>

function flatten_recursive ::
    "'w fetcher \<Rightarrow> nat \<Rightarrow> i64 \<Rightarrow> string \<Rightarrow> nat \<Rightarrow> flat_variable list \<Rightarrow>
       ('w, backend_error + flat_variable list \<times> bool) proc"
  and flatten_loop ::
    "'w fetcher \<Rightarrow> nat \<Rightarrow> string \<Rightarrow> nat \<Rightarrow> variable list \<Rightarrow> flat_variable list \<Rightarrow>
       ('w, backend_error + flat_variable list \<times> bool) proc"
where
  "flatten_recursive fetch max_count var_ref pfx depth result =
     try_then (fetch var_ref) (\<lambda>vars. flatten_loop fetch max_count pfx depth vars result)"
| "flatten_loop fetch max_count pfx depth [] result = ret (Inr (result, False))"
| "flatten_loop fetch max_count pfx depth (v # vs) result =
     (let child_name = pfx @ ''.'' @ va_name v in
      if va_variables_reference v > 0 then
        (if depth > 0 then
           (let result = result @ [flat_bare child_name v] in
            if max_count \<le> length result then ret (Inr (result, True))
            else
              try_then (flatten_recursive fetch max_count (va_variables_reference v) child_name (depth - 1) result)
                (\<lambda>(result, truncated).
                   if truncated then ret (Inr (result, True))
                   else flatten_loop fetch max_count pfx depth vs result))
         else
           (let result = result @ [flat_unexpanded child_name v] in
            if max_count \<le> length result then ret (Inr (result, True))
            else flatten_loop fetch max_count pfx depth vs result))
      else
        (let result = result @ [flat_bare child_name v] in
         if max_count \<le> length result then ret (Inr (result, True))
         else flatten_loop fetch max_count pfx depth vs result))"
  by pat_completeness auto
termination
  by (relation "inv_image (less_than <*lex*> less_than <*lex*> less_than)
        (\<lambda>x. case x of
           Inl (fetch, max_count, var_ref, pfx, depth, result) \<Rightarrow> (depth, 1::nat, 0)
         | Inr (fetch, max_count, pfx, depth, vars, result) \<Rightarrow> (depth, 0, length vars))") auto

declare flatten_recursive.simps [simp del]

text \<open>The top level: the names are not prefixed, the filter applies here only.\<close>

definition name_matches :: "text_env \<Rightarrow> string \<Rightarrow> variable \<Rightarrow> bool" where
  "name_matches te filt v \<longleftrightarrow>
     filt = [] \<or> str_contains (to_lowercase (te_lower te) (va_name v)) (to_lowercase (te_lower te) filt)"

fun flatten_top ::
  "text_env \<Rightarrow> 'w fetcher \<Rightarrow> nat \<Rightarrow> string \<Rightarrow> nat \<Rightarrow> variable list \<Rightarrow> flat_variable list \<Rightarrow>
     ('w, backend_error + flat_variable list \<times> bool) proc"
where
  "flatten_top te fetch max_count filt depth [] result = ret (Inr (result, False))"
| "flatten_top te fetch max_count filt depth (v # vs) result =
     (if \<not> name_matches te filt v then flatten_top te fetch max_count filt depth vs result
      else if va_variables_reference v > 0 then
        (if depth > 0 then
           (let result = result @ [flat_bare (va_name v) v] in
            if max_count \<le> length result then ret (Inr (result, True))
            else
              try_then (flatten_recursive fetch max_count (va_variables_reference v) (va_name v) (depth - 1) result)
                (\<lambda>(result, truncated).
                   if truncated then ret (Inr (result, True))
                   else flatten_top te fetch max_count filt depth vs result))
         else
           (let result = result @ [flat_unexpanded (va_name v) v] in
            if max_count \<le> length result then ret (Inr (result, True))
            else flatten_top te fetch max_count filt depth vs result))
      else
        (let result = result @ [flat_bare (va_name v) v] in
         if max_count \<le> length result then ret (Inr (result, True))
         else flatten_top te fetch max_count filt depth vs result))"

definition flatten_variables ::
  "text_env \<Rightarrow> 'w fetcher \<Rightarrow> i64 \<Rightarrow> i64 \<Rightarrow> nat \<Rightarrow> string \<Rightarrow>
     ('w, backend_error + flat_variable list \<times> bool) proc"
where
  "flatten_variables te fetch reference depth max_count filt =
     try_then (fetch reference) (\<lambda>vars. flatten_top te fetch max_count filt (nat depth) vars [])"

section \<open>The listing without a limit\<close>

text \<open>
  \<open>kids\<close> gives the children of a reference. A container is followed by its children while there is
  depth left, and is otherwise marked with its number of children.
\<close>

primrec listing ::
  "(i64 \<Rightarrow> variable list) \<Rightarrow> nat \<Rightarrow> (string \<Rightarrow> string) \<Rightarrow> variable list \<Rightarrow> flat_variable list"
where
  "listing kids 0 path vs =
     map (\<lambda>v. if va_variables_reference v > 0 then flat_unexpanded (path (va_name v)) v
              else flat_bare (path (va_name v)) v) vs"
| "listing kids (Suc d) path vs =
     concat (map (\<lambda>v. flat_bare (path (va_name v)) v #
        (if va_variables_reference v > 0
         then listing kids d (\<lambda>s. path (va_name v) @ ''.'' @ s) (kids (va_variables_reference v))
         else [])) vs)"

lemma listing_Nil [simp]: "listing kids d path [] = []"
  by (cases d) simp_all

lemma listing_Cons:
  "listing kids d path (v # vs) =
     (if va_variables_reference v > 0
      then (if d > 0
            then flat_bare (path (va_name v)) v #
                 listing kids (d - 1) (\<lambda>s. path (va_name v) @ ''.'' @ s) (kids (va_variables_reference v))
            else [flat_unexpanded (path (va_name v)) v])
      else [flat_bare (path (va_name v)) v]) @ listing kids d path vs"
  by (cases d) simp_all

text \<open>A fetcher that answers every reference from \<open>kids\<close>.\<close>

definition answers :: "'w fetcher \<Rightarrow> (i64 \<Rightarrow> variable list) \<Rightarrow> bool" where
  "answers fetch kids \<longleftrightarrow> (\<forall>r w. \<exists>w'. fetch r w = Some (Inr (kids r), w'))"

text \<open>What a computation returns, whatever it does to the world.\<close>

definition returns :: "('w, 'a) proc \<Rightarrow> 'a \<Rightarrow> bool" where
  "returns p x \<longleftrightarrow> (\<forall>w. \<exists>w'. p w = Some (x, w'))"

lemma returns_ret: "returns (ret x) x"
  by (simp add: returns_def ret_def)

lemma returns_try: "returns p (Inr x) \<Longrightarrow> returns (f x) y \<Longrightarrow> returns (try_then p f) y"
  unfolding returns_def try_then_def seq_def by (metis (no_types, lifting) case_prod_conv option.simps(5) sum.simps(6))

definition capped :: "nat \<Rightarrow> flat_variable list \<Rightarrow> backend_error + flat_variable list \<times> bool" where
  "capped n xs = Inr (take n xs, n \<le> length xs)"

lemma capped_short: "length xs < n \<Longrightarrow> capped n xs = Inr (xs, False)"
  by (simp add: capped_def)

lemma capped_full: "length xs = n \<Longrightarrow> capped n (xs @ ys) = Inr (xs, True)"
  by (simp add: capped_def)

lemma capped_step:
  assumes "returns p (capped n (r @ l))"
    and "length (r @ l) < n \<Longrightarrow> returns (g (r @ l)) (capped n (r @ l @ l'))"
  shows "returns (try_then p (\<lambda>(result, truncated). if truncated then ret (Inr (result, True)) else g result))
    (capped n (r @ l @ l'))"
proof (cases "length (r @ l) < n")
  case True
  with assms capped_short [OF True] show ?thesis by (auto intro: returns_try)
next
  case False
  then have "capped n (r @ l) = Inr (take n (r @ l), True)" "capped n (r @ l @ l') = Inr (take n (r @ l), True)"
    by (auto simp: capped_def)
  with assms(1) show ?thesis by (auto intro!: returns_try returns_ret)
qed

text \<open>The cap test of the code, which counts what has just been added.\<close>

lemma cap_test: "max_count \<le> length (r @ [x]) \<longleftrightarrow> max 1 max_count \<le> length (r @ [x])"
  by simp

lemma push_step:
  assumes "length r < max 1 max_count"
    and "length (r @ [x]) < max 1 max_count \<Longrightarrow> returns p (capped (max 1 max_count) (r @ [x] @ l))"
  shows "returns (if max_count \<le> length (r @ [x]) then ret (Inr (r @ [x], True)) else p)
    (capped (max 1 max_count) (r @ [x] @ l))"
proof (cases "max_count \<le> length (r @ [x])")
  case True
  with assms(1) have "length (r @ [x]) = max 1 max_count" by auto
  from capped_full [OF this, of l] True show ?thesis by (simp add: returns_ret)
next
  case False
  then have "length (r @ [x]) < max 1 max_count" by auto
  from assms(2) [OF this] False show ?thesis by simp
qed

lemma push_only:
  assumes "length r < max 1 max_count"
    and "\<And>r. length r < max 1 max_count \<Longrightarrow> returns (g r) (capped (max 1 max_count) (r @ l))"
  shows "returns (if max_count \<le> length (r @ [x]) then ret (Inr (r @ [x], True)) else g (r @ [x]))
    (capped (max 1 max_count) (r @ [x] @ l))"
  using push_step [OF assms(1), of x "g (r @ [x])" l] assms(2) [of "r @ [x]"] by simp

lemma push_deep:
  assumes "length r < max 1 max_count"
    and "\<And>r. length r < max 1 max_count \<Longrightarrow> returns (p r) (capped (max 1 max_count) (r @ l))"
    and "\<And>r. length r < max 1 max_count \<Longrightarrow> returns (g r) (capped (max 1 max_count) (r @ l'))"
  shows "returns (if max_count \<le> length (r @ [x]) then ret (Inr (r @ [x], True))
      else try_then (p (r @ [x])) (\<lambda>(result, truncated). if truncated then ret (Inr (result, True)) else g result))
    (capped (max 1 max_count) (r @ [x] @ l @ l'))"
proof (rule push_step [OF assms(1)])
  assume "length (r @ [x]) < max 1 max_count"
  from capped_step [OF assms(2) [OF this], of g l'] assms(3) [of "(r @ [x]) @ l"]
  show "returns (try_then (p (r @ [x])) (\<lambda>(result, truncated). if truncated then ret (Inr (result, True)) else g result))
    (capped (max 1 max_count) (r @ [x] @ l @ l'))"
    by simp
qed

abbreviation under :: "string \<Rightarrow> string \<Rightarrow> string" where
  "under pfx s \<equiv> pfx @ ''.'' @ s"

text \<open>The loop over one level, given what the level below returns.\<close>

lemma flatten_loop_spec:
  assumes deeper: "\<And>ref pfx r. depth > 0 \<Longrightarrow> length r < max 1 max_count \<Longrightarrow>
    returns (flatten_recursive fetch max_count ref pfx (depth - 1) r)
      (capped (max 1 max_count) (r @ listing kids (depth - 1) (under pfx) (kids ref)))"
  shows "length r < max 1 max_count \<Longrightarrow>
    returns (flatten_loop fetch max_count pfx depth vs r)
      (capped (max 1 max_count) (r @ listing kids depth (under pfx) vs))"
proof (induction vs arbitrary: r)
  case Nil
  then show ?case by (simp add: capped_short returns_ret)
next
  case (Cons v vs)
  let ?name = "under pfx (va_name v)"
  note leaf = push_only [where g = "flatten_loop fetch max_count pfx depth vs", OF Cons.prems Cons.IH]
  show ?case
  proof (cases "va_variables_reference v > 0 \<and> depth > 0")
    case True
    then have "depth > 0" by simp
    from push_deep [where g = "flatten_loop fetch max_count pfx depth vs" and x = "flat_bare ?name v",
        OF Cons.prems deeper [OF this, of _ "va_variables_reference v" ?name] Cons.IH] True
    show ?thesis by (simp add: Let_def listing_Cons split del: if_split cong: if_cong)
  next
    case False
    with leaf [of "flat_unexpanded ?name v"] leaf [of "flat_bare ?name v"] show ?thesis
      by (cases "va_variables_reference v > 0") (auto simp: Let_def listing_Cons split del: if_split cong: if_cong)
  qed
qed

lemma flatten_recursive_spec:
  assumes "answers fetch kids"
  shows "length r < max 1 max_count \<Longrightarrow>
    returns (flatten_recursive fetch max_count ref pfx depth r)
      (capped (max 1 max_count) (r @ listing kids depth (under pfx) (kids ref)))"
proof (induction depth arbitrary: ref pfx r)
  case 0
  from assms have "returns (fetch ref) (Inr (kids ref))"
    by (auto simp: answers_def returns_def)
  moreover have "returns (flatten_loop fetch max_count pfx 0 (kids ref) r)
      (capped (max 1 max_count) (r @ listing kids 0 (under pfx) (kids ref)))"
    by (rule flatten_loop_spec [OF _ "0.prems"]) simp
  ultimately show ?case unfolding flatten_recursive.simps by (rule returns_try)
next
  case (Suc depth)
  from assms have "returns (fetch ref) (Inr (kids ref))"
    by (auto simp: answers_def returns_def)
  moreover have "returns (flatten_loop fetch max_count pfx (Suc depth) (kids ref) r)
      (capped (max 1 max_count) (r @ listing kids (Suc depth) (under pfx) (kids ref)))"
    by (rule flatten_loop_spec [OF _ Suc.prems]) (unfold diff_Suc_1, rule Suc.IH)
  ultimately show ?case unfolding flatten_recursive.simps by (rule returns_try)
qed

lemma flatten_top_spec:
  assumes a: "answers fetch kids"
  shows "length r < max 1 max_count \<Longrightarrow>
      returns (flatten_top te fetch max_count filt depth vs r)
        (capped (max 1 max_count) (r @ listing kids depth (\<lambda>s. s) (filter (name_matches te filt) vs)))"
proof (induction vs arbitrary: r)
  case Nil
  then show ?case by (simp add: capped_short returns_ret)
next
  case (Cons v vs)
  note leaf = push_only [where g = "flatten_top te fetch max_count filt depth vs", OF Cons.prems Cons.IH]
  note deep = push_deep [where g = "flatten_top te fetch max_count filt depth vs" and x = "flat_bare (va_name v) v",
      OF Cons.prems flatten_recursive_spec [OF a, of _ max_count "va_variables_reference v" "va_name v" "depth - 1"] Cons.IH]
  from leaf deep Cons show ?case
    by (cases "name_matches te filt v"; cases "va_variables_reference v > 0"; cases "depth > 0")
      (simp_all add: Let_def listing_Cons split del: if_split cong: if_cong)
qed

text \<open>C19. If every fetch is answered, flattening succeeds, and its list is the first n nodes of
  the listing without a limit, where n is the cap (a cap of 0 counts as 1): parents before their
  children, the filter on the top level only. The list is marked truncated exactly when the
  listing reaches the cap, so also when it fits exactly.\<close>

theorem flatten_is_a_cut_listing:
  assumes "answers fetch kids"
  shows "\<exists>w'. flatten_variables te fetch reference depth max_count filt w =
    Some (Inr (take (max 1 max_count)
                 (listing kids (nat depth) (\<lambda>s. s) (filter (name_matches te filt) (kids reference))),
               max 1 max_count \<le>
                 length (listing kids (nat depth) (\<lambda>s. s) (filter (name_matches te filt) (kids reference)))), w')"
proof -
  from assms have "returns (fetch reference) (Inr (kids reference))"
    by (auto simp: answers_def returns_def)
  from returns_try [where f = "\<lambda>vars. flatten_top te fetch max_count filt (nat depth) vars []", OF this]
    flatten_top_spec [OF assms, of "[]" max_count te filt "nat depth" "kids reference"]
  have "returns (flatten_variables te fetch reference depth max_count filt)
      (capped (max 1 max_count)
         (listing kids (nat depth) (\<lambda>s. s) (filter (name_matches te filt) (kids reference))))"
    unfolding flatten_variables_def by simp
  then show ?thesis by (simp add: returns_def capped_def)
qed

definition sample_kids :: "i64 \<Rightarrow> variable list" where
  "sample_kids r =
     (let leaf = (\<lambda>n ref. \<lparr>va_name = n, va_value = ''1'', va_ty = ''int'', va_variables_reference = ref,
                           va_named = 1, va_indexed = 0\<rparr>)
      in if r = 1 then [leaf ''p'' 2, leaf ''q'' 0] else if r = 2 then [leaf ''x'' 0] else [])"

theorem flatten_is_a_cut_listing_witness:
  "\<exists>w'. flatten_variables \<lparr>te_parse = (\<lambda>_. Inr JNull), te_show_json = (\<lambda>_. []), te_lower = (\<lambda>s. s)\<rparr>
       (\<lambda>r. ret (Inr (sample_kids r))) 1 1 3 [] () =
     Some (Inr (map (\<lambda>n. \<lparr>fv_name = n, fv_value = ''1'', fv_ty = ''int'', fv_has_children = False,
                         fv_children_count = 0\<rparr>) [''p'', ''p.x'', ''q''], True), w')"
proof -
  have "answers (\<lambda>r. ret (Inr (sample_kids r)) :: (unit, backend_error + variable list) proc) sample_kids"
    by (simp add: answers_def ret_def)
  from flatten_is_a_cut_listing [OF this, of "\<lparr>te_parse = (\<lambda>_. Inr JNull), te_show_json = (\<lambda>_. []), te_lower = (\<lambda>s. s)\<rparr>"
      1 1 3 "[]" "()"]
  show ?thesis by (simp add: name_matches_def sample_kids_def flat_bare_def listing_Cons)
qed

end
