(* ===== verification/Inspection_Tools.thy ===== *)
theory Inspection_Tools
  imports Tool_Server Execution_Tools Flatten
begin

text \<open>
  \<^verbatim>\<open>mcp-tools/src/handlers/inspection.rs\<close> and \<^verbatim>\<open>run_command.rs\<close>: the cached status, and the views of
  a stopped program.
\<close>

definition handle_status :: "('b, 'w, tool_outcome) task" where
  "handle_status =
     seq (read_session (\<lambda>s.
       let b = resp_set ''state'' (JStr (show_state (ss_state s))) resp_new in
       case ss_state s of
         Idle \<Rightarrow> resp_set ''message'' (JStr ''No active debug session'') b
       | Configuring \<Rightarrow> resp_set ''message'' (JStr ''Debug session is being configured'') b
       | SStopped \<Rightarrow>
           let b = resp_set ''pid'' (jint (ss_pid s)) (resp_set ''program'' (JStr (ss_program s)) b) in
           (case ss_last_stopped s of
              None \<Rightarrow> b
            | Some event \<Rightarrow>
                resp_set_if (si_hit_breakpoint_ids event \<noteq> []) ''hit_breakpoint_ids''
                  (JArr (map jint (si_hit_breakpoint_ids event)))
               (resp_set_if (si_description event \<noteq> []) ''stop_description'' (JStr (si_description event))
               (resp_set ''stopped_thread_id'' (jint (si_thread_id event))
               (resp_set ''stop_reason'' (JStr (si_reason event)) b))))
       | Running \<Rightarrow> resp_set ''pid'' (jint (ss_pid s)) (resp_set ''program'' (JStr (ss_program s)) b)
       | STerminated \<Rightarrow>
           resp_set_opt ''exit_code'' (map_option jint (ss_exit_code s))
             (resp_set ''program'' (JStr (ss_program s)) b))) (\<lambda>b. ret (into_outcome b))"

text \<open>A number argument replaces the preset when it is there and the test accepts it.\<close>

definition number_or :: "(f64 \<Rightarrow> bool) \<Rightarrow> args \<Rightarrow> string \<Rightarrow> i64 \<Rightarrow> i64" where
  "number_or ok a key preset =
     (case get_f64 a key of Some f \<Rightarrow> if ok f then f64_as_i64 f else preset | None \<Rightarrow> preset)"

definition nonempty_str :: "string option \<Rightarrow> bool" where
  "nonempty_str o_s \<longleftrightarrow> (case o_s of Some p \<Rightarrow> p \<noteq> [] | None \<Rightarrow> False)"

definition opt_str :: "string option \<Rightarrow> json" where
  "opt_str o_s = JStr (case o_s of Some p \<Rightarrow> p | None \<Rightarrow> [])"

definition frame_entry :: "frame \<Rightarrow> json" where
  "frame_entry f =
     JObj (resp_set_if (nonempty_str (fr_instruction_pointer f)) ''address'' (opt_str (fr_instruction_pointer f))
          (resp_set_if (nonempty_str (fr_source_path f)) ''line'' (jint (fr_line f))
          (resp_set_if (nonempty_str (fr_source_path f)) ''file'' (opt_str (fr_source_path f))
          (resp_set ''id'' (jint (fr_id f))
          (resp_set ''name'' (JStr (fr_name f))
          (resp_set ''index'' (jint (fr_index f)) resp_new))))))"

definition handle_backtrace :: "('b, 'w) tool_env \<Rightarrow> args \<Rightarrow> ('b, 'w, tool_outcome) task" where
  "handle_backtrace env a =
     guarded_by [SStopped] (
     seq (read_session (resolve_thread_id a)) (\<lambda>tid.
     arg_or tid (\<lambda>thread_id.
     let levels = number_or f64_pos a ''levels'' 20 in
     with_backend env (ope_request_failed STACK_TRACE) (\<lambda>api.
     call_or (render STACK_TRACE) (ba_stack_trace api thread_id 0 levels) (\<lambda>(frames, total_frames).
     seq (modify_session (set_frame_mapping (frame_map frames))) (\<lambda>_.
       ret (into_outcome
         (resp_set ''thread_id'' (jint thread_id)
         (resp_set ''total_frames'' (jint total_frames)
         (resp_set ''frames'' (JArr (map frame_entry frames)) resp_new))))))))))"

definition thread_entry :: "i64 option \<Rightarrow> thread_info \<Rightarrow> json" where
  "thread_entry last_stopped_tid th =
     JObj (resp_set_if (Some (th_id th) = last_stopped_tid) ''is_current'' (JBool True)
          (resp_set_if (Some (th_id th) = last_stopped_tid) ''is_stopped'' (JBool True)
          (resp_set ''name'' (JStr (th_name th))
          (resp_set ''id'' (jint (th_id th)) resp_new))))"

definition stopped_thread :: "i64 option \<Rightarrow> thread_info list \<Rightarrow> i64 option" where
  "stopped_thread last_stopped_tid ths =
     map_option th_id (last_opt (filter (\<lambda>th. Some (th_id th) = last_stopped_tid) ths))"

definition handle_threads :: "('b, 'w) tool_env \<Rightarrow> ('b, 'w, tool_outcome) task" where
  "handle_threads env =
     guarded_by [SStopped] (
     with_backend env (ope_request_failed THREADS) (\<lambda>api.
     call_or (render THREADS) (ba_threads api) (\<lambda>ths.
     seq (read_session (\<lambda>s. map_option si_thread_id (ss_last_stopped s))) (\<lambda>tid.
       ret (into_outcome
         (resp_set_opt ''stopped_thread_id'' (map_option jint (stopped_thread tid ths))
         (resp_set ''count'' (jnat (length ths))
         (resp_set ''threads'' (JArr (map (thread_entry tid) ths)) resp_new))))))))"

definition VARIABLE_CAP :: nat where "VARIABLE_CAP = 100"

definition scope_matches :: "(string \<Rightarrow> string) \<Rightarrow> string \<Rightarrow> string \<Rightarrow> bool" where
  "scope_matches uni requested name =
     (let lower = to_lowercase uni name in
      if requested = ''local'' then lower = ''locals'' \<or> lower = ''local''
      else if requested = ''global'' then lower = ''globals'' \<or> lower = ''global''
      else if requested = ''register'' then lower = ''registers'' \<or> lower = ''register''
      else False)"

definition scope_arg :: "args \<Rightarrow> string" where
  "scope_arg a = (let s = get_string a ''scope'' [] in if s = [] then ''local'' else s)"

definition frame_arg :: "args \<Rightarrow> i64" where
  "frame_arg a = number_or (\<lambda>_. True) a ''frame_index'' 0"

definition unresolved :: "string \<Rightarrow> string" where
  "unresolved e = ''failed to resolve frame: '' @ e"

definition handle_variables :: "('b, 'w) tool_env \<Rightarrow> args \<Rightarrow> ('b, 'w, tool_outcome) task" where
  "handle_variables env a =
     guarded_by [SStopped] (
     let frame_index = frame_arg a;
         sc = scope_arg a;
         depth = number_or f64_nonneg a ''depth'' (if sc = ''global'' then 1 else 2);
         filt = get_string a ''filter'' []
     in
     with_backend env (unresolved ''connection closed'') (\<lambda>api.
     call_or unresolved (resolve_frame_id api frame_index) (\<lambda>frame_id.
     call_or (render SCOPES) (ba_scopes api frame_id) (\<lambda>scopes.
     case find (\<lambda>s. scope_matches (te_lower (env_text env)) sc (sc_name s)) scopes of
       None \<Rightarrow> ret (Error (''scope '' @ quoted sc @ '' not found in frame '' @ show_int frame_index))
     | Some target \<Rightarrow>
         call_or (\<lambda>e. ''failed to fetch variables: '' @ render VARIABLES e)
           (flatten_variables (env_text env) (ba_variables api) (sc_variables_reference target) depth VARIABLE_CAP filt)
           (\<lambda>(vars, truncated).
              ret (into_outcome
                (resp_set ''truncated'' (JBool truncated)
                (resp_set ''scope'' (JStr sc)
                (resp_set ''count'' (jnat (length vars))
                (resp_set ''variables'' (JArr (map flat_json vars)) resp_new))))))))))"

definition handle_evaluate :: "('b, 'w) tool_env \<Rightarrow> args \<Rightarrow> ('b, 'w, tool_outcome) task" where
  "handle_evaluate env a =
     guarded_by [SStopped] (
     arg_or (require_string a ''expression'') (\<lambda>expression.
     let frame_index = frame_arg a in
     with_backend env (unresolved ''connection closed'') (\<lambda>api.
     call_or unresolved (resolve_frame_id api frame_index) (\<lambda>frame_id.
     call_or (render EVALUATE) (ba_evaluate api expression (Some frame_id) Expression) (\<lambda>r.
       ret (into_outcome
         (resp_set_if (er_variables_reference r > 0) ''variables_reference'' (jint (er_variables_reference r))
         (resp_set_if (er_variables_reference r > 0) ''has_children'' (JBool True)
         (resp_set ''type'' (JStr (er_ty r))
         (resp_set ''result'' (JStr (er_result r)) resp_new))))))))))"

definition handle_run_command :: "('b, 'w) tool_env \<Rightarrow> args \<Rightarrow> ('b, 'w, tool_outcome) task" where
  "handle_run_command env a =
     guarded_by [SStopped] (
     arg_or (require_string a ''command'') (\<lambda>command.
     with_backend env (ope_request_failed RUN_COMMAND) (\<lambda>api.
     call_or (render RUN_COMMAND) (ba_evaluate api command None Repl) (\<lambda>r.
       ret (into_outcome
         (resp_set ''type'' (JStr (er_ty r)) (resp_set ''result'' (JStr (er_result r)) resp_new)))))))"

end
