(* ===== verification/Hex_Dump.thy ===== *)
theory Hex_Dump
  imports Rust_Text
begin

text \<open>
  \<^verbatim>\<open>format_hex_dump\<close> of \<^verbatim>\<open>mcp-tools/src/format.rs\<close>: rows of sixteen bytes with their address, the
  hexadecimal columns and a printable gutter. The bytes can be read back from the text.
\<close>

section \<open>Printing\<close>

definition printable :: "byte \<Rightarrow> bool" where
  "printable b \<longleftrightarrow> 0x20 \<le> unat b \<and> unat b \<le> 0x7e"

definition hex_columns :: "byte list \<Rightarrow> string" where
  "hex_columns row =
     concat (map (\<lambda>i. (if i = 8 then '' '' else []) @
                      (if i < length row then hex_pad 2 (unat (row ! i)) @ '' '' else ''   '')) [0..<16])"

definition gutter :: "byte list \<Rightarrow> string" where
  "gutter row =
     map (\<lambda>i. if i < length row then (if printable (row ! i) then char_of (unat (row ! i)) else CHR ''.'')
              else CHR '' '') [0..<16]"

definition dump_row :: "u64 \<Rightarrow> byte list \<Rightarrow> string" where
  "dump_row addr row =
     ''0x'' @ hex_pad 8 (unat addr) @ '': '' @ hex_columns row @ '' |'' @ gutter row @ ''|''"

text \<open>The loop over the offset.\<close>

function hex_dump_from :: "byte list \<Rightarrow> u64 \<Rightarrow> nat \<Rightarrow> string" where
  "hex_dump_from data start_addr offset =
     (if offset < length data then
        (let row = take 16 (drop offset data) in
         dump_row (start_addr + of_nat offset) row @
         (if offset + 16 < length data then [CHR 0x0A] else []) @
         hex_dump_from data start_addr (offset + 16))
      else [])"
  by pat_completeness auto
termination by (relation "measure (\<lambda>(data, _, offset). length data - offset)") auto

declare hex_dump_from.simps [simp del]

definition format_hex_dump :: "byte list \<Rightarrow> u64 \<Rightarrow> string" where
  "format_hex_dump data start_addr = hex_dump_from data start_addr 0"

section \<open>Reading a dump back\<close>

fun lines_of :: "string \<Rightarrow> string list" where
  "lines_of [] = [[]]"
| "lines_of (c # s) =
     (if c = CHR 0x0A then [] # lines_of s
      else case lines_of s of [] \<Rightarrow> [[c]] | l # ls \<Rightarrow> (c # l) # ls)"

fun hex_pairs :: "string \<Rightarrow> byte list" where
  "hex_pairs (a # b # s) =
     (case (to_digit 16 a, to_digit 16 b) of
        (Some x, Some y) \<Rightarrow> of_nat (16 * x + y) # hex_pairs s
      | _ \<Rightarrow> [])"
| "hex_pairs s = []"

text \<open>The columns are the 49 characters after the colon and the blank.\<close>

definition read_row :: "string \<Rightarrow> byte list" where
  "read_row l =
     (case after_first '': '' l of
        None \<Rightarrow> []
      | Some rest \<Rightarrow> hex_pairs (filter (\<lambda>c. c \<noteq> CHR '' '') (take 49 rest)))"

definition read_dump :: "string \<Rightarrow> byte list" where
  "read_dump s = concat (map read_row (lines_of s))"

section \<open>Facts\<close>

lemma hex_pad_chars: "c \<in> set (hex_pad w n) \<Longrightarrow> \<exists>d < 16. c = hex_digit d"
proof -
  assume "c \<in> set (hex_pad w n)"
  then consider "c = CHR ''0''" | "c \<in> set (to_radix 16 n)" by (auto simp: hex_pad_def Let_def split: if_splits)
  then show ?thesis
  proof cases
    case 1
    then have "c = hex_digit 0" by (simp add: hex_digit_def)
    then show ?thesis by (intro exI [of _ 0]) simp
  next
    case 2
    then show ?thesis using to_radix_chars [of 16 c n] by simp
  qed
qed

lemma hex_digit_not_blank: "d < 16 \<Longrightarrow> hex_digit d \<noteq> CHR '' ''"
  using less_16_cases [of d] by (auto simp: hex_digit_def)

lemma hex_pad_two: "n < 256 \<Longrightarrow> hex_pad 2 n = [hex_digit (n div 16), hex_digit (n mod 16)]"
  by (auto simp: hex_pad_def Let_def to_radix.simps [of 16] hex_digit_def)

lemma byte_less: "unat (b :: byte) < 256"
  using unsigned_less [of b] by simp

lemma byte_of_pair: "unat (b :: byte) = n \<Longrightarrow> of_nat (16 * (n div 16) + n mod 16) = b"
  using mult_div_mod_eq [of 16 n] by auto

lemma hex_pairs_byte: "hex_pairs (hex_pad 2 (unat (b :: byte)) @ s) = b # hex_pairs s"
proof -
  let ?n = "unat b"
  have "?n < 256" by (rule byte_less)
  moreover from this have "?n div 16 < 16" by auto
  ultimately show ?thesis
    using byte_of_pair [OF refl, of b] by (simp add: hex_pad_two hex_digit_facts(1))
qed

lemma hex_pairs_bytes: "hex_pairs (concat (map (\<lambda>b. hex_pad 2 (unat b)) bs)) = bs"
proof (induction bs)
  case (Cons b bs)
  then show ?case using hex_pairs_byte [of b "concat (map (\<lambda>b. hex_pad 2 (unat b)) bs)"] by simp
qed simp

lemma filter_blank_hex: "filter (\<lambda>c. c \<noteq> CHR '' '') (hex_pad w n) = hex_pad w n"
  using hex_pad_chars hex_digit_not_blank by (fastforce intro: filter_True)

definition column :: "byte list \<Rightarrow> nat \<Rightarrow> string" where
  "column row i = (if i < length row then hex_pad 2 (unat (row ! i)) @ '' '' else ''   '')"

lemma hex_columns_alt:
  "hex_columns row = concat (map (column row) [0..<8]) @ '' '' @ concat (map (column row) [8..<16])"
proof -
  have i: "[0..<16] = [0..<8] @ 8 # [9..<16]" "[8..<16] = 8 # [9..<16]" by (simp_all add: upt_rec)
  have "hex_columns row = concat (map (\<lambda>i. (if i = 8 then '' '' else []) @ column row i) [0..<16])"
    unfolding hex_columns_def column_def ..
  also have "\<dots> = concat (map (column row) [0..<8]) @ ('' '' @ column row 8) @ concat (map (column row) [9..<16])"
  proof -
    have "map (\<lambda>i. (if i = 8 then '' '' else []) @ column row i) [0..<8] = map (column row) [0..<8]"
      "map (\<lambda>i. (if i = 8 then '' '' else []) @ column row i) [9..<16] = map (column row) [9..<16]"
      by (auto intro!: map_cong)
    then show ?thesis unfolding i(1) map_append list.map concat_append concat.simps by (simp only: if_True refl)
  qed
  finally show ?thesis unfolding i(2) by simp
qed

lemma filter_columns:
  "filter (\<lambda>c. c \<noteq> CHR '' '') (concat (map (column row) is)) =
     concat (map (\<lambda>i. hex_pad 2 (unat (row ! i))) (filter (\<lambda>i. i < length row) is))"
  by (induction "is") (auto simp: column_def filter_blank_hex)

lemma filter_hex_columns:
  assumes "length row \<le> 16"
  shows "filter (\<lambda>c. c \<noteq> CHR '' '') (hex_columns row) = concat (map (\<lambda>b. hex_pad 2 (unat b)) row)"
proof -
  have "filter (\<lambda>c. c \<noteq> CHR '' '') (hex_columns row) =
      concat (map (\<lambda>i. hex_pad 2 (unat (row ! i))) (filter (\<lambda>i. i < length row) ([0..<8] @ [8..<16])))"
    by (simp only: hex_columns_alt filter_append filter_columns map_append concat_append) simp
  also have "[0..<8] @ [8..<16] = [0..<16]" by (simp add: upt_rec)
  also have "[0..<16] = [0..<length row] @ [length row..<16]"
    using assms upt_add_eq_append [of 0 "length row" "16 - length row"] by simp
  also have "filter (\<lambda>i. i < length row) ([0..<length row] @ [length row..<16]) = [0..<length row]"
    by (simp add: filter_empty_conv)
  also have "map (\<lambda>i. hex_pad 2 (unat (row ! i))) [0..<length row] = map (\<lambda>b. hex_pad 2 (unat b)) row"
    by (intro nth_equalityI) auto
  finally show ?thesis .
qed

lemma length_column: "length (column row i) = 3"
proof -
  have "unat b < 16 ^ Suc (Suc 0)" for b :: byte using byte_less [of b] by simp
  from length_hex_pad [OF this] show ?thesis by (simp add: column_def numeral_2_eq_2)
qed

lemma length_hex_columns: "length (hex_columns row) = 49"
  by (simp add: hex_columns_alt length_concat comp_def length_column sum_list_triv)

lemma length_gutter [simp]: "length (gutter row) = 16"
  by (simp add: gutter_def)

lemma after_colon:
  assumes "CHR '':'' \<notin> set p"
  shows "after_first '': '' (p @ '': '' @ t) = Some t"
proof (rule after_first_here)
  fix i assume "i < length p"
  with assms have "p ! i \<noteq> CHR '':''" by (metis nth_mem)
  moreover have "drop i (p @ '': '' @ t) = p ! i # drop (Suc i) p @ '': '' @ t"
    using \<open>i < length p\<close> by (simp add: Cons_nth_drop_Suc [symmetric])
  ultimately show "\<not> starts_with '': '' (drop i (p @ '': '' @ t))" by (simp add: starts_with_def)
qed

lemma read_dump_row:
  assumes "length row \<le> 16"
  shows "read_row (dump_row addr row) = row"
proof -
  have "CHR '':'' \<notin> set (''0x'' @ hex_pad 8 (unat addr))"
    using hex_pad_chars hex_digit_facts(8) by fastforce
  from after_colon [OF this, of "hex_columns row @ '' |'' @ gutter row @ ''|''"]
  have "after_first '': '' (dump_row addr row) = Some (hex_columns row @ '' |'' @ gutter row @ ''|'')"
    by (simp add: dump_row_def)
  then show ?thesis
    using assms by (simp add: read_row_def length_hex_columns filter_hex_columns hex_pairs_bytes)
qed

text \<open>A row has no line break.\<close>

lemma dump_row_one_line: "CHR 0x0A \<notin> set (dump_row addr row)"
proof -
  have h: "CHR 0x0A \<notin> set (hex_pad w n)" for w n
    using hex_pad_chars hex_digit_facts(6) by fastforce
  have "CHR 0x0A \<notin> set (column row i)" for i using h by (simp add: column_def)
  then have "CHR 0x0A \<notin> set (hex_columns row)" by (auto simp: hex_columns_alt)
  moreover have "CHR 0x0A \<noteq> char_of (unat b)" if "printable b" for b
  proof
    assume "CHR 0x0A = char_of (unat b)"
    then have "char_of (unat b) = CHR 0x0A" by (rule sym)
    then have "of_char (char_of (unat b) :: char) = (10 :: nat)" by simp
    moreover have "unat b < 256" by (rule byte_less)
    ultimately show False using that by (simp add: printable_def)
  qed
  then have "CHR 0x0A \<notin> set (gutter row)" by (auto simp: gutter_def simp del: char_of_eq_iff split: if_splits)
  ultimately show ?thesis using h by (simp add: dump_row_def)
qed

lemma lines_of_one: "CHR 0x0A \<notin> set l \<Longrightarrow> lines_of l = [l]"
  by (induction l) auto

lemma lines_of_more: "CHR 0x0A \<notin> set l \<Longrightarrow> lines_of (l @ CHR 0x0A # s) = l # lines_of s"
  by (induction l) auto

fun chunks :: "nat \<Rightarrow> byte list \<Rightarrow> u64 \<Rightarrow> (u64 \<times> byte list) list" where
  "chunks 0 data addr = []"
| "chunks (Suc n) data addr = (addr, take 16 data) # chunks n (drop 16 data) (addr + 16)"

definition row_count :: "nat \<Rightarrow> nat" where
  "row_count n = (n + 15) div 16"

lemma row_count_step: "0 < n \<Longrightarrow> row_count n = Suc (row_count (n - 16))"
  by (cases "16 \<le> n") (auto simp: row_count_def le_div_geq)

lemma hex_dump_lines:
  "offset < length data \<Longrightarrow>
     lines_of (hex_dump_from data start offset) =
       map (\<lambda>(a, row). dump_row a row)
         (chunks (row_count (length data - offset)) (drop offset data) (start + of_nat offset))"
proof (induction data start offset rule: hex_dump_from.induct)
  case (1 data start offset)
  let ?row = "dump_row (start + of_nat offset) (take 16 (drop offset data))"
  have rc: "row_count (length data - offset) = Suc (row_count (length data - (offset + 16)))"
    using row_count_step [of "length data - offset"] "1.prems" by simp
  show ?case
  proof (cases "offset + 16 < length data")
    case True
    have "lines_of (hex_dump_from data start offset) = ?row # lines_of (hex_dump_from data start (offset + 16))"
      using "1.prems" True lines_of_more [OF dump_row_one_line]
      by (subst hex_dump_from.simps) (simp add: Let_def)
    also have "\<dots> = ?row # map (\<lambda>(a, row). dump_row a row)
         (chunks (row_count (length data - (offset + 16))) (drop (offset + 16) data) (start + of_nat (offset + 16)))"
      using "1.IH" [OF "1.prems" refl True] by simp
    finally show ?thesis by (simp add: rc add.assoc add.commute)
  next
    case False
    then have "row_count (length data - (offset + 16)) = 0" by (simp add: row_count_def)
    moreover have "lines_of (hex_dump_from data start offset) = [?row]"
      using "1.prems" False lines_of_one [OF dump_row_one_line]
      by (subst hex_dump_from.simps) (simp add: Let_def hex_dump_from.simps [of _ _ "offset + 16"])
    ultimately show ?thesis by (simp add: rc)
  qed
qed

lemma chunks_concat: "length data \<le> 16 * n \<Longrightarrow> concat (map snd (chunks n data addr)) = data"
  by (induction n data addr rule: chunks.induct) auto

lemma chunks_rows: "(a, row) \<in> set (chunks n data addr) \<Longrightarrow> length row \<le> 16"
  by (induction n data addr rule: chunks.induct) auto

text \<open>
  C26. The bytes of a memory read can be read back from its dump, for every data and start
  address; the dump has one line per sixteen bytes, the addresses step by 16 and wrap around at
  2^64, and no data gives the empty text.
\<close>

theorem hex_dump_read_back:
  "read_dump (format_hex_dump data start_addr) = data \<and>
   lines_of (format_hex_dump data start_addr) =
     (if data = [] then [[]]
      else map (\<lambda>(a, row). dump_row a row) (chunks (row_count (length data)) data start_addr)) \<and>
   (format_hex_dump data start_addr = [] \<longleftrightarrow> data = [])"
proof (cases "data = []")
  case True
  then show ?thesis
    by (simp add: format_hex_dump_def hex_dump_from.simps read_dump_def read_row_def)
next
  case False
  have l: "lines_of (format_hex_dump data start_addr) =
      map (\<lambda>(a, row). dump_row a row) (chunks (row_count (length data)) data start_addr)"
    using hex_dump_lines [of 0 data start_addr] False by (simp add: format_hex_dump_def)
  have "map read_row (lines_of (format_hex_dump data start_addr)) =
      map snd (chunks (row_count (length data)) data start_addr)"
    using read_dump_row chunks_rows by (auto simp: l)
  moreover have "length data \<le> 16 * row_count (length data)" by (simp add: row_count_def)
  ultimately have "read_dump (format_hex_dump data start_addr) = data"
    using chunks_concat by (simp add: read_dump_def)
  moreover from this False have "format_hex_dump data start_addr \<noteq> []"
    by (auto simp: read_dump_def read_row_def)
  ultimately show ?thesis using l False by simp
qed

end
