(* ===== verification/Memory_Tools.thy ===== *)
theory Memory_Tools
  imports Inspection_Tools Hex_Dump
begin

text \<open>
  \<^verbatim>\<open>mcp-tools/src/handlers/memory.rs\<close>: reading memory as a hex dump, disassembling from an address
  or from the current instruction.
\<close>

definition normalize_hex :: "string \<Rightarrow> string" where
  "normalize_hex address =
     (if starts_with ''0x'' address \<or> starts_with ''0X'' address then address else ''0x'' @ address)"

definition without_0x :: "string \<Rightarrow> string" where
  "without_0x address =
     (case strip_prefix ''0x'' address of
        Some s \<Rightarrow> s
      | None \<Rightarrow> (case strip_prefix ''0X'' address of Some s \<Rightarrow> s | None \<Rightarrow> address))"

definition handle_read_memory :: "('b, 'w) tool_env \<Rightarrow> args \<Rightarrow> ('b, 'w, tool_outcome) task" where
  "handle_read_memory env a =
     guarded_by [SStopped] (
     arg_or (require_string a ''address'') (\<lambda>raw_address.
     arg_or (require_positive_int a ''count'') (\<lambda>count.
     let address = normalize_hex raw_address in
     with_backend env (ope_request_failed READ_MEMORY) (\<lambda>api.
     call_or (render READ_MEMORY) (ba_read_memory api address count) (\<lambda>r.
     if mr_data r = [] then
       ret (into_outcome
         (resp_set ''bytes_read'' (jint 0) (resp_set ''address'' (JStr (mr_address r)) resp_new)))
     else
       arg_or (map_err (\<lambda>e. ''failed to parse address: '' @ show_int_error e)
                 (from_str_radix 16 u64_max (without_0x address))) (\<lambda>start_addr.
         ret (into_outcome
           (resp_set ''hex_dump'' (JStr (format_hex_dump (mr_data r) (of_nat start_addr)))
           (resp_set ''bytes_read'' (jnat (length (mr_data r)))
           (resp_set ''address'' (JStr (mr_address r)) resp_new))))))))))"

definition DEFAULT_DISASSEMBLE_COUNT :: i64 where "DEFAULT_DISASSEMBLE_COUNT = 20"

definition instruction_entry :: "string \<Rightarrow> instruction \<Rightarrow> json" where
  "instruction_entry current_pc inst =
     JObj (resp_set_if (current_pc \<noteq> [] \<and> in_address inst = current_pc) ''is_current_pc'' (JBool True)
          (resp_set_if (nonempty_str (in_source_path inst)) ''line'' (jint (in_line inst))
          (resp_set_if (nonempty_str (in_source_path inst)) ''file'' (opt_str (in_source_path inst))
          (resp_set_if (in_symbol inst \<noteq> []) ''symbol'' (JStr (in_symbol inst))
          (resp_set_if (in_bytes inst \<noteq> []) ''bytes'' (JStr (in_bytes inst))
          (resp_set ''instruction'' (JStr (in_instruction inst))
          (resp_set ''address'' (JStr (in_address inst)) resp_new)))))))"

text \<open>The instruction pointer of the top frame, when it has one.\<close>

definition top_pc :: "frame list \<Rightarrow> string option" where
  "top_pc frames =
     (case first_opt frames of
        Some f \<Rightarrow> if nonempty_str (fr_instruction_pointer f) then fr_instruction_pointer f else None
      | None \<Rightarrow> None)"

definition disassemble_from ::
  "('b, 'w) backend_api \<Rightarrow> i64 \<Rightarrow> string \<Rightarrow> string \<Rightarrow> ('b, 'w, tool_outcome) task" where
  "disassemble_from api instruction_count raw_address raw_pc =
     (let address = normalize_hex raw_address;
          current_pc = (if raw_pc \<noteq> [] then normalize_hex raw_pc else raw_pc)
      in call_or (render DISASSEMBLE) (ba_disassemble api address instruction_count) (\<lambda>instructions.
           ret (into_outcome
             (resp_set ''start_address'' (JStr address)
             (resp_set ''count'' (jnat (length instructions))
             (resp_set ''instructions'' (JArr (map (instruction_entry current_pc) instructions)) resp_new))))))"

definition handle_disassemble :: "('b, 'w) tool_env \<Rightarrow> args \<Rightarrow> ('b, 'w, tool_outcome) task" where
  "handle_disassemble env a =
     guarded_by [SStopped] (
     let address = get_string a ''address'' [];
         instruction_count = number_or f64_pos a ''instruction_count'' DEFAULT_DISASSEMBLE_COUNT
     in
     with_backend env (ope_request_failed DISASSEMBLE) (\<lambda>api.
     if address = [] then
       seq (read_session last_thread) (\<lambda>thread_id.
       call_or (render STACK_TRACE) (ba_stack_trace api thread_id 0 1) (\<lambda>(frames, _).
       case top_pc frames of
         Some ip \<Rightarrow> disassemble_from api instruction_count ip ip
       | None \<Rightarrow> ret (Error ''no instruction pointer available for current frame'')))
     else disassemble_from api instruction_count address []))"

end
