(* ===== verification/Lifecycle_Tools.thy ===== *)
theory Lifecycle_Tools
  imports Tool_Server
begin

text \<open>
  \<^verbatim>\<open>mcp-tools/src/handlers/lifecycle.rs\<close>: launching, attaching and disconnecting. The event pump
  is spawned before the handshake starts; a failed or cancelled handshake drops the backend and
  resets the session.
\<close>

definition connect_error :: "backend_error \<Rightarrow> string" where
  "connect_error err =
     (case err of
        Detect m \<Rightarrow> ''failed to find lldb-dap: '' @ m
      | Spawn m \<Rightarrow> ''failed to spawn lldb-dap: '' @ m
      | other \<Rightarrow> show_backend_error other)"

definition handshake_error :: "backend_error \<Rightarrow> string" where
  "handshake_error err =
     (case err of
        Dap message \<Rightarrow> message
      | Protocol ty \<Rightarrow>
          (case split_once (CHR '':'') ty of
             Some (op_name, label) \<Rightarrow> ''unexpected '' @ op_name @ '' response type: '' @ label
           | None \<Rightarrow> ''unexpected response type: '' @ ty)
      | Closed \<Rightarrow> ''connection closed''
      | other \<Rightarrow> show_backend_error other)"

definition cleanup_after_cancel :: "('b, 'w) tool_env \<Rightarrow> ('b, 'w, unit) task" where
  "cleanup_after_cancel env = seq (clear_backend env) (\<lambda>_. modify_session reset)"

text \<open>Connect, then store the backend and spawn its pump; a failure resets.\<close>

definition connected ::
  "('b, 'w) tool_env \<Rightarrow> ('b \<Rightarrow> ('b, 'w, tool_outcome) task) \<Rightarrow> ('b, 'w, tool_outcome) task" where
  "connected env k =
     seq (env_connect env) (\<lambda>r.
       case r of
         Inl e \<Rightarrow>
           seq (modify_session reset) (\<lambda>_.
           seq (clear_backend env) (\<lambda>_. ret (Error (connect_error e))))
       | Inr b \<Rightarrow> seq (set_backend b) (\<lambda>_. seq (spawn_event_pump b) (\<lambda>_. k b)))"

text \<open>The handshake against the cancellation token.\<close>

definition handshake ::
  "('b, 'w) tool_env \<Rightarrow> ('b, 'w) cancel \<Rightarrow> string \<Rightarrow> ('b, 'w, backend_error + 'o) task \<Rightarrow>
     ('o \<Rightarrow> ('b, 'w, tool_outcome) task) \<Rightarrow> ('b, 'w, tool_outcome) task" where
  "handshake env ct timeout_msg p k =
     seq (select_cancel ct p) (\<lambda>r.
       case r of
         None \<Rightarrow> seq (cleanup_after_cancel env) (\<lambda>_. ret (Error timeout_msg))
       | Some (Inl e) \<Rightarrow> seq (cleanup_after_cancel env) (\<lambda>_. ret (Error (handshake_error e)))
       | Some (Inr outcome) \<Rightarrow> k outcome)"

definition started :: "string \<Rightarrow> string \<Rightarrow> i64 \<Rightarrow> string \<Rightarrow> resp_builder" where
  "started status program pid st =
     resp_set ''state'' (JStr st) (resp_set ''pid'' (jint pid) (resp_set ''program'' (JStr program)
       (resp_set ''status'' (JStr status) resp_new)))"

definition started_stopped :: "string \<Rightarrow> string \<Rightarrow> i64 \<Rightarrow> stop_info \<Rightarrow> resp_builder" where
  "started_stopped status program pid info =
     resp_set ''stopped_thread_id'' (jint (si_thread_id info))
       (resp_set ''stop_reason'' (JStr (si_reason info)) (started status program pid ''stopped''))"

definition stopped_at_start :: "string \<Rightarrow> string \<Rightarrow> i64 \<Rightarrow> stop_info \<Rightarrow> ('b, 'w, tool_outcome) task" where
  "stopped_at_start status program pid info =
     seq (modify_session (set_state SStopped)) (\<lambda>_.
     seq (modify_session (set_last_stopped info)) (\<lambda>_.
       ret (into_outcome (started_stopped status program pid info))))"

definition launch_report :: "string \<Rightarrow> i64 option \<Rightarrow> launch_outcome \<Rightarrow> ('b, 'w, tool_outcome) task" where
  "launch_report program debugger_pid outcome =
     seq (modify_session (set_program program)) (\<lambda>_.
     seq (modify_session (case debugger_pid of Some pid \<Rightarrow> set_pid pid | None \<Rightarrow> (\<lambda>s. s))) (\<lambda>_.
     seq (read_session ss_pid) (\<lambda>pid.
     case outcome of
       LStopped info \<Rightarrow> stopped_at_start ''launched'' program pid info
     | LRunning \<Rightarrow>
         seq (modify_session (set_state Running)) (\<lambda>_.
           ret (into_outcome (started ''launched'' program pid ''running'')))
     | LExited _ \<Rightarrow>
         seq (modify_session (set_state STerminated)) (\<lambda>_. ret (Text ''Program exited during launch'')))))"

definition handle_launch :: "('b, 'w) tool_env \<Rightarrow> args \<Rightarrow> ('b, 'w) cancel \<Rightarrow> ('b, 'w, tool_outcome) task" where
  "handle_launch env a ct =
     guarded_by [Idle] (
     arg_or (require_string a ''program'') (\<lambda>program.
     arg_or (parse_json_array (env_text env) a ''args'') (\<lambda>program_args.
     let cwd = get_string a ''cwd'' [] in
     arg_or (parse_json_object (env_text env) a ''env'') (\<lambda>environment.
     let stop_on_entry = get_bool a ''stop_on_entry'' True in
     seq (modify_session (set_state Configuring)) (\<lambda>_.
     seq (session_step flush_pending_breakpoints) (\<lambda>(source_map, function_bps).
     let spec = \<lparr>ls_program = program, ls_args = program_args, ls_cwd = (if cwd = [] then None else Some cwd),
                 ls_env = environment, ls_stop_on_entry = stop_on_entry,
                 ls_source_breakpoints = env_file_order env source_map, ls_function_breakpoints = function_bps\<rparr>
     in
     connected env (\<lambda>b.
     handshake env ct
       (if stop_on_entry then ''timed out waiting for stop on entry: context canceled''
        else ''launch timed out: context canceled'')
       (ba_launch (env_api env b) spec)
       (launch_report program (ba_debugger_pid (env_api env b))))))))))"

text \<open>What \<open>attach\<close> is asked for: the specification, the label and the target's pid.\<close>

definition attach_target :: "args \<Rightarrow> string + attach_spec \<times> string \<times> i64 option" where
  "attach_target a =
     (case (case get_raw a ''pid'' of Some v \<Rightarrow> if v = JNull then None else Some v | None \<Rightarrow> None) of
        Some v \<Rightarrow>
          (case json_as_f64 v of
             None \<Rightarrow> Inl (quoted ''pid'' @ '' must be a number'')
           | Some f \<Rightarrow>
               let pid = f64_as_i64 f in
               if pid \<le> 0 then Inl (quoted ''pid'' @ '' must be a positive integer'')
               else Inr (\<lparr>as_pid = Some pid, as_wait_for = None\<rparr>, ''pid:'' @ show_int pid, Some pid))
      | None \<Rightarrow>
          (case (case get_raw a ''wait_for'' of Some v \<Rightarrow> if v = JNull then None else Some v | None \<Rightarrow> None) of
             Some v \<Rightarrow>
               let name = (case json_as_str v of Some s \<Rightarrow> s | None \<Rightarrow> []) in
               if name = [] then Inl (quoted ''wait_for'' @ '' must be a non-empty string'')
               else Inr (\<lparr>as_pid = None, as_wait_for = Some name\<rparr>, name, None)
           | None \<Rightarrow> Inl (''either '' @ quoted ''pid'' @ '' or '' @ quoted ''wait_for'' @ '' must be provided'')))"

definition attach_report ::
  "string \<Rightarrow> i64 option \<Rightarrow> i64 option \<Rightarrow> attach_outcome \<Rightarrow> ('b, 'w, tool_outcome) task" where
  "attach_report label explicit_pid debugger_pid outcome =
     seq (modify_session (set_program label)) (\<lambda>_.
     seq (modify_session (case explicit_pid of
            Some pid \<Rightarrow> set_pid pid
          | None \<Rightarrow> (case debugger_pid of Some pid \<Rightarrow> set_pid pid | None \<Rightarrow> (\<lambda>s. s)))) (\<lambda>_.
     seq (read_session ss_pid) (\<lambda>pid.
     case outcome of
       AStopped info \<Rightarrow> stopped_at_start ''attached'' label pid info
     | _ \<Rightarrow>
         seq (modify_session (set_state STerminated)) (\<lambda>_. ret (Text ''Process exited during attach'')))))"

definition handle_attach :: "('b, 'w) tool_env \<Rightarrow> args \<Rightarrow> ('b, 'w) cancel \<Rightarrow> ('b, 'w, tool_outcome) task" where
  "handle_attach env a ct =
     guarded_by [Idle] (
     arg_or (attach_target a) (\<lambda>(spec, label, explicit_pid).
     seq (modify_session (set_state Configuring)) (\<lambda>_.
     connected env (\<lambda>b.
     handshake env ct ''timed out waiting for stop on entry: context canceled''
       (ba_attach (env_api env b) spec)
       (attach_report label explicit_pid (ba_debugger_pid (env_api env b)))))))"

definition drop_backend_bounded :: "('b, 'w) tool_env \<Rightarrow> ('b, 'w, unit) task" where
  "drop_backend_bounded env s =
     (case sv_backend s of
        None \<Rightarrow> Some ((), s)
      | Some b \<Rightarrow>
          Some ((), env_drop_wait env (s\<lparr>sv_backend := None, sv_world := env_release env b (sv_world s)\<rparr>)))"

text \<open>The debugger's own teardown is given five seconds; how it ends does not matter.\<close>

definition best_effort_disconnect :: "('b, 'w) tool_env \<Rightarrow> bool \<Rightarrow> ('b, 'w, unit) task" where
  "best_effort_disconnect env terminate =
     seq current_backend (\<lambda>ob.
       case ob of
         None \<Rightarrow> ret ()
       | Some b \<Rightarrow> seq (select_cancel (env_timer env) (ba_disconnect (env_api env b) terminate)) (\<lambda>_. ret ()))"

definition handle_disconnect :: "('b, 'w) tool_env \<Rightarrow> args \<Rightarrow> ('b, 'w, tool_outcome) task" where
  "handle_disconnect env a =
     guarded_by [Configuring, SStopped, Running, STerminated] (
     let terminate = get_bool a ''terminate'' True in
     seq (best_effort_disconnect env terminate) (\<lambda>_.
     seq (drop_backend_bounded env) (\<lambda>_.
     seq (modify_session reset) (\<lambda>_.
       ret (into_outcome (resp_set ''status'' (JStr ''disconnected'') resp_new))))))"

end
