(* ===== verification/Tool_Dispatch.thy ===== *)
theory Tool_Dispatch
  imports Breakpoint_Tools Memory_Tools Lifecycle_Tools
begin

text \<open>The dispatch of a tool call by name (\<^verbatim>\<open>ToolServer::dispatch\<close> of \<^verbatim>\<open>server.rs\<close>).\<close>

definition dispatch ::
  "('b, 'w) tool_env \<Rightarrow> string \<Rightarrow> args \<Rightarrow> ('b, 'w) cancel \<Rightarrow> ('b, 'w, tool_outcome) task" where
  "dispatch env name a ct =
     (if name = ''launch'' then handle_launch env a ct
      else if name = ''attach'' then handle_attach env a ct
      else if name = ''disconnect'' then handle_disconnect env a
      else if name = ''set_breakpoint'' then handle_set_breakpoint env a
      else if name = ''set_function_breakpoint'' then handle_set_function_breakpoint env a
      else if name = ''remove_breakpoint'' then handle_remove_breakpoint env a
      else if name = ''list_breakpoints'' then handle_list_breakpoints env
      else if name = ''continue'' then handle_continue env a ct
      else if name = ''step_over'' then handle_step_over env a ct
      else if name = ''step_into'' then handle_step_into env a ct
      else if name = ''step_out'' then handle_step_out env a ct
      else if name = ''pause'' then handle_pause env
      else if name = ''status'' then handle_status
      else if name = ''backtrace'' then handle_backtrace env a
      else if name = ''threads'' then handle_threads env
      else if name = ''variables'' then handle_variables env a
      else if name = ''evaluate'' then handle_evaluate env a
      else if name = ''read_output'' then handle_read_output
      else if name = ''read_memory'' then handle_read_memory env a
      else if name = ''disassemble'' then handle_disassemble env a
      else if name = ''run_command'' then handle_run_command env a
      else ret (Error (''unknown tool: '' @ name)))"

text \<open>
  The result sent to the client: the text of the single content and the error flag. The rendering of
  a JSON value as text is the library's.
\<close>

definition outcome_to_result :: "(json \<Rightarrow> string) \<Rightarrow> tool_outcome \<Rightarrow> bool \<times> string" where
  "outcome_to_result to_text out =
     (case out of Json v \<Rightarrow> (False, to_text v) | Text t \<Rightarrow> (False, t) | Error m \<Rightarrow> (True, m))"

text \<open>Case analysis along the dispatch.\<close>

lemma ite_elim:
  "(if c then p else q) s = r \<Longrightarrow> (c \<Longrightarrow> p s = r \<Longrightarrow> thesis) \<Longrightarrow> (\<not> c \<Longrightarrow> q s = r \<Longrightarrow> thesis) \<Longrightarrow> thesis"
  by (simp split: if_splits)

end
