(* ===== verification/Session_Laws.thy ===== *)
theory Session_Laws
  imports Session "HOL-Library.Multiset"
begin

text \<open>
  What the session manager guarantees: a well-formedness invariant kept by every operation,
  the read-only guard, the epoch discipline (a write guarded by an old generation is dropped),
  the breakpoint lists under flush and removal, and the effect of the event pump.
\<close>

lemmas session_defs =
  set_state_def set_state_if_generation_def reset_inner_def set_program_def set_pid_def
  set_exit_code_def terminate_if_generation_def set_last_stopped_def set_frame_mapping_def
  append_output_def add_source_breakpoint_def add_function_breakpoint_def
  add_breakpoint_response_def add_pending_source_breakpoint_def add_pending_function_breakpoint_def

section \<open>Well-formed sessions\<close>

definition session_ok :: "session \<Rightarrow> bool" where
  "session_ok s \<longleftrightarrow>
     hm_ok (ss_frame_mapping s) \<and> hm_ok (ss_source_bps s) \<and> hm_ok (ss_bp_responses s) \<and>
     hm_ok (ss_pending_source_bps s) \<and> buffer_ok (ss_output s) \<and>
     (\<forall>k info. hm_get (ss_bp_responses s) k = Some info \<longrightarrow> bi_id info = k)"

lemma session_ok_new [simp]: "session_ok session_new"
  by (simp add: session_ok_def session_new_def)

lemma session_ok_plain [simp]:
  assumes "session_ok s"
  shows "session_ok (set_state st s)" "session_ok (snd (set_state_if_generation g st s))"
    "session_ok (set_program p s)" "session_ok (set_pid i s)" "session_ok (set_exit_code c s)"
    "session_ok (snd (terminate_if_generation g oc s))" "session_ok (set_last_stopped si s)"
    "session_ok (append_output cat txt s)"
  using assms by (auto simp: session_ok_def session_defs Let_def split: option.splits)

lemma session_ok_frame_mapping [simp]:
  "session_ok s \<Longrightarrow> hm_ok m \<Longrightarrow> session_ok (set_frame_mapping m s)"
  by (simp add: session_ok_def set_frame_mapping_def)

lemma session_ok_drain [simp]: "session_ok s \<Longrightarrow> session_ok (snd (drain_output s))"
  by (simp add: session_ok_def drain_output_def split: prod.splits) (metis buffer_ok_drain snd_conv)

lemma session_ok_reset [simp]: "session_ok s \<Longrightarrow> session_ok (reset s)"
proof -
  assume "session_ok s"
  then have "session_ok (reset_inner s)" by (simp add: session_ok_def reset_inner_def)
  then show ?thesis by (simp add: reset_def)
qed

lemma session_ok_breakpoints [simp]:
  assumes "session_ok s"
  shows "session_ok (snd (add_source_breakpoint f l c s))"
    "session_ok (snd (add_function_breakpoint n c s))"
    "session_ok (add_breakpoint_response info s)"
    "session_ok (add_pending_source_breakpoint f l c s)"
    "session_ok (add_pending_function_breakpoint n c s)"
  using assms by (auto simp: session_ok_def session_defs Let_def split: if_splits)

lemma hm_ok_remove_source_bp [simp]: "hm_ok m \<Longrightarrow> hm_ok (remove_source_bp f l m)"
  by (simp add: remove_source_bp_def split: option.splits)

lemma session_ok_remove [simp]:
  "session_ok s \<Longrightarrow> session_ok (snd (remove_breakpoint_by_id bid s))"
  by (auto simp: session_ok_def remove_breakpoint_by_id_def Let_def split: option.splits if_splits)

lemma hm_ok_fold_extend: "hm_ok m \<Longrightarrow> hm_ok (fold (\<lambda>(f, b). hm_extend f b) fs m)"
proof (induction fs arbitrary: m)
  case Nil
  then show ?case by simp
next
  case (Cons fb fs)
  obtain f b where fb: "fb = (f, b)" by (cases fb)
  from Cons.prems have "hm_ok (hm_extend f b m)" by simp
  from Cons.IH [OF this] show ?case by (simp add: fb)
qed

lemma session_ok_flush [simp]: "session_ok s \<Longrightarrow> session_ok (snd (flush_pending_breakpoints s))"
  by (simp add: session_ok_def flush_pending_breakpoints_def Let_def hm_ok_fold_extend)

lemma session_ok_pump [simp]: "session_ok s \<Longrightarrow> session_ok (pump_event g e s)"
  by (cases e) (simp_all add: pump_event_def)

lemma session_ok_event_pump [simp]: "session_ok s \<Longrightarrow> session_ok (event_pump g es s)"
  unfolding event_pump_def by (induction es arbitrary: s) auto

section \<open>The guard\<close>

lemma check_state_ok_iff: "check_state allowed s = Inr () \<longleftrightarrow> ss_state s \<in> set allowed"
  by (auto simp: check_state_def Let_def split: sess_state.splits)

lemma check_state_InlD: "check_state allowed s = Inl e \<Longrightarrow> ss_state s \<notin> set allowed"
  by (auto simp: check_state_def Let_def split: if_splits)

section \<open>Reset and the epoch\<close>

text \<open>
  A reset forgets everything but the epoch: the session is a new one whose generation is the
  next value (with wrap-around of the 64-bit counter).
\<close>

theorem reset_is_new_session:
  assumes "session_ok s"
  shows "reset s = session_new\<lparr>ss_generation := ss_generation s + 1\<rparr>"
proof -
  from assms have "snd (output_drain (ss_output s)) = output_buffer_new"
    by (simp add: session_ok_def output_drain_empties)
  then show ?thesis
    by (cases s) (auto simp: reset_def drain_output_def reset_inner_def session_new_def split: prod.splits)
qed

theorem reset_is_new_session_witness:
  "reset (snd (add_source_breakpoint ''a.c'' 3 '''' session_new)) = session_new\<lparr>ss_generation := 1\<rparr>"
proof -
  have "session_ok (snd (add_source_breakpoint ''a.c'' 3 '''' session_new))" by simp
  from reset_is_new_session [OF this] show ?thesis
    by (simp add: add_source_breakpoint_def session_new_def Let_def)
qed

lemma reset_generation [simp]: "ss_generation (reset s) = ss_generation s + 1"
  by (simp add: reset_def drain_output_def reset_inner_def split: prod.splits)

lemma reset_state [simp]: "ss_state (reset s) = Idle"
  by (simp add: reset_def drain_output_def reset_inner_def split: prod.splits)

text \<open>
  The interface between the session and everything that finishes late (a resumed call, the
  event pump): a write carries the epoch it was started in, a write of another epoch changes
  nothing, and no write changes the epoch. The client's fact: as long as the counter has not
  gone all the way round, every write started before a reset is dropped after it.
\<close>

locale epoch_guard =
  fixes epoch :: "'s \<Rightarrow> u64"
    and bump :: "'s \<Rightarrow> 's"
    and guarded :: "u64 \<Rightarrow> 'a \<Rightarrow> 's \<Rightarrow> 's"
  assumes epoch_bump: "epoch (bump s) = epoch s + 1"
    and guarded_other: "epoch s \<noteq> g \<Longrightarrow> guarded g a s = s"
    and guarded_epoch: "epoch (guarded g a s) = epoch s"
begin

lemma epoch_bumps: "epoch ((bump ^^ n) s) = epoch s + of_nat n"
  by (induction n) (auto simp: epoch_bump add.commute)

lemma writes_epoch: "epoch (fold (guarded g) as s) = epoch s"
  by (induction as arbitrary: s) (auto simp: guarded_epoch)

lemma writes_other: "epoch s \<noteq> g \<Longrightarrow> fold (guarded g) as s = s"
  by (induction as) (auto simp: guarded_other)

lemma stale_after_bumps:
  assumes "0 < n" "n < 2 ^ 64"
  shows "fold (guarded (epoch s)) as ((bump ^^ n) s) = (bump ^^ n) s"
proof (rule writes_other)
  have "unat (of_nat n :: u64) = n" using assms(2) by (simp add: unat_of_nat take_bit_nat_eq_self)
  with assms(1) have "(of_nat n :: u64) \<noteq> 0" by auto
  then show "epoch ((bump ^^ n) s) \<noteq> epoch s" by (simp add: epoch_bumps)
qed

end

lemma set_state_if_generation_epoch [simp]:
  "ss_generation (snd (set_state_if_generation g st s)) = ss_generation s"
  by (simp add: set_state_if_generation_def)

lemma terminate_if_generation_epoch [simp]:
  "ss_generation (snd (terminate_if_generation g oc s)) = ss_generation s"
  by (simp add: terminate_if_generation_def Let_def split: option.splits)

interpretation state_guard: epoch_guard ss_generation reset "\<lambda>g st s. snd (set_state_if_generation g st s)"
  by unfold_locales (auto simp: set_state_if_generation_def)

interpretation term_guard: epoch_guard ss_generation reset "\<lambda>g oc s. snd (terminate_if_generation g oc s)"
  by unfold_locales (auto simp: terminate_if_generation_def split: option.splits)

section \<open>The event pump\<close>

definition outputs_of :: "backend_event list \<Rightarrow> output_entry list" where
  "outputs_of es = concat (map (\<lambda>e. case e of Output c t \<Rightarrow> [\<lparr>oe_category = c, oe_text = t\<rparr>] | TerminatedEv _ \<Rightarrow> []) es)"

definition terminations_of :: "backend_event list \<Rightarrow> i64 option list" where
  "terminations_of es = concat (map (\<lambda>e. case e of Output _ _ \<Rightarrow> [] | TerminatedEv c \<Rightarrow> [c]) es)"

text \<open>The pump is two independent streams: appends to the buffer and guarded terminations.\<close>

lemma append_output_terminate_commute:
  "append_output c t (snd (terminate_if_generation g oc s)) =
   snd (terminate_if_generation g oc (append_output c t s))"
  by (simp add: append_output_def terminate_if_generation_def Let_def split: option.splits)

lemma append_output_terminations_commute:
  "append_output c t (fold (\<lambda>oc s. snd (terminate_if_generation g oc s)) ocs s) =
   fold (\<lambda>oc s. snd (terminate_if_generation g oc s)) ocs (append_output c t s)"
  by (induction ocs arbitrary: s) (auto simp: append_output_terminate_commute)

definition append_outputs :: "output_entry list \<Rightarrow> session \<Rightarrow> session" where
  "append_outputs es s = s\<lparr>ss_output := append_entries (ss_output s) es\<rparr>"

lemma append_outputs_Cons:
  "append_outputs (e # es) s = append_outputs es (append_output (oe_category e) (oe_text e) s)"
  by (simp add: append_outputs_def append_entries_def append_output_def append_entry_def)

lemma append_outputs_Nil [simp]: "append_outputs [] s = s"
  by (simp add: append_outputs_def append_entries_def)

lemma append_outputs_terminate_commute:
  "append_outputs es (snd (terminate_if_generation g oc s)) =
   snd (terminate_if_generation g oc (append_outputs es s))"
  by (simp add: append_outputs_def terminate_if_generation_def Let_def split: option.splits)

lemma event_pump_split:
  "event_pump g es s =
     fold (\<lambda>oc s. snd (terminate_if_generation g oc s)) (terminations_of es) (append_outputs (outputs_of es) s)"
  unfolding event_pump_def
proof (induction es arbitrary: s)
  case Nil
  then show ?case by (simp add: outputs_of_def terminations_of_def)
next
  case (Cons e es)
  then show ?case
    by (cases e)
      (auto simp: pump_event_def outputs_of_def terminations_of_def append_outputs_Cons
        append_outputs_terminate_commute)
qed

lemma append_outputs_epoch [simp]: "ss_generation (append_outputs es s) = ss_generation s"
  by (simp add: append_outputs_def)

text \<open>
  C15. A pump that outlives its session cannot touch the next one: after between 1 and \<open>2^64 - 1\<close>
  resets the only effect of the events it still delivers is the text appended to the buffer,
  so the state, the exit code and every cache stay as the resets left them.
\<close>

theorem stale_pump_only_appends:
  assumes "0 < n" "n < 2 ^ 64"
  shows "event_pump (ss_generation s) es ((reset ^^ n) s) = append_outputs (outputs_of es) ((reset ^^ n) s)"
proof -
  have "ss_generation ((reset ^^ n) s) \<noteq> ss_generation s"
  proof
    assume "ss_generation ((reset ^^ n) s) = ss_generation s"
    then have "(of_nat n :: u64) = 0" by (simp add: state_guard.epoch_bumps)
    moreover have "unat (of_nat n :: u64) = n" using assms(2) by (simp add: unat_of_nat take_bit_nat_eq_self)
    ultimately show False using assms(1) by simp
  qed
  then show ?thesis
    unfolding event_pump_split by (intro term_guard.writes_other) simp
qed

theorem stale_pump_only_appends_witness:
  "event_pump 0 [Output ''stdout'' ''late'', TerminatedEv (Some 3)] (reset session_new) =
     append_output ''stdout'' ''late'' (reset session_new)"
  using stale_pump_only_appends [of 1 session_new "[Output ''stdout'' ''late'', TerminatedEv (Some 3)]"]
  by (simp add: outputs_of_def append_outputs_Cons) (simp add: session_new_def)

lemma live_pump_terminates:
  assumes "ss_generation s = g" "terminations_of es \<noteq> []"
  shows "ss_state (event_pump g es s) = STerminated"
proof -
  have "ss_state (fold (\<lambda>oc s. snd (terminate_if_generation g oc s)) ocs s') = STerminated"
    if "ss_generation s' = g" "ocs \<noteq> []" for ocs s'
    using that
  proof (induction ocs arbitrary: s')
    case Nil
    then show ?case by simp
  next
    case (Cons oc ocs)
    then show ?case
      by (cases ocs) (auto simp: terminate_if_generation_def Let_def split: option.splits)
  qed
  with assms show ?thesis by (simp add: event_pump_split)
qed

section \<open>Breakpoint lists\<close>

lemma tracked_id: "session_ok s \<Longrightarrow> (k, v) \<in> set (ss_bp_responses s) \<Longrightarrow> bi_id v = k"
  by (auto simp: session_ok_def hm_get_in_set)

lemma tracked_ids_distinct:
  assumes "session_ok s"
  shows "distinct (map bi_id (map snd (ss_bp_responses s)))"
proof -
  have "map bi_id (map snd (ss_bp_responses s)) = map fst (ss_bp_responses s)"
    using tracked_id [OF assms] by auto
  with assms show ?thesis by (simp only:) (simp add: session_ok_def hm_ok_def)
qed

lemma tracked_iff:
  assumes "session_ok s"
  shows "info \<in> set (map snd (ss_bp_responses s)) \<longleftrightarrow> get_breakpoint_info (bi_id info) s = Some info"
proof -
  have ok: "hm_ok (ss_bp_responses s)" using assms by (simp add: session_ok_def)
  show ?thesis
  proof
    assume "info \<in> set (map snd (ss_bp_responses s))"
    then obtain k where k: "(k, info) \<in> set (ss_bp_responses s)" by auto
    with tracked_id [OF assms k] show "get_breakpoint_info (bi_id info) s = Some info"
      by (simp add: get_breakpoint_info_def hm_get_in_set [OF ok])
  next
    assume "get_breakpoint_info (bi_id info) s = Some info"
    then have "(bi_id info, info) \<in> set (ss_bp_responses s)"
      by (simp add: get_breakpoint_info_def hm_get_in_set [OF ok])
    then show "info \<in> set (map snd (ss_bp_responses s))" by force
  qed
qed

text \<open>
  Listing does not depend on the arbitrary order in which a hash map yields its values: it is
  strictly sorted by id and holds exactly the tracked breakpoints.
\<close>

theorem list_breakpoints_sorted:
  assumes ok: "session_ok s" and perm: "\<And>xs. mset (order xs) = mset xs"
  shows "sorted_wrt (<) (map bi_id (list_breakpoints order s)) \<and>
    (\<forall>info. info \<in> set (list_breakpoints order s) \<longleftrightarrow> get_breakpoint_info (bi_id info) s = Some info) \<and>
    list_breakpoints order s = list_breakpoints (\<lambda>xs. xs) s"
proof -
  let ?vs = "map snd (ss_bp_responses s)" and ?l = "list_breakpoints order s"
  have m: "mset ?l = mset ?vs" by (simp only: list_breakpoints_def mset_sort perm)
  have d: "distinct (map bi_id ?vs)" by (rule tracked_ids_distinct [OF ok])
  have "mset (map bi_id ?l) = mset (map bi_id ?vs)" by (simp only: mset_map m)
  with d have dl: "distinct (map bi_id ?l)" using mset_eq_imp_distinct_iff by blast
  have srt: "sorted (map bi_id ?l)" by (simp only: list_breakpoints_def sorted_sort_key)
  have set: "set ?l = set ?vs" by (rule mset_eq_setD [OF m])
  have "inj_on bi_id (set ?vs)" using d by (simp only: distinct_map)
  then have "sort_key bi_id ?vs = ?l"
    by (intro sort_key_inj_key_eq) (simp_all only: m srt set_mset_mset)
  then have eq: "?l = list_breakpoints (\<lambda>xs. xs) s" by (simp only: list_breakpoints_def)
  from srt dl have "sorted_wrt (<) (map bi_id ?l)" by (simp only: strict_sorted_iff)
  with eq show ?thesis using tracked_iff [OF ok] set by blast
qed

definition two_breakpoints :: session where
  "two_breakpoints =
     add_breakpoint_response \<lparr>bi_id = 2, bi_ty = ''source'', bi_file = ''a.c'', bi_line = 5,
        bi_function = '''', bi_condition = '''', bi_verified = True\<rparr>
     (add_breakpoint_response \<lparr>bi_id = 7, bi_ty = ''function'', bi_file = '''', bi_line = 0,
        bi_function = ''main'', bi_condition = '''', bi_verified = True\<rparr> session_new)"

theorem list_breakpoints_sorted_witness:
  "map bi_id (list_breakpoints rev two_breakpoints) = [2, 7]"
proof -
  have "session_ok two_breakpoints" by (simp add: two_breakpoints_def)
  with list_breakpoints_sorted [of two_breakpoints rev]
  have "list_breakpoints rev two_breakpoints = list_breakpoints (\<lambda>xs. xs) two_breakpoints" by simp
  then show ?thesis
    by (simp add: list_breakpoints_def two_breakpoints_def add_breakpoint_response_def
        session_new_def hm_insert_def)
qed

lemma fold_extend_list:
  "distinct (map fst fs) \<Longrightarrow>
     hm_list (fold (\<lambda>(f, b). hm_extend f b) fs m) k = hm_list m k @ hm_list fs k"
proof (induction fs arbitrary: m)
  case Nil
  then show ?case by simp
next
  case (Cons fb fs)
  then show ?case
    by (cases fb) (auto simp: hm_list_def [of "(_, _) # _"] hm_list_def [of fs] hm_get_def
        map_of_eq_None_iff image_iff split: option.splits)
qed

text \<open>
  Flushing before a launch moves the pending breakpoints: each file's active list gains its
  pending list at the end, the function list likewise, the returned maps are the pending ones,
  and a second flush returns nothing and changes nothing.
\<close>

theorem flush_moves_pending:
  assumes "session_ok s" "flush_pending_breakpoints s = ((files, fns), s')"
  shows "(\<forall>f. source_breakpoints_for_file f s' = source_breakpoints_for_file f s @ hm_list files f) \<and>
    all_function_breakpoints s' = all_function_breakpoints s @ fns \<and>
    files = ss_pending_source_bps s \<and> fns = ss_pending_function_bps s \<and>
    flush_pending_breakpoints s' = (([], []), s')"
  using assms
  by (auto simp: flush_pending_breakpoints_def Let_def source_breakpoints_for_file_def
      all_function_breakpoints_def session_ok_def hm_ok_def fold_extend_list)

theorem flush_moves_pending_witness:
  "source_breakpoints_for_file ''a.c''
     (snd (flush_pending_breakpoints (add_pending_source_breakpoint ''a.c'' 4 '''' session_new))) =
   [\<lparr>sb_line = 4, sb_condition = ''''\<rparr>]"
proof -
  let ?s = "add_pending_source_breakpoint ''a.c'' 4 '''' session_new"
  obtain files fns s' where f: "flush_pending_breakpoints ?s = ((files, fns), s')"
    by (metis prod.exhaust)
  from flush_moves_pending [OF _ f] have
    "source_breakpoints_for_file ''a.c'' s' = source_breakpoints_for_file ''a.c'' ?s @ hm_list files ''a.c''"
    "files = ss_pending_source_bps ?s" by simp_all
  with f show ?thesis
    by (simp add: source_breakpoints_for_file_def add_pending_source_breakpoint_def session_new_def)
qed

text \<open>Removal by id: what leaves the lists.\<close>

lemma remove_breakpoint_unknown:
  "get_breakpoint_info bid s = None \<Longrightarrow>
     remove_breakpoint_by_id bid s = (Inl (''breakpoint ID '' @ show_int bid @ '' not found''), s)"
  by (simp add: remove_breakpoint_by_id_def get_breakpoint_info_def)

lemma hm_list_remove_source_bp:
  "hm_list (remove_source_bp f l m) k =
     (if k = f then remove_first (\<lambda>bp. sb_line bp = l) (hm_list m k) else hm_list m k)"
  by (auto simp: remove_source_bp_def hm_list_def split: option.splits)

lemma remove_breakpoint_known:
  assumes "get_breakpoint_info bid s = Some info" "remove_breakpoint_by_id bid s = (r, s')"
  shows "r = Inr (if bi_ty info = ''source'' then bi_file info else '''', bi_ty info = ''function'')"
    and "get_breakpoint_info k s' = (if k = bid then None else get_breakpoint_info k s)"
    and "source_breakpoints_for_file f s' =
      (if bi_ty info = ''source'' \<and> f = bi_file info
       then remove_first (\<lambda>bp. sb_line bp = bi_line info) (source_breakpoints_for_file f s)
       else source_breakpoints_for_file f s)"
    and "all_function_breakpoints s' =
      (if bi_ty info = ''function''
       then remove_first (\<lambda>bp. fb_name bp = bi_function info) (all_function_breakpoints s)
       else all_function_breakpoints s)"
  using assms
  by (auto simp: remove_breakpoint_by_id_def get_breakpoint_info_def Let_def
      source_breakpoints_for_file_def all_function_breakpoints_def hm_list_remove_source_bp
      split: if_splits)

end
