(* ===== verification/Tool_Laws.thy ===== *)
theory Tool_Laws
  imports Tool_Dispatch Session_Laws
begin

text \<open>
  What single tool calls do, in any surrounding: the guard of every tool, breakpoints committed only
  after the debugger accepted them, and the outcome of a resume whoever else ran meanwhile.
\<close>

section \<open>Guards\<close>

text \<open>The states in which a tool runs; the tools that are missing here have no guard.\<close>

definition tool_guards :: "(string \<times> sess_state list) list" where
  "tool_guards =
     [(''launch'', [Idle]), (''attach'', [Idle]),
      (''disconnect'', [Configuring, SStopped, Running, STerminated]),
      (''set_breakpoint'', [Idle, SStopped]), (''set_function_breakpoint'', [Idle, SStopped]),
      (''remove_breakpoint'', [SStopped]), (''continue'', [SStopped]), (''step_over'', [SStopped]),
      (''step_into'', [SStopped]), (''step_out'', [SStopped]), (''pause'', [Running]),
      (''backtrace'', [SStopped]), (''threads'', [SStopped]), (''variables'', [SStopped]),
      (''evaluate'', [SStopped]), (''read_output'', [Configuring, SStopped, Running, STerminated]),
      (''read_memory'', [SStopped]), (''disassemble'', [SStopped]), (''run_command'', [SStopped])]"

lemmas guarded_handlers =
  handle_launch_def handle_attach_def handle_disconnect_def handle_set_breakpoint_def
  handle_set_function_breakpoint_def handle_remove_breakpoint_def handle_continue_def handle_step_over_def
  handle_step_into_def handle_step_out_def resume_tool_def handle_pause_def handle_backtrace_def
  handle_threads_def handle_variables_def handle_evaluate_def handle_read_output_def
  handle_read_memory_def handle_disassemble_def handle_run_command_def

definition refusal :: "sess_state list \<Rightarrow> sess_state \<Rightarrow> string" where
  "refusal allowed st =
     (if st = Idle then ''no debug session active. Use 'launch' or 'attach' first.''
      else if st = Running then ''process is running. Use 'pause' first.''
      else ''invalid state: '' @ show_state st @ '', expected one of: '' @ join '', '' (map show_state allowed))"

lemma guarded_by_refuses:
  "ss_state (sv_session s) \<notin> set allowed \<Longrightarrow>
     guarded_by allowed p s = Some (Error (refusal allowed (ss_state (sv_session s))), s)"
  by (cases "ss_state (sv_session s)") (auto simp: guarded_by_def check_state_def refusal_def Let_def)

text \<open>
  C23. A tool called in a state it is not for returns the error that names the state, calls no
  backend and changes nothing, whatever its arguments.
\<close>

theorem guards_refuse:
  assumes "map_of tool_guards name = Some allowed" "ss_state (sv_session s) \<notin> set allowed"
  shows "dispatch env name a ct s = Some (Error (refusal allowed (ss_state (sv_session s))), s)"
proof -
  from assms(1) have "(name, allowed) \<in> set tool_guards" by (rule map_of_SomeD)
  then have "\<exists>p. dispatch env name a ct = guarded_by allowed p"
    unfolding tool_guards_def list.set insert_iff empty_iff prod.inject
    by (elim disjE conjE FalseE; hypsubst; subst dispatch_def;
        simp add: guarded_handlers Let_def; blast)
  then obtain p where "dispatch env name a ct = guarded_by allowed p" ..
  with guarded_by_refuses [OF assms(2), of p] show ?thesis by simp
qed

text \<open>A surrounding with one backend, and a server stopped on it.\<close>

definition env_with :: "(unit, 'w) backend_api \<Rightarrow> (unit, 'w) tool_env" where
  "env_with api =
     \<lparr>env_text = \<lparr>te_parse = (\<lambda>_. Inr JNull), te_show_json = (\<lambda>_. []), te_lower = (\<lambda>s. s)\<rparr>,
      env_api = (\<lambda>_. api), env_connect = ret (Inr ()), env_release = (\<lambda>_ w. w), env_timer = (\<lambda>_. None),
      env_drop_wait = (\<lambda>s. s), env_order = (\<lambda>bs. bs), env_file_order = (\<lambda>fs. fs)\<rparr>"

definition stopped_server :: "'w \<Rightarrow> (unit, 'w) tool_server" where
  "stopped_server w = \<lparr>sv_session = set_state SStopped session_new, sv_backend = Some (), sv_pumps = [((), 0)], sv_world = w\<rparr>"

theorem guards_refuse_witness:
  "dispatch (env_with closed_api) ''continue'' [] (\<lambda>_. None) (tool_server_new session_new ()) =
     Some (Error ''no debug session active. Use 'launch' or 'attach' first.'', tool_server_new session_new ())"
  using guards_refuse [of "''continue''" "[SStopped]" "tool_server_new session_new ()" "env_with closed_api" "[]" "\<lambda>_. None"]
  by (simp add: tool_guards_def tool_server_new_def session_new_def refusal_def)

section \<open>Breakpoints\<close>

lemma env_with_api [simp]: "env_api (env_with api) b = api"
  by (simp add: env_with_def)

lemma stopped_passes:
  "ss_state (sv_session s) = SStopped \<Longrightarrow> SStopped \<in> set allowed \<Longrightarrow> guarded_by allowed p s = p s"
  by (simp add: guarded_by_pass)

definition matched_bp :: "i64 \<Rightarrow> breakpoint_result list \<Rightarrow> breakpoint_result option" where
  "matched_bp ln results =
     (case find (\<lambda>bp. br_line bp = ln) results of Some bp \<Rightarrow> Some bp | None \<Rightarrow> last_opt results)"

lemma matched_bp_None: "matched_bp ln results = None \<longleftrightarrow> results = []"
  by (auto simp: matched_bp_def last_opt_def find_None_iff split: option.split)

lemma source_list_after_set:
  "source_breakpoints_for_file file (add_breakpoint_response info (snd (add_source_breakpoint file ln c s))) =
     source_breakpoints_for_file file s @ [\<lparr>sb_line = ln, sb_condition = c\<rparr>]"
  "f \<noteq> file \<Longrightarrow> source_breakpoints_for_file f (add_breakpoint_response info (snd (add_source_breakpoint file ln c s))) =
     source_breakpoints_for_file f s"
  "bi_id info = i \<Longrightarrow> get_breakpoint_info i (add_breakpoint_response info s) = Some info"
  by (auto simp: source_breakpoints_for_file_def add_breakpoint_response_def add_source_breakpoint_def
      get_breakpoint_info_def Let_def)

text \<open>
  C25. Setting a breakpoint while stopped sends the file's tracked list with the new breakpoint at its
  end. If the debugger refuses, or answers without breakpoints, the server is as the call left
  it and the outcome is an error. Otherwise exactly this breakpoint joins the tracked list of the
  file, and the answer with the requested line (else the last one) is tracked under its id.
\<close>

theorem set_breakpoint_commits:
  assumes "ss_state (sv_session s) = SStopped" "sv_backend s = Some b"
    and "require_string a ''file'' = Inr file" "require_positive_int a ''line'' = Inr ln"
    and "ba_set_source_breakpoints (env_api env b) file
      (source_breakpoints_for_file file (sv_session s) @ [\<lparr>sb_line = ln, sb_condition = get_string a ''condition'' []\<rparr>]) s =
        Some (r, s')"
  shows "case r of
      Inl e \<Rightarrow> handle_set_breakpoint env a s = Some (Error (render SET_BREAKPOINTS e), s')
    | Inr results \<Rightarrow>
        (case matched_bp ln results of
           None \<Rightarrow> handle_set_breakpoint env a s = Some (Error ''setBreakpoints response contained no breakpoints'', s')
         | Some m \<Rightarrow> \<exists>out t.
             handle_set_breakpoint env a s = Some (Json out, t) \<and> t = s'\<lparr>sv_session := sv_session t\<rparr> \<and>
             source_breakpoints_for_file file (sv_session t) =
               source_breakpoints_for_file file (sv_session s') @ [\<lparr>sb_line = ln, sb_condition = get_string a ''condition'' []\<rparr>] \<and>
             (\<forall>f. f \<noteq> file \<longrightarrow> source_breakpoints_for_file f (sv_session t) = source_breakpoints_for_file f (sv_session s')) \<and>
             map_option bi_line (get_breakpoint_info (br_id m) (sv_session t)) = Some (br_line m))"
proof -
  have run: "handle_set_breakpoint env a s =
     (case r of
        Inl e \<Rightarrow> Some (Error (render SET_BREAKPOINTS e), s')
      | Inr results \<Rightarrow>
          (case matched_bp ln results of
             None \<Rightarrow> Some (Error ''setBreakpoints response contained no breakpoints'', s')
           | Some m \<Rightarrow>
               Some (into_outcome
                  (resp_set_if (br_message m \<noteq> []) ''message'' (JStr (br_message m))
                  (resp_set ''line'' (jint (br_line m))
                  (resp_set ''file'' (JStr file)
                  (resp_set ''verified'' (JBool (br_verified m))
                  (resp_set ''breakpoint_id'' (jint (br_id m)) resp_new))))),
                s'\<lparr>sv_session := add_breakpoint_response
                    \<lparr>bi_id = br_id m, bi_ty = ''source'', bi_file = file, bi_line = br_line m, bi_function = [],
                     bi_condition = get_string a ''condition'' [], bi_verified = br_verified m\<rparr>
                    (snd (add_source_breakpoint file ln (get_string a ''condition'' []) (sv_session s')))\<rparr>)))"
    using assms
    by (cases r)
      (simp_all add: handle_set_breakpoint_def stopped_passes arg_or_def seq_def read_session_def with_backend_def
        current_backend_def call_or_def ret_def matched_bp_def modify_session_def session_step_def Let_def
        add_source_breakpoint_def split: option.split)
  show ?thesis
    by (cases r) (auto simp: run into_outcome_def source_list_after_set split: option.split)
qed

text \<open>A breakpoint call, and a debugger that answers every request with the breakpoint given.\<close>

definition bp_call :: "i64 \<Rightarrow> args" where
  "bp_call ln = [(''file'', JStr ''a.c''), (''line'', jint ln)]"

definition answering :: "breakpoint_result list \<Rightarrow> (unit, source_bp list list) backend_api" where
  "answering rs = closed_api\<lparr>ba_set_source_breakpoints :=
     (\<lambda>file bps s. Some (Inr rs, s\<lparr>sv_world := sv_world s @ [bps]\<rparr>))\<rparr>"

lemma bp_call_args:
  "require_string (bp_call ln) ''file'' = Inr ''a.c''" "get_string (bp_call ln) ''condition'' [] = []"
  "0 < ln \<Longrightarrow> \<bar>ln\<bar> \<le> 2 ^ 53 \<Longrightarrow> require_positive_int (bp_call ln) ''line'' = Inr ln"
  by (simp_all add: bp_call_def require_string_def get_string_def require_positive_int_def require_int_jint)

definition sample_answer :: "i64 \<Rightarrow> i64 \<Rightarrow> breakpoint_result" where
  "sample_answer bid ln = \<lparr>br_id = bid, br_verified = True, br_line = ln, br_message = []\<rparr>"

theorem set_breakpoint_commits_witness:
  "\<exists>out t. handle_set_breakpoint (env_with (answering [sample_answer 1 10])) (bp_call 10) (stopped_server []) = Some (Json out, t) \<and>
     source_breakpoints_for_file ''a.c'' (sv_session t) = [\<lparr>sb_line = 10, sb_condition = []\<rparr>]"
proof -
  let ?api = "answering [sample_answer 1 10]" and ?s = "stopped_server []"
  let ?s' = "?s\<lparr>sv_world := [[\<lparr>sb_line = 10, sb_condition = []\<rparr>]]\<rparr>"
  have st: "ss_state (sv_session ?s) = SStopped" "sv_backend ?s = Some ()" "source_breakpoints_for_file f (sv_session ?s) = []" for f
    by (simp_all add: stopped_server_def set_state_def session_new_def source_breakpoints_for_file_def)
  have "ba_set_source_breakpoints (env_api (env_with ?api) ()) ''a.c''
      (source_breakpoints_for_file ''a.c'' (sv_session ?s) @
        [\<lparr>sb_line = 10, sb_condition = get_string (bp_call 10) ''condition'' []\<rparr>]) ?s =
      Some (Inr [sample_answer 1 10], ?s')"
    unfolding st(3) by (simp add: answering_def bp_call_args) (simp add: stopped_server_def)
  from set_breakpoint_commits [OF st(1,2) bp_call_args(1) bp_call_args(3) this]
  show ?thesis
    by (simp add: matched_bp_def sample_answer_def bp_call_args) (auto simp: st(3))
qed

end
