(* ===== verification/Breakpoint_Sync.thy ===== *)
theory Breakpoint_Sync
  imports Tool_Laws
begin

text \<open>
  The server against a debugger that keeps a table of breakpoints: over whole sessions, from launch
  to disconnect and on, the session's lists are an exact image of that table; and a breakpoint the
  debugger moved to another line stays in both when it is removed.
\<close>

section \<open>A debugger with a table\<close>

text \<open>
  \<^verbatim>\<open>setBreakpoints\<close> replaces the list of a file, \<^verbatim>\<open>setFunctionBreakpoints\<close> the list of functions; a refused
  request changes nothing. A launch sets every breakpoint it is given, whatever becomes of it. The
  table ends with the debugger.
\<close>

record bp_debugger =
  bd_files :: "string \<Rightarrow> source_bp list"
  bd_functions :: "function_bp list"
  bd_calls :: nat

definition empty_table :: "bp_debugger \<Rightarrow> bp_debugger" where
  "empty_table d = d\<lparr>bd_files := \<lambda>_. [], bd_functions := []\<rparr>"

type_synonym bp_answers = "nat \<Rightarrow> nat \<Rightarrow> backend_error + breakpoint_result list"

text \<open>
  What the debugger does is a script: its answers to the breakpoint requests, by the number of the
  request and how many breakpoints it asks for, and to the launches, by the number; which connections fail, which calls are overtaken by the client's
  cancellation; the order of the hash map of files; and every other operation.
\<close>

record bp_script =
  bs_answers :: bp_answers
  bs_launched :: "nat \<Rightarrow> backend_error + launch_outcome"
  bs_refused :: "nat \<Rightarrow> backend_error option"
  bs_late :: "nat \<Rightarrow> bool"
  bs_order :: "(string \<times> source_bp list) list \<Rightarrow> (string \<times> source_bp list) list"
  bs_other :: "(unit, bp_debugger) backend_api"

definition accept_files :: "bp_answers \<Rightarrow> string \<Rightarrow> source_bp list \<Rightarrow> bp_debugger \<Rightarrow> bp_debugger" where
  "accept_files ans file bps d =
     (case ans (bd_calls d) (length bps) of
        Inl _ \<Rightarrow> d\<lparr>bd_calls := Suc (bd_calls d)\<rparr>
      | Inr _ \<Rightarrow> d\<lparr>bd_files := (bd_files d)(file := bps), bd_calls := Suc (bd_calls d)\<rparr>)"

definition accept_functions :: "bp_answers \<Rightarrow> function_bp list \<Rightarrow> bp_debugger \<Rightarrow> bp_debugger" where
  "accept_functions ans bps d =
     (case ans (bd_calls d) (length bps) of
        Inl _ \<Rightarrow> d\<lparr>bd_calls := Suc (bd_calls d)\<rparr>
      | Inr _ \<Rightarrow> d\<lparr>bd_functions := bps, bd_calls := Suc (bd_calls d)\<rparr>)"

definition load_table :: "launch_spec \<Rightarrow> bp_debugger \<Rightarrow> bp_debugger" where
  "load_table spec d =
     d\<lparr>bd_files := hm_list (ls_source_breakpoints spec), bd_functions := ls_function_breakpoints spec,
       bd_calls := Suc (bd_calls d)\<rparr>"

definition table_api :: "bp_script \<Rightarrow> (unit, bp_debugger) backend_api" where
  "table_api sc = (bs_other sc)\<lparr>
     ba_launch := (\<lambda>spec s. Some (bs_launched sc (bd_calls (sv_world s)), s\<lparr>sv_world := load_table spec (sv_world s)\<rparr>)),
     ba_set_source_breakpoints :=
       (\<lambda>file bps s. Some (bs_answers sc (bd_calls (sv_world s)) (length bps),
          s\<lparr>sv_world := accept_files (bs_answers sc) file bps (sv_world s)\<rparr>)),
     ba_set_function_breakpoints :=
       (\<lambda>bps s. Some (bs_answers sc (bd_calls (sv_world s)) (length bps),
          s\<lparr>sv_world := accept_functions (bs_answers sc) bps (sv_world s)\<rparr>))\<rparr>"

definition overtakes :: "bp_script \<Rightarrow> (unit, bp_debugger) cancel" where
  "overtakes sc s = (if bs_late sc (bd_calls (sv_world s)) then Some s else None)"

definition table_env :: "bp_script \<Rightarrow> (unit, bp_debugger) tool_env" where
  "table_env sc = (env_with (table_api sc))\<lparr>
     env_connect := (\<lambda>s. Some (case bs_refused sc (bd_calls (sv_world s)) of Some e \<Rightarrow> Inl e | None \<Rightarrow> Inr (), s)),
     env_release := (\<lambda>_. empty_table),
     env_timer := overtakes sc,
     env_file_order := bs_order sc\<rparr>"

text \<open>The table as the session has it.\<close>

definition tracked_files :: "session \<Rightarrow> string \<Rightarrow> source_bp list" where
  "tracked_files s file = source_breakpoints_for_file file s"

definition kinds_known :: "session \<Rightarrow> bool" where
  "kinds_known s \<longleftrightarrow>
     (\<forall>i info. get_breakpoint_info i s = Some info \<longrightarrow> bi_ty info = ''source'' \<or> bi_ty info = ''function'')"

definition in_sync :: "(unit, bp_debugger) tool_server \<Rightarrow> bool" where
  "in_sync s \<longleftrightarrow>
     bd_files (sv_world s) = tracked_files (sv_session s) \<and>
     bd_functions (sv_world s) = all_function_breakpoints (sv_session s) \<and>
     kinds_known (sv_session s)"

text \<open>An idle session tracks nothing, and with no backend there is no table.\<close>

definition synced :: "(unit, bp_debugger) tool_server \<Rightarrow> bool" where
  "synced s \<longleftrightarrow>
     in_sync s \<and> session_ok (sv_session s) \<and>
     (ss_state (sv_session s) = Idle \<longrightarrow>
        tracked_files (sv_session s) = (\<lambda>_. []) \<and> all_function_breakpoints (sv_session s) = []) \<and>
     (sv_backend s = None \<longrightarrow> bd_files (sv_world s) = (\<lambda>_. []) \<and> bd_functions (sv_world s) = [])"

text \<open>Operations that leave all breakpoints alone, on either side, and never make the session idle.\<close>

definition same_lists :: "session \<Rightarrow> session \<Rightarrow> bool" where
  "same_lists s t \<longleftrightarrow>
     tracked_files t = tracked_files s \<and> all_function_breakpoints t = all_function_breakpoints s \<and>
     ss_bp_responses t = ss_bp_responses s \<and> (session_ok s \<longrightarrow> session_ok t) \<and> (ss_state t = Idle \<longrightarrow> ss_state s = Idle)"

definition quiet :: "(unit, bp_debugger, 'a) task \<Rightarrow> bool" where
  "quiet p \<longleftrightarrow>
     (\<forall>s x t. p s = Some (x, t) \<longrightarrow>
        bd_files (sv_world t) = bd_files (sv_world s) \<and> bd_functions (sv_world t) = bd_functions (sv_world s) \<and>
        sv_backend t = sv_backend s \<and> same_lists (sv_session s) (sv_session t))"

definition leaves_breakpoints :: "(unit, bp_debugger) backend_api \<Rightarrow> bool" where
  "leaves_breakpoints api \<longleftrightarrow>
     (\<forall>x. quiet (ba_attach api x)) \<and> (\<forall>x. quiet (ba_disconnect api x)) \<and> (\<forall>x. quiet (ba_cont api x)) \<and>
     (\<forall>x y z. quiet (ba_step api x y z)) \<and> quiet (ba_pause api) \<and> quiet (ba_threads api) \<and>
     (\<forall>x y z. quiet (ba_stack_trace api x y z)) \<and> (\<forall>x. quiet (ba_scopes api x)) \<and> (\<forall>x. quiet (ba_variables api x)) \<and>
     (\<forall>x y z. quiet (ba_evaluate api x y z)) \<and> (\<forall>x y. quiet (ba_read_memory api x y)) \<and>
     (\<forall>x y. quiet (ba_disassemble api x y))"

text \<open>
  What is asked of the script: an accepted request for at least one breakpoint is answered with at
  least one (one for none may be answered with none), the map's order loses no entry, and no other
  operation touches breakpoints.
\<close>

definition well_behaved :: "bp_script \<Rightarrow> bool" where
  "well_behaved sc \<longleftrightarrow>
     (\<forall>n k. bs_answers sc n (Suc k) \<noteq> Inr []) \<and> (\<forall>m f. hm_list (bs_order sc m) f = hm_list m f) \<and>
     leaves_breakpoints (bs_other sc)"

text \<open>A sequence of tool calls.\<close>

fun run_calls ::
  "('b, 'w) tool_env \<Rightarrow> ('b, 'w) cancel \<Rightarrow> (string \<times> args) list \<Rightarrow> ('b, 'w) tool_server \<Rightarrow> ('b, 'w) tool_server option"
where
  "run_calls env ct [] s = Some s"
| "run_calls env ct ((name, a) # calls) s =
     (case dispatch env name a ct s of None \<Rightarrow> None | Some (_, t) \<Rightarrow> run_calls env ct calls t)"

section \<open>The session and the table\<close>

lemma tracked_after:
  "tracked_files (snd (add_source_breakpoint file ln c s)) =
     (tracked_files s)(file := tracked_files s file @ [\<lparr>sb_line = ln, sb_condition = c\<rparr>])"
  "tracked_files (add_breakpoint_response info s) = tracked_files s"
  "tracked_files (snd (add_function_breakpoint n c s)) = tracked_files s"
  "all_function_breakpoints (snd (add_source_breakpoint file ln c s)) = all_function_breakpoints s"
  "all_function_breakpoints (add_breakpoint_response info s) = all_function_breakpoints s"
  "all_function_breakpoints (snd (add_function_breakpoint n c s)) =
     all_function_breakpoints s @ [\<lparr>fb_name = n, fb_condition = c\<rparr>]"
  "get_breakpoint_info i (add_breakpoint_response info s) = (if i = bi_id info then Some info else get_breakpoint_info i s)"
  "get_breakpoint_info i (snd (add_source_breakpoint file ln c s)) = get_breakpoint_info i s"
  "get_breakpoint_info i (snd (add_function_breakpoint n c s)) = get_breakpoint_info i s"
  by (auto simp: tracked_files_def source_breakpoints_for_file_def all_function_breakpoints_def get_breakpoint_info_def
      add_source_breakpoint_def add_function_breakpoint_def add_breakpoint_response_def Let_def)

lemma tracked_after_pending:
  "tracked_files (add_pending_source_breakpoint file ln c s) = tracked_files s"
  "tracked_files (add_pending_function_breakpoint n c s) = tracked_files s"
  "all_function_breakpoints (add_pending_source_breakpoint file ln c s) = all_function_breakpoints s"
  "all_function_breakpoints (add_pending_function_breakpoint n c s) = all_function_breakpoints s"
  "get_breakpoint_info i (add_pending_source_breakpoint file ln c s) = get_breakpoint_info i s"
  "get_breakpoint_info i (add_pending_function_breakpoint n c s) = get_breakpoint_info i s"
  by (simp_all add: tracked_files_def fun_eq_iff source_breakpoints_for_file_def all_function_breakpoints_def get_breakpoint_info_def
      add_pending_source_breakpoint_def add_pending_function_breakpoint_def)

lemma kinds_known_after:
  "kinds_known s \<Longrightarrow> bi_ty info = ''source'' \<or> bi_ty info = ''function'' \<Longrightarrow> kinds_known (add_breakpoint_response info s)"
  "kinds_known (snd (add_source_breakpoint file ln c s)) = kinds_known s"
  "kinds_known (snd (add_function_breakpoint n c s)) = kinds_known s"
  "kinds_known (add_pending_source_breakpoint file ln c s) = kinds_known s"
  "kinds_known (add_pending_function_breakpoint n c s) = kinds_known s"
  by (auto simp: kinds_known_def tracked_after tracked_after_pending)

lemma tracked_after_remove:
  assumes "get_breakpoint_info i s = Some info"
  shows "bi_ty info = ''source'' \<Longrightarrow>
      tracked_files (snd (remove_breakpoint_by_id i s)) =
        (tracked_files s)(bi_file info := remaining_source_breakpoints (tracked_files s (bi_file info)) info) \<and>
      all_function_breakpoints (snd (remove_breakpoint_by_id i s)) = all_function_breakpoints s"
    and "bi_ty info = ''function'' \<Longrightarrow>
      tracked_files (snd (remove_breakpoint_by_id i s)) = tracked_files s \<and>
      all_function_breakpoints (snd (remove_breakpoint_by_id i s)) =
        remaining_function_breakpoints (all_function_breakpoints s) info"
    and "get_breakpoint_info j (snd (remove_breakpoint_by_id i s)) = (if j = i then None else get_breakpoint_info j s)"
  using assms
  by (auto simp: remove_breakpoint_by_id_def get_breakpoint_info_def tracked_files_def source_breakpoints_for_file_def
      all_function_breakpoints_def remaining_source_breakpoints_def remaining_function_breakpoints_def
      hm_list_remove_source_bp Let_def split: option.split)

lemma kinds_known_remove: "kinds_known s \<Longrightarrow> kinds_known (snd (remove_breakpoint_by_id i s))"
proof (cases "get_breakpoint_info i s")
  case None
  then show "kinds_known s \<Longrightarrow> ?thesis" by (simp add: remove_breakpoint_unknown)
next
  case (Some info)
  then show "kinds_known s \<Longrightarrow> ?thesis" by (auto simp: kinds_known_def tracked_after_remove(3) split: if_splits)
qed

lemmas run_task_defs =
  arg_or_def seq_def ret_def read_session_def with_backend_def current_backend_def call_or_def
  modify_session_def session_step_def case_prod_beta

lemma table_env_simps [simp]:
  "env_api (table_env sc) b = table_api sc" "env_release (table_env sc) b = empty_table"
  "env_timer (table_env sc) = overtakes sc" "env_file_order (table_env sc) = bs_order sc"
  "env_drop_wait (table_env sc) s = s"
  by (simp_all add: table_env_def env_with_def)

section \<open>Steps that keep the two in agreement\<close>

definition syncs :: "(unit, bp_debugger, 'a) task \<Rightarrow> bool" where
  "syncs p \<longleftrightarrow> (\<forall>s x t. synced s \<longrightarrow> p s = Some (x, t) \<longrightarrow> synced t)"

named_theorems syncs_rules \<open>computations that keep the session's lists equal to the table\<close>

lemma synced_quiet:
  "synced s \<Longrightarrow> bd_files (sv_world t) = bd_files (sv_world s) \<Longrightarrow> bd_functions (sv_world t) = bd_functions (sv_world s) \<Longrightarrow>
     sv_backend t = sv_backend s \<Longrightarrow> same_lists (sv_session s) (sv_session t) \<Longrightarrow> synced t"
  by (auto simp: synced_def in_sync_def same_lists_def kinds_known_def get_breakpoint_info_def)

lemma syncs_quiet: "quiet p \<Longrightarrow> syncs p"
  unfolding syncs_def quiet_def using synced_quiet by blast

lemma syncs_ret [syncs_rules]: "syncs (ret x)"
  by (simp add: syncs_def ret_def)

lemma syncsD: "syncs p \<Longrightarrow> synced s \<Longrightarrow> p s = Some (x, t) \<Longrightarrow> synced t"
  unfolding syncs_def by blast

lemma syncs_seq [syncs_rules]:
  assumes "syncs p" "\<And>x. syncs (f x)"
  shows "syncs (seq p f)"
  unfolding syncs_def seq_def
proof (intro allI impI)
  fix s y t
  assume s: "synced s" and r: "(case p s of None \<Rightarrow> None | Some (x, t') \<Rightarrow> f x t') = Some (y, t)"
  from r obtain x u where "p s = Some (x, u)" "f x u = Some (y, t)" by (auto split: option.splits)
  with s assms show "synced t" by (blast dest: syncsD)
qed

lemma syncs_read [syncs_rules]: "syncs (read_session g)" "syncs current_backend"
  by (simp_all add: syncs_def read_session_def current_backend_def)

lemma syncs_guarded [syncs_rules]: "syncs p \<Longrightarrow> syncs (guarded_by allowed p)"
  by (auto simp: syncs_def guarded_by_def split: sum.splits)

lemma syncs_arg [syncs_rules]: "(\<And>x. syncs (k x)) \<Longrightarrow> syncs (arg_or r k)"
  by (simp add: arg_or_def syncs_ret split: sum.split)

lemma syncs_call [syncs_rules]: "syncs p \<Longrightarrow> (\<And>x. syncs (k x)) \<Longrightarrow> syncs (call_or sh p k)"
  unfolding call_or_def by (auto intro!: syncs_seq syncs_ret split: sum.split)

lemma syncs_try [syncs_rules]: "syncs p \<Longrightarrow> (\<And>x. syncs (k x)) \<Longrightarrow> syncs (try_then p k)"
  unfolding try_then_def by (auto intro!: syncs_seq syncs_ret split: sum.split)

lemma syncs_with_err [syncs_rules]: "syncs p \<Longrightarrow> syncs (with_err g p)"
  unfolding with_err_def by (intro syncs_seq syncs_ret)

lemma syncs_backend [syncs_rules]: "syncs (k (table_api sc)) \<Longrightarrow> syncs (with_backend (table_env sc) m k)"
  unfolding with_backend_def by (auto intro!: syncs_rules split: option.split)

lemma syncs_select [syncs_rules]: "syncs p \<Longrightarrow> syncs (select_cancel (overtakes sc) p)"
  unfolding syncs_def select_cancel_def overtakes_def by (auto split: option.splits if_splits)

text \<open>Session operations that leave the lists alone.\<close>

lemma same_lists_ops [simp]:
  "st \<noteq> Idle \<Longrightarrow> same_lists s (set_state st s)" "same_lists s (set_program p s)" "same_lists s (set_pid i s)"
  "same_lists s (set_last_stopped info s)" "hm_ok m \<Longrightarrow> same_lists s (set_frame_mapping m s)"
  "st \<noteq> Idle \<Longrightarrow> same_lists s (snd (set_state_if_generation g st s))" "same_lists s (snd (terminate_if_generation g code s))"
  "same_lists s s"
  by (auto simp: same_lists_def tracked_files_def fun_eq_iff source_breakpoints_for_file_def all_function_breakpoints_def
      set_state_def set_program_def set_pid_def set_last_stopped_def set_frame_mapping_def
      set_state_if_generation_def terminate_if_generation_def Let_def session_ok_def split: option.splits)

lemma same_lists_drain [simp]: "same_lists s (snd (drain_output s))"
  using session_ok_drain [of s]
  by (auto simp: same_lists_def tracked_files_def fun_eq_iff source_breakpoints_for_file_def all_function_breakpoints_def
      drain_output_def split: prod.splits)

lemma syncs_modify [syncs_rules]: "(\<And>s. same_lists s (f s)) \<Longrightarrow> syncs (modify_session f)"
  by (rule syncs_quiet) (auto simp: quiet_def modify_session_def)

lemma syncs_step [syncs_rules]: "(\<And>s. same_lists s (snd (f s))) \<Longrightarrow> syncs (session_step f)"
  by (rule syncs_quiet) (simp add: quiet_def session_step_def case_prod_beta)

section \<open>The tools\<close>

lemma table_api_quiet:
  assumes "well_behaved sc"
  shows "syncs (ba_attach (table_api sc) as)" "syncs (ba_disconnect (table_api sc) b)" "syncs (ba_cont (table_api sc) i)"
    "syncs (ba_step (table_api sc) k i gr)" "syncs (ba_pause (table_api sc))" "syncs (ba_threads (table_api sc))"
    "syncs (ba_stack_trace (table_api sc) i st l)" "syncs (ba_scopes (table_api sc) i)"
    "syncs (ba_variables (table_api sc) i)" "syncs (ba_evaluate (table_api sc) ex oi md)"
    "syncs (ba_read_memory (table_api sc) ad i)" "syncs (ba_disassemble (table_api sc) ad i)"
  using assms by (auto simp: well_behaved_def leaves_breakpoints_def table_api_def intro!: syncs_quiet)

lemma syncs_flatten:
  assumes "\<And>r. syncs (fetch r)"
  shows "syncs (flatten_recursive fetch max_count var_ref pfx depth r)"
    and "syncs (flatten_loop fetch max_count pfx depth vs r)"
  using assms
proof (induction fetch max_count var_ref pfx depth r and fetch max_count pfx depth vs r
    rule: flatten_recursive_flatten_loop.induct)
  case (1 fetch max_count var_ref pfx depth r)
  then show ?case by (simp add: flatten_recursive.simps syncs_rules)
next
  case (2 fetch max_count pfx depth r)
  then show ?case by (simp add: syncs_ret)
next
  case (3 fetch max_count pfx depth v vs r)
  show ?case
    unfolding flatten_loop.simps Let_def
    using 3 by (auto intro!: syncs_ret syncs_try simp: Let_def)
qed

lemma syncs_flatten_variables [syncs_rules]:
  assumes "\<And>r. syncs (fetch r)"
  shows "syncs (flatten_variables te fetch reference depth max_count filt)"
proof -
  have "syncs (flatten_top te fetch max_count filt d vs r)" for d vs r
    using assms by (induction vs arbitrary: r) (auto intro!: syncs_rules syncs_flatten simp: Let_def)
  then show ?thesis unfolding flatten_variables_def by (intro syncs_rules assms)
qed

lemma syncs_stop_result [syncs_rules]: "syncs (handle_stop_result outcome g)"
  unfolding handle_stop_result_def by (cases outcome) (auto intro!: syncs_rules)

lemma syncs_views:
  assumes sc: "well_behaved sc"
  shows "syncs (handle_backtrace (table_env sc) a)" "syncs (handle_threads (table_env sc))"
    "syncs (handle_variables (table_env sc) a)" "syncs (handle_evaluate (table_env sc) a)"
    "syncs (handle_run_command (table_env sc) a)" "syncs (handle_read_memory (table_env sc) a)"
    "syncs (handle_disassemble (table_env sc) a)" "syncs (handle_pause (table_env sc))"
    "syncs (resume_tool (table_env sc) r oe msg a (overtakes sc))"
    "syncs handle_status" "syncs handle_read_output" "syncs (handle_list_breakpoints env)"
  unfolding handle_backtrace_def handle_threads_def handle_variables_def handle_evaluate_def handle_run_command_def
    handle_read_memory_def handle_disassemble_def disassemble_from_def handle_pause_def resume_tool_def run_backend_def
    handle_status_def handle_read_output_def handle_list_breakpoints_def resolve_frame_id_def Let_def
  by (auto intro!: syncs_rules table_api_quiet [OF sc] split: option.split sum.split resume.split)

subsection \<open>Breakpoint calls\<close>

lemmas sync_simps =
  guarded_by_def run_task_defs table_api_def accept_files_def accept_functions_def synced_def in_sync_def tracked_after
  tracked_after_pending kinds_known_after tracked_files_def [symmetric]

lemma states_after [simp]:
  "ss_state (add_breakpoint_response info s) = ss_state s" "ss_state (snd (add_source_breakpoint f l c s)) = ss_state s"
  "ss_state (snd (add_function_breakpoint n c s)) = ss_state s" "ss_state (add_pending_source_breakpoint f l c s) = ss_state s"
  "ss_state (add_pending_function_breakpoint n c s) = ss_state s" "ss_state (snd (remove_breakpoint_by_id i s)) = ss_state s"
  by (auto simp: add_breakpoint_response_def add_source_breakpoint_def add_function_breakpoint_def
      add_pending_source_breakpoint_def add_pending_function_breakpoint_def remove_breakpoint_by_id_def Let_def
      split: option.split)

lemma syncs_set_breakpoint:
  assumes "well_behaved sc"
  shows "syncs (handle_set_breakpoint (table_env sc) a)"
proof -
  have "matched_bp ln rs = None \<Longrightarrow> bs_answers sc n (Suc k) \<noteq> Inr rs" for ln rs n k
    using assms by (auto simp: well_behaved_def matched_bp_None)
  then show ?thesis
    unfolding syncs_def handle_set_breakpoint_def matched_bp_def [symmetric] Let_def
    by (auto simp: sync_simps split: sum.splits option.splits if_splits)
qed

lemma syncs_set_function_breakpoint: "syncs (handle_set_function_breakpoint (table_env sc) a)"
  unfolding syncs_def handle_set_function_breakpoint_def Let_def
  by (auto simp: sync_simps split: sum.splits option.splits if_splits)

lemma synced_calls: "synced (s\<lparr>sv_world := sv_world s\<lparr>bd_calls := n\<rparr>\<rparr>) = synced s"
  by (simp add: synced_def in_sync_def)

lemma send_remaining_sync:
  assumes "synced s" "sv_backend s = Some ()" "get_breakpoint_info i (sv_session s) = Some info"
    and "send_remaining (table_api sc) info k s = Some (out, t)"
  shows "synced t \<or>
    (\<exists>u. sv_session u = sv_session s \<and> sv_backend u = Some () \<and> k () u = Some (out, t) \<and>
      bd_files (sv_world u) = tracked_files (snd (remove_breakpoint_by_id i (sv_session s))) \<and>
      bd_functions (sv_world u) = all_function_breakpoints (snd (remove_breakpoint_by_id i (sv_session s))))"
proof -
  from assms(1) have w: "bd_files (sv_world s) = tracked_files (sv_session s)"
    "bd_functions (sv_world s) = all_function_breakpoints (sv_session s)" and k: "kinds_known (sv_session s)"
    by (simp_all add: synced_def in_sync_def)
  show ?thesis
  proof (cases "bi_ty info = ''function''")
    case True
    let ?bps = "remaining_function_breakpoints (all_function_breakpoints (sv_session s)) info"
    show ?thesis
    proof (cases "bs_answers sc (bd_calls (sv_world s)) (length ?bps)")
      case (Inl e)
      with True assms(1,4) show ?thesis
        by (auto simp: send_remaining_def run_task_defs table_api_def accept_functions_def synced_calls)
    next
      case (Inr rs)
      from tracked_after_remove(2) [OF assms(3) True] Inr True assms(2,4) w show ?thesis
        by (intro disjI2 exI [of _ "s\<lparr>sv_world := accept_functions (bs_answers sc) ?bps (sv_world s)\<rparr>"])
          (simp add: send_remaining_def run_task_defs table_api_def accept_functions_def)
    qed
  next
    case False
    let ?bps = "remaining_source_breakpoints (tracked_files (sv_session s) (bi_file info)) info"
    from False assms(3) k have source: "bi_ty info = ''source''" by (auto simp: kinds_known_def)
    show ?thesis
    proof (cases "bs_answers sc (bd_calls (sv_world s)) (length ?bps)")
      case (Inl e)
      with False assms(1,4) show ?thesis
        by (auto simp: send_remaining_def run_task_defs table_api_def accept_files_def synced_calls
            tracked_files_def [symmetric])
    next
      case (Inr rs)
      from tracked_after_remove(1) [OF assms(3) source] Inr False assms(2,4) w show ?thesis
        by (intro disjI2 exI [of _ "s\<lparr>sv_world := accept_files (bs_answers sc) (bi_file info) ?bps (sv_world s)\<rparr>"])
          (simp add: send_remaining_def run_task_defs table_api_def accept_files_def tracked_files_def [symmetric])
    qed
  qed
qed

lemma synced_removed:
  assumes "synced s" "sv_session u = sv_session s" "sv_backend u = Some ()" "ss_state (sv_session s) = SStopped"
    and "bd_files (sv_world u) = tracked_files (snd (remove_breakpoint_by_id i (sv_session s)))"
    and "bd_functions (sv_world u) = all_function_breakpoints (snd (remove_breakpoint_by_id i (sv_session s)))"
  shows "synced (u\<lparr>sv_session := snd (remove_breakpoint_by_id i (sv_session u))\<rparr>)"
  using assms by (auto simp: synced_def in_sync_def kinds_known_remove)

lemma check_state_passes: "check_state allowed s = Inr x \<Longrightarrow> ss_state s \<in> set allowed"
  by (cases "ss_state s") (auto simp: check_state_def Let_def split: if_splits)

lemma syncs_remove_breakpoint: "syncs (handle_remove_breakpoint (table_env sc) a)"
  unfolding syncs_def
proof (intro allI impI)
  fix s out t
  assume s: "synced s" and run: "handle_remove_breakpoint (table_env sc) a s = Some (out, t)"
  show "synced t"
  proof (cases "t = s")
    case True
    with s show ?thesis by simp
  next
    case False
    with run obtain i info where st: "ss_state (sv_session s) = SStopped" and i: "sv_backend s = Some ()" "get_breakpoint_info i (sv_session s) = Some info"
      and r: "send_remaining (table_api sc) info (\<lambda>_. seq (session_step (remove_breakpoint_by_id i)) (\<lambda>removed.
          case removed of
            Inl e \<Rightarrow> ret (Error (''failed to remove breakpoint: '' @ e))
          | Inr _ \<Rightarrow> ret (into_outcome
              (resp_set ''breakpoint_id'' (jint i) (resp_set ''removed'' (JBool True) resp_new))))) s = Some (out, t)"
      unfolding handle_remove_breakpoint_def
      by (auto simp: guarded_by_def run_task_defs split: sum.splits option.splits dest!: check_state_passes)
    from send_remaining_sync [OF s i r] synced_removed [OF s _ _ st] show ?thesis
      by (cases "fst (remove_breakpoint_by_id i (sv_session s))") (auto simp: run_task_defs)
  qed
qed

subsection \<open>Starting and ending\<close>

lemma reset_lists [simp]:
  "tracked_files (reset s) = (\<lambda>_. [])" "all_function_breakpoints (reset s) = []" "kinds_known (reset s)"
  by (simp_all add: reset_def drain_output_def reset_inner_def tracked_files_def fun_eq_iff source_breakpoints_for_file_def
      all_function_breakpoints_def kinds_known_def get_breakpoint_info_def split: prod.split)

text \<open>What a failure needs in order to clean up.\<close>

definition can_reset :: "(unit, bp_debugger) tool_server \<Rightarrow> bool" where
  "can_reset s \<longleftrightarrow>
     session_ok (sv_session s) \<and>
     (sv_backend s = None \<longrightarrow> bd_files (sv_world s) = (\<lambda>_. []) \<and> bd_functions (sv_world s) = [])"

lemma synced_can_reset: "synced s \<Longrightarrow> can_reset s"
  by (simp add: synced_def can_reset_def)

lemma cleaned_up:
  assumes "can_reset s"
  shows "cleanup_after_cancel (table_env sc) s = Some (x, t) \<Longrightarrow> synced t"
    and "seq (modify_session reset) (\<lambda>_. seq (clear_backend (table_env sc)) (\<lambda>_. ret y)) s = Some (z, t) \<Longrightarrow> synced t"
    and "seq (drop_backend_bounded (table_env sc)) (\<lambda>_. seq (modify_session reset) (\<lambda>_. ret y)) s = Some (z, t) \<Longrightarrow> synced t"
  using assms
  by (auto simp: can_reset_def synced_def in_sync_def cleanup_after_cancel_def clear_backend_def drop_backend_bounded_def
      modify_session_def seq_def ret_def empty_table_def split: option.splits)

lemma connected_synced:
  assumes "can_reset s" "connected (table_env sc) k s = Some (out, t)"
    and "\<And>u. sv_session u = sv_session s \<Longrightarrow> sv_world u = sv_world s \<Longrightarrow> sv_backend u = Some () \<Longrightarrow>
      k () u = Some (out, t) \<Longrightarrow> synced t"
  shows "synced t"
proof (cases "bs_refused sc (bd_calls (sv_world s))")
  case None
  with assms(2) have "k () (s\<lparr>sv_backend := Some (), sv_pumps := sv_pumps s @ [((), ss_generation (sv_session s))]\<rparr>) = Some (out, t)"
    by (simp add: connected_def table_env_def env_with_def seq_def set_backend_def spawn_event_pump_def)
  then show ?thesis by (rule assms(3) [rotated -1]) simp_all
next
  case (Some e)
  with assms(2) have "seq (modify_session reset) (\<lambda>_. seq (clear_backend (table_env sc)) (\<lambda>_. ret (Error (connect_error e)))) s =
    Some (out, t)"
    by (simp add: connected_def seq_def [of "env_connect _"]) (simp add: table_env_def env_with_def)
  then show ?thesis by (rule cleaned_up(2) [OF assms(1)])
qed

lemma handshake_synced:
  assumes "can_reset s" "handshake (table_env sc) (overtakes sc) msg p k s = Some (out, t)"
    and "\<And>e u. p s = Some (Inl e, u) \<Longrightarrow> can_reset u"
    and "\<And>x u. p s = Some (Inr x, u) \<Longrightarrow> k x u = Some (out, t) \<Longrightarrow> synced t"
  shows "synced t"
proof -
  have clean: "synced t" if "can_reset u" "seq (cleanup_after_cancel (table_env sc)) (\<lambda>_. ret y) u = Some (out, t)" for u y
    using that(2) cleaned_up(1) [OF that(1)] by (auto simp: seq_def ret_def split: option.splits)
  from assms(2) show ?thesis
    unfolding handshake_def seq_def [of "select_cancel _ _"] select_cancel_def overtakes_def
    by (auto split: if_splits option.splits sum.splits intro: clean [OF assms(1)] clean [OF assms(3)] assms(4))
qed

lemma syncs_reports: "syncs (launch_report program dpid lo)" "syncs (attach_report label epid dpid ao)"
  unfolding launch_report_def attach_report_def stopped_at_start_def
  by (auto intro!: syncs_rules split: launch_outcome.split attach_outcome.split option.split)

lemma synced_with_backend: "synced s \<Longrightarrow> sv_session u = sv_session s \<Longrightarrow> sv_world u = sv_world s \<Longrightarrow> sv_backend u = Some b \<Longrightarrow> synced u"
  by (simp add: synced_def in_sync_def)

lemma syncs_attach:
  assumes sc: "well_behaved sc"
  shows "syncs (handle_attach (table_env sc) a (overtakes sc))"
proof -
  have "syncs (connected (table_env sc) (\<lambda>b. handshake (table_env sc) (overtakes sc) msg (ba_attach (table_api sc) spec)
      (attach_report label epid dpid)))" for msg spec label epid dpid
    unfolding syncs_def
  proof (intro allI impI)
    fix s out t
    assume s: "synced s" and run: "connected (table_env sc) (\<lambda>b. handshake (table_env sc) (overtakes sc) msg
      (ba_attach (table_api sc) spec) (attach_report label epid dpid)) s = Some (out, t)"
    show "synced t"
    proof (rule connected_synced [OF synced_can_reset [OF s] run])
      fix u :: "(unit, bp_debugger) tool_server"
      assume "sv_session u = sv_session s" "sv_world u = sv_world s" "sv_backend u = Some ()"
      from synced_with_backend [OF s this] have u: "synced u" .
      assume run: "handshake (table_env sc) (overtakes sc) msg (ba_attach (table_api sc) spec)
        (attach_report label epid dpid) u = Some (out, t)"
      show "synced t"
        by (rule handshake_synced [OF synced_can_reset [OF u] run])
          (blast intro: synced_can_reset syncsD [OF table_api_quiet(1) [OF sc] u] syncsD [OF syncs_reports(2)])+
    qed
  qed
  then show ?thesis
    unfolding handle_attach_def by (auto intro!: syncs_rules simp: case_prod_beta)
qed

lemma syncs_disconnect:
  assumes sc: "well_behaved sc"
  shows "syncs (handle_disconnect (table_env sc) a)"
proof -
  have tail: "syncs (seq (drop_backend_bounded (table_env sc)) (\<lambda>_. seq (modify_session reset) (\<lambda>_. ret y)))"
    for y :: tool_outcome
    unfolding syncs_def by (intro allI impI) (erule cleaned_up(3) [OF synced_can_reset])
  have "syncs (best_effort_disconnect (table_env sc) terminate)" for terminate
    unfolding best_effort_disconnect_def
    by (auto intro!: syncs_rules table_api_quiet [OF sc] split: option.split)
  from syncs_seq [OF this tail] show ?thesis
    unfolding handle_disconnect_def Let_def by (rule syncs_guarded)
qed

text \<open>A launch hands over what was remembered: flushed and loaded, the lists agree again.\<close>

definition launching :: "(string, source_bp list) hash_map \<Rightarrow> function_bp list \<Rightarrow> (unit, bp_debugger) tool_server \<Rightarrow> bool" where
  "launching files fns s \<longleftrightarrow>
     tracked_files (sv_session s) = hm_list files \<and> all_function_breakpoints (sv_session s) = fns \<and>
     kinds_known (sv_session s) \<and> session_ok (sv_session s) \<and> ss_state (sv_session s) \<noteq> Idle \<and>
     (sv_backend s = None \<longrightarrow> bd_files (sv_world s) = (\<lambda>_. []) \<and> bd_functions (sv_world s) = [])"

lemma launching_can_reset: "launching files fns s \<Longrightarrow> can_reset s"
  by (simp add: launching_def can_reset_def)

lemma flush_launching:
  assumes "synced s" "ss_state (sv_session s) = Idle"
    and "flush_pending_breakpoints (set_state Configuring (sv_session s)) = ((files, fns), s')"
  shows "launching files fns (s\<lparr>sv_session := s'\<rparr>)"
proof -
  have ok: "session_ok (set_state Configuring (sv_session s))"
    using assms(1) by (simp add: synced_def)
  from session_ok_flush [OF ok] have "session_ok s'" by (simp add: assms(3))
  moreover from assms(3) have "ss_bp_responses s' = ss_bp_responses (sv_session s)" "ss_state s' = Configuring"
    by (auto simp: flush_pending_breakpoints_def Let_def set_state_def)
  ultimately show ?thesis
    using flush_moves_pending [OF ok assms(3)] assms(1,2)
    by (auto simp: launching_def synced_def in_sync_def tracked_files_def fun_eq_iff kinds_known_def get_breakpoint_info_def
        source_breakpoints_for_file_def all_function_breakpoints_def set_state_def)
qed

lemma launch_loads:
  assumes sc: "well_behaved sc" and l: "launching files fns s"
    and spec: "ls_source_breakpoints spec = bs_order sc files" "ls_function_breakpoints spec = fns"
    and run: "ba_launch (table_api sc) spec s = Some (r, u)"
  shows "sv_backend s = Some () \<Longrightarrow> synced u"
  using assms
  by (auto simp: table_api_def load_table_def launching_def synced_def in_sync_def well_behaved_def fun_eq_iff)

lemma launch_connects:
  assumes "handle_launch (table_env sc) a ct s = Some (out, t)" "t \<noteq> s"
  obtains files fns s' spec msg program dpid where "ss_state (sv_session s) = Idle"
    "flush_pending_breakpoints (set_state Configuring (sv_session s)) = ((files, fns), s')"
    "ls_source_breakpoints spec = bs_order sc files" "ls_function_breakpoints spec = fns"
    "connected (table_env sc) (\<lambda>b. handshake (table_env sc) ct msg (ba_launch (table_api sc) spec)
       (launch_report program dpid)) (s\<lparr>sv_session := s'\<rparr>) = Some (out, t)"
proof -
  obtain files fns s' where f:
    "flush_pending_breakpoints (set_state Configuring (sv_session s)) = ((files, fns), s')"
    by (metis prod.exhaust)
  let ?spec = "\<lambda>program pargs envs.
    \<lparr>ls_program = program, ls_args = pargs, ls_cwd = (if get_string a ''cwd'' [] = [] then None else Some (get_string a ''cwd'' [])),
     ls_env = envs, ls_stop_on_entry = get_bool a ''stop_on_entry'' True,
     ls_source_breakpoints = bs_order sc files, ls_function_breakpoints = fns\<rparr>"
  from assms obtain program pargs envs where idle: "ss_state (sv_session s) = Idle"
    and run: "connected (table_env sc) (\<lambda>b. handshake (table_env sc) ct
       (if get_bool a ''stop_on_entry'' True then ''timed out waiting for stop on entry: context canceled''
        else ''launch timed out: context canceled'')
       (ba_launch (table_api sc) (?spec program pargs envs))
       (launch_report program (ba_debugger_pid (table_api sc)))) (s\<lparr>sv_session := s'\<rparr>) = Some (out, t)"
    by (auto simp: handle_launch_def guarded_by_def arg_or_def ret_def Let_def seq_def [of "modify_session _"]
        seq_def [of "session_step _"] modify_session_def session_step_def f
        split: sum.splits split del: if_split dest!: check_state_passes)
  show thesis by (rule that [OF idle f _ _ run]) simp_all
qed

lemma syncs_launch:
  assumes sc: "well_behaved sc"
  shows "syncs (handle_launch (table_env sc) a (overtakes sc))"
  unfolding syncs_def
proof (intro allI impI)
  fix s out t
  assume s: "synced s" and run: "handle_launch (table_env sc) a (overtakes sc) s = Some (out, t)"
  show "synced t"
  proof (cases "t = s")
    case True
    with s show ?thesis by simp
  next
    case False
    from launch_connects [OF run this] obtain files fns s' spec msg program dpid
      where idle: "ss_state (sv_session s) = Idle"
        and f: "flush_pending_breakpoints (set_state Configuring (sv_session s)) = ((files, fns), s')"
        and spec: "ls_source_breakpoints spec = bs_order sc files" "ls_function_breakpoints spec = fns"
        and c: "connected (table_env sc) (\<lambda>b. handshake (table_env sc) (overtakes sc) msg (ba_launch (table_api sc) spec)
          (launch_report program dpid)) (s\<lparr>sv_session := s'\<rparr>) = Some (out, t)"
      by metis
    note l = flush_launching [OF s idle f]
    show ?thesis
    proof (rule connected_synced [OF launching_can_reset [OF l] c])
      fix u :: "(unit, bp_debugger) tool_server"
      assume u: "sv_session u = sv_session (s\<lparr>sv_session := s'\<rparr>)" "sv_world u = sv_world (s\<lparr>sv_session := s'\<rparr>)"
        "sv_backend u = Some ()"
      with l have lu: "launching files fns u" by (simp add: launching_def)
      assume run: "handshake (table_env sc) (overtakes sc) msg (ba_launch (table_api sc) spec)
        (launch_report program dpid) u = Some (out, t)"
      show "synced t"
        by (rule handshake_synced [OF launching_can_reset [OF lu] run])
          (blast intro: synced_can_reset launch_loads [OF sc lu spec _ u(3)] syncsD [OF syncs_reports(1)])+
    qed
  qed
qed

section \<open>Whole sessions\<close>

lemma syncs_if: "syncs p \<Longrightarrow> syncs q \<Longrightarrow> syncs (if c then p else q)"
  by simp

lemma syncs_dispatch:
  assumes sc: "well_behaved sc"
  shows "syncs (dispatch (table_env sc) name a (overtakes sc))"
  unfolding dispatch_def handle_continue_def handle_step_over_def handle_step_into_def handle_step_out_def
  by (intro syncs_if syncs_launch [OF sc] syncs_attach [OF sc] syncs_disconnect [OF sc] syncs_set_breakpoint [OF sc]
      syncs_set_function_breakpoint syncs_remove_breakpoint syncs_views [OF sc] syncs_ret)

lemma synced_run:
  assumes sc: "well_behaved sc"
  shows "run_calls (table_env sc) (overtakes sc) calls s = Some t \<Longrightarrow> synced s \<Longrightarrow> synced t"
proof (induction calls arbitrary: s)
  case Nil
  then show ?case by simp
next
  case (Cons call calls)
  obtain name a where call: "call = (name, a)" by (cases call)
  with Cons.prems(1) obtain out u where u: "dispatch (table_env sc) name a (overtakes sc) s = Some (out, u)"
    "run_calls (table_env sc) (overtakes sc) calls u = Some t"
    by (auto split: option.splits)
  from syncsD [OF syncs_dispatch [OF sc] Cons.prems(2) u(1)] Cons.IH [OF u(2)] show ?case by blast
qed

text \<open>A server that was just started, in front of a debugger that has not been.\<close>

definition no_debugger :: bp_debugger where
  "no_debugger = \<lparr>bd_files = \<lambda>_. [], bd_functions = [], bd_calls = 0\<rparr>"

lemma synced_fresh: "synced (tool_server_new session_new no_debugger)"
  by (simp add: synced_def in_sync_def tool_server_new_def no_debugger_def session_new_def tracked_files_def fun_eq_iff
      source_breakpoints_for_file_def all_function_breakpoints_def kinds_known_def get_breakpoint_info_def session_ok_def)

text \<open>
  C6. The session's breakpoint lists refine the debugger's table. From a fresh server on, after any
  sequence of tool calls whatever - breakpoints set while idle, launches that hand them over, fail or
  are cancelled, attaches, breakpoints set and removed at stops, refused or accepted, disconnects and
  new launches - the lists per file and of functions are equal to what the debugger holds.
\<close>

theorem breakpoint_lists_refine_table:
  assumes "well_behaved sc"
    and "run_calls (table_env sc) (overtakes sc) calls (tool_server_new session_new no_debugger) = Some t"
  shows "bd_files (sv_world t) = tracked_files (sv_session t) \<and>
    bd_functions (sv_world t) = all_function_breakpoints (sv_session t)"
  using synced_run [OF assms synced_fresh] by (simp add: synced_def in_sync_def)

section \<open>A breakpoint that moved\<close>

text \<open>What one accepted call does to both lists.\<close>

lemma table_set_breakpoint:
  assumes "ss_state (sv_session s) = SStopped" "sv_backend s = Some ()"
    and "require_string a ''file'' = Inr file" "require_positive_int a ''line'' = Inr ln"
    and "bs_answers sc (bd_calls (sv_world s)) (Suc (length (tracked_files (sv_session s) file))) = Inr rs"
    and "matched_bp ln rs = Some r"
  shows "\<exists>out. dispatch (table_env sc) ''set_breakpoint'' a ct s =
    Some (out, s\<lparr>sv_world := accept_files (bs_answers sc) file
        (tracked_files (sv_session s) file @ [\<lparr>sb_line = ln, sb_condition = get_string a ''condition'' []\<rparr>]) (sv_world s),
      sv_session := add_breakpoint_response
        \<lparr>bi_id = br_id r, bi_ty = ''source'', bi_file = file, bi_line = br_line r, bi_function = [],
         bi_condition = get_string a ''condition'' [], bi_verified = br_verified r\<rparr>
        (snd (add_source_breakpoint file ln (get_string a ''condition'' []) (sv_session s)))\<rparr>)"
  using assms
  by (simp add: dispatch_def handle_set_breakpoint_def stopped_passes run_task_defs table_api_def
      matched_bp_def tracked_files_def Let_def)

lemma table_remove_breakpoint:
  assumes "ss_state (sv_session s) = SStopped" "sv_backend s = Some ()"
    and "require_int a ''breakpoint_id'' = Inr i" "get_breakpoint_info i (sv_session s) = Some info"
    and "bi_ty info = ''source''" "bs_answers sc (bd_calls (sv_world s))
      (length (remaining_source_breakpoints (tracked_files (sv_session s) (bi_file info)) info)) = Inr rs"
  shows "\<exists>out. dispatch (table_env sc) ''remove_breakpoint'' a ct s =
    Some (out, s\<lparr>sv_world := accept_files (bs_answers sc) (bi_file info)
        (remaining_source_breakpoints (tracked_files (sv_session s) (bi_file info)) info) (sv_world s),
      sv_session := snd (remove_breakpoint_by_id i (sv_session s))\<rparr>)"
  using assms
  by (simp add: dispatch_def handle_remove_breakpoint_def stopped_passes run_task_defs table_api_def
      send_remaining_def tracked_files_def split: sum.split)

lemma remove_first_append_new:
  "(\<forall>x \<in> set xs. \<not> P x) \<Longrightarrow> \<not> P y \<Longrightarrow> remove_first P (xs @ [y]) = xs @ [y]"
  by (induction xs) simp_all

text \<open>
  C32. A breakpoint the debugger resolves to another line than the one asked for is not undone by
  \<^verbatim>\<open>remove_breakpoint\<close>: the id is forgotten, but the list sent to the debugger and the session's own
  list still hold the breakpoint, because the list stores the requested line and the removal looks
  for the resolved one.
\<close>

theorem moved_breakpoint_stays:
  assumes "ss_state (sv_session s) = SStopped" "sv_backend s = Some ()"
    and "require_string a ''file'' = Inr file" "require_positive_int a ''line'' = Inr ln"
    and "bs_answers sc (bd_calls (sv_world s)) (Suc (length (tracked_files (sv_session s) file))) = Inr rs"
    and "bs_answers sc (Suc (bd_calls (sv_world s))) (Suc (length (tracked_files (sv_session s) file))) = Inr rs'"
    and "matched_bp ln rs = Some r"
    and "br_line r \<noteq> ln" "br_line r \<notin> sb_line ` set (tracked_files (sv_session s) file)"
    and "require_int a' ''breakpoint_id'' = Inr (br_id r)"
  shows "\<exists>t. run_calls (table_env sc) ct [(''set_breakpoint'', a), (''remove_breakpoint'', a')] s = Some t \<and>
    get_breakpoint_info (br_id r) (sv_session t) = None \<and>
    bd_files (sv_world t) file = tracked_files (sv_session s) file @ [\<lparr>sb_line = ln, sb_condition = get_string a ''condition'' []\<rparr>] \<and>
    tracked_files (sv_session t) file = bd_files (sv_world t) file"
proof -
  let ?info = "\<lparr>bi_id = br_id r, bi_ty = ''source'', bi_file = file, bi_line = br_line r, bi_function = [],
    bi_condition = get_string a ''condition'' [], bi_verified = br_verified r\<rparr>"
  let ?list = "tracked_files (sv_session s) file @ [\<lparr>sb_line = ln, sb_condition = get_string a ''condition'' []\<rparr>]"
  let ?sess = "add_breakpoint_response ?info (snd (add_source_breakpoint file ln (get_string a ''condition'' []) (sv_session s)))"
  let ?u = "s\<lparr>sv_world := accept_files (bs_answers sc) file ?list (sv_world s), sv_session := ?sess\<rparr>"
  have sess: "ss_state ?sess = SStopped" "get_breakpoint_info (br_id r) ?sess = Some ?info" "tracked_files ?sess file = ?list"
    using assms(1) by (simp_all add: tracked_after)
  have kept: "remaining_source_breakpoints ?list ?info = ?list"
    unfolding remaining_source_breakpoints_def using assms(8,9) by (intro remove_first_append_new) (force, simp)
  have calls: "bd_calls (sv_world ?u) = Suc (bd_calls (sv_world s))"
    using assms(5) by (simp add: accept_files_def)
  obtain out1 where 1: "dispatch (table_env sc) ''set_breakpoint'' a ct s = Some (out1, ?u)"
    using table_set_breakpoint [where sc = sc and ct = ct, OF assms(1-5,7)] by blast
  obtain out2 where 2: "dispatch (table_env sc) ''remove_breakpoint'' a' ct ?u =
    Some (out2, ?u\<lparr>sv_world := accept_files (bs_answers sc) file ?list (sv_world ?u), sv_session := snd (remove_breakpoint_by_id (br_id r) ?sess)\<rparr>)"
    using table_remove_breakpoint [of ?u a' "br_id r" ?info sc rs' ct] sess kept calls assms(2,6,10) by auto
  show ?thesis
    using 1 2 kept assms(6) calls tracked_after_remove(1,3) [OF sess(2)] sess(3)
    by (simp add: accept_files_def)
qed

section \<open>Examples\<close>

definition sample_script :: "i64 \<Rightarrow> bp_script" where
  "sample_script ln =
     \<lparr>bs_answers = (\<lambda>_ k. Inr (replicate k (sample_answer 1 ln))), bs_launched = (\<lambda>_. Inr (LStopped \<lparr>si_reason = ''entry'', si_thread_id = 1, si_description = [], si_hit_breakpoint_ids = []\<rparr>)), bs_refused = (\<lambda>_. None),
      bs_late = (\<lambda>_. False), bs_order = (\<lambda>m. m), bs_other = closed_api\<rparr>"

lemma sample_well_behaved: "well_behaved (sample_script ln)"
  by (simp add: well_behaved_def sample_script_def leaves_breakpoints_def closed_api_def quiet_def ret_def)

definition remove_call :: "i64 \<Rightarrow> args" where
  "remove_call i = [(''breakpoint_id'', jint i)]"

definition start_call :: args where
  "start_call = [(''program'', JStr ''a.out'')]"

lemma start_call_args:
  "require_string start_call ''program'' = Inr ''a.out''" "parse_json_array te start_call ''args'' = Inr []"
  "parse_json_object te start_call ''env'' = Inr []" "get_string start_call ''cwd'' [] = []" "get_bool start_call ''stop_on_entry'' True"
  by (simp_all add: start_call_def require_string_def parse_json_array_def parse_json_object_def get_string_def
      get_bool_def bt_get_def)

lemma after_launch:
  "\<exists>out t. dispatch (table_env (sample_script 10)) ''launch'' start_call (overtakes (sample_script 10)) (tool_server_new session_new no_debugger) =
     Some (out, t) \<and> ss_state (sv_session t) = SStopped \<and> sv_backend t = Some () \<and> tracked_files (sv_session t) f = [] \<and> bd_calls (sv_world t) = 1"
    by (simp add: dispatch_def handle_set_breakpoint_def handle_launch_def guarded_by_def check_state_def
        tool_server_new_def session_new_def bp_call_args start_call_args run_task_defs add_pending_source_breakpoint_def
        hm_push_def hm_insert_def hm_get_def set_state_def flush_pending_breakpoints_def connected_def table_env_def
        env_with_def set_backend_def spawn_event_pump_def handshake_def select_cancel_def overtakes_def
        sample_script_def table_api_def load_table_def launch_report_def closed_api_def no_debugger_def hm_list_def Let_def
        stopped_at_start_def set_last_stopped_def set_program_def tracked_files_def source_breakpoints_for_file_def)

text \<open>A session that removes the only breakpoint of a file; the empty list is answered with an empty list.\<close>

theorem breakpoint_lists_refine_table_witness:
  "\<exists>t. run_calls (table_env (sample_script 10)) (overtakes (sample_script 10))
      [(''launch'', start_call), (''set_breakpoint'', bp_call 10), (''remove_breakpoint'', remove_call 1)]
      (tool_server_new session_new no_debugger) = Some t \<and>
    bd_files (sv_world t) ''a.c'' = [] \<and> bd_files (sv_world t) = tracked_files (sv_session t)"
proof -
  let ?sc = "sample_script 10" and ?bp = "sample_answer 1 10"
  let ?list = "[\<lparr>sb_line = 10, sb_condition = []\<rparr>]"
  let ?info = "\<lparr>bi_id = 1, bi_ty = ''source'', bi_file = ''a.c'', bi_line = 10, bi_function = [], bi_condition = [], bi_verified = True\<rparr>"
  obtain out t where t: "dispatch (table_env ?sc) ''launch'' start_call (overtakes ?sc) (tool_server_new session_new no_debugger) = Some (out, t)"
    "ss_state (sv_session t) = SStopped" "sv_backend t = Some ()" "tracked_files (sv_session t) ''a.c'' = []" "bd_calls (sv_world t) = 1"
    using after_launch [of "''a.c''"] by blast
  let ?sess = "add_breakpoint_response ?info (snd (add_source_breakpoint ''a.c'' 10 [] (sv_session t)))"
  let ?u = "t\<lparr>sv_world := accept_files (bs_answers ?sc) ''a.c'' ?list (sv_world t), sv_session := ?sess\<rparr>"
  have "bs_answers ?sc n (Suc 0) = Inr [?bp]" "matched_bp 10 [?bp] = Some ?bp" for n
    by (simp_all add: sample_script_def matched_bp_def sample_answer_def)
  with table_set_breakpoint [OF t(2,3) bp_call_args(1) bp_call_args(3) _ this(2), of ?sc "overtakes ?sc"] t(4)
  obtain out' where u: "dispatch (table_env ?sc) ''set_breakpoint'' (bp_call 10) (overtakes ?sc) t = Some (out', ?u)"
    by (auto simp: bp_call_args) (auto simp: sample_answer_def)
  have sess: "ss_state ?sess = SStopped" "get_breakpoint_info 1 ?sess = Some ?info" "tracked_files ?sess ''a.c'' = ?list"
    using t(2,4) by (simp_all add: tracked_after)
  have none: "remaining_source_breakpoints ?list ?info = []" "bs_answers ?sc n 0 = Inr []" for n
    by (simp_all add: remaining_source_breakpoints_def sample_script_def)
  have "require_int (remove_call 1) ''breakpoint_id'' = Inr 1"
    by (simp add: remove_call_def require_int_jint)
  from table_remove_breakpoint [of ?u "remove_call 1" 1 ?info ?sc "[]" "overtakes ?sc"] this sess none t(3) obtain out''
    where "dispatch (table_env ?sc) ''remove_breakpoint'' (remove_call 1) (overtakes ?sc) ?u =
      Some (out'', ?u\<lparr>sv_world := accept_files (bs_answers ?sc) ''a.c'' [] (sv_world ?u),
        sv_session := snd (remove_breakpoint_by_id 1 ?sess)\<rparr>)" by auto
  with t(1) u have run: "run_calls (table_env ?sc) (overtakes ?sc)
      [(''launch'', start_call), (''set_breakpoint'', bp_call 10), (''remove_breakpoint'', remove_call 1)]
      (tool_server_new session_new no_debugger) = Some (?u\<lparr>sv_world := accept_files (bs_answers ?sc) ''a.c'' [] (sv_world ?u),
        sv_session := snd (remove_breakpoint_by_id 1 ?sess)\<rparr>)" (is "_ = Some ?v") by simp
  have "bd_files (sv_world ?v) ''a.c'' = []" by (simp add: accept_files_def none)
  with run breakpoint_lists_refine_table [OF sample_well_behaved run] show ?thesis by blast
qed

definition bp_start :: "(unit, bp_debugger) tool_server" where
  "bp_start = stopped_server no_debugger"

lemma bp_start_facts:
  "ss_state (sv_session bp_start) = SStopped" "sv_backend bp_start = Some ()" "tracked_files (sv_session bp_start) f = []"
  by (simp_all add: bp_start_def stopped_server_def set_state_def session_new_def tracked_files_def source_breakpoints_for_file_def)

theorem moved_breakpoint_stays_witness:
  "\<exists>t. run_calls (table_env (sample_script 12)) (overtakes (sample_script 12))
      [(''set_breakpoint'', bp_call 10), (''remove_breakpoint'', remove_call 1)] bp_start = Some t \<and>
    bd_files (sv_world t) ''a.c'' = [\<lparr>sb_line = 10, sb_condition = []\<rparr>]"
  using moved_breakpoint_stays [of bp_start "bp_call 10" "''a.c''" 10 "sample_script 12" "[sample_answer 1 12]" "[sample_answer 1 12]"
      "sample_answer 1 12" "remove_call 1" "overtakes (sample_script 12)"]
  by (auto simp: bp_start_facts bp_call_args sample_script_def sample_answer_def remove_call_def require_int_jint
      matched_bp_def last_opt_def)

end
