(* ===== verification/Breakpoint_Races.thy ===== *)
theory Breakpoint_Races
  imports Breakpoint_Sync
begin

text \<open>
  Two \<^verbatim>\<open>set_breakpoint\<close> calls for one file that overlap. The handler of \<^verbatim>\<open>handlers/breakpoints.rs\<close> reads the
  tracked list, sends it with its own breakpoint added and adds the breakpoint to the list when the
  answer is there; no lock is held across the request.
\<close>

text \<open>
  The request of a first call during which a second call runs from its start to its end: after the
  debugger has handled the first request and before its answer is back, or while the first request is
  still to be written.
\<close>

definition overlapped_request ::
  "bp_script \<Rightarrow> bool \<Rightarrow> args \<Rightarrow> string \<Rightarrow> source_bp list \<Rightarrow> (unit, bp_debugger, backend_error + breakpoint_result list) task" where
  "overlapped_request sc handled_first a file bps =
     (if handled_first then
        seq (ba_set_source_breakpoints (table_api sc) file bps) (\<lambda>answer.
        seq (dispatch (table_env sc) ''set_breakpoint'' a (\<lambda>_. None)) (\<lambda>_. ret answer))
      else
        seq (dispatch (table_env sc) ''set_breakpoint'' a (\<lambda>_. None)) (\<lambda>_.
          ba_set_source_breakpoints (table_api sc) file bps))"

definition overlapped_env :: "bp_script \<Rightarrow> bool \<Rightarrow> args \<Rightarrow> (unit, bp_debugger) tool_env" where
  "overlapped_env sc handled_first a =
     (table_env sc)\<lparr>env_api := (\<lambda>_. (table_api sc)\<lparr>ba_set_source_breakpoints := overlapped_request sc handled_first a\<rparr>)\<rparr>"

abbreviation bp_of :: "args \<Rightarrow> i64 \<Rightarrow> source_bp" where
  "bp_of a ln \<equiv> \<lparr>sb_line = ln, sb_condition = get_string a ''condition'' []\<rparr>"

abbreviation asked :: "bp_script \<Rightarrow> string \<Rightarrow> source_bp list \<Rightarrow> bp_debugger \<Rightarrow> bp_debugger" where
  "asked sc file bps d \<equiv> accept_files (bs_answers sc) file bps d"

abbreviation tracked_as :: "string \<Rightarrow> i64 \<Rightarrow> string \<Rightarrow> breakpoint_result \<Rightarrow> session \<Rightarrow> session" where
  "tracked_as file ln condition m s \<equiv>
     add_breakpoint_response
       \<lparr>bi_id = br_id m, bi_ty = ''source'', bi_file = file, bi_line = br_line m, bi_function = [],
        bi_condition = condition, bi_verified = br_verified m\<rparr>
       (snd (add_source_breakpoint file ln condition s))"

text \<open>The handler around its request, whatever the request's await shows.\<close>

lemma set_around_request:
  assumes "ss_state (sv_session s) = SStopped" "sv_backend s = Some b"
    and "require_string a ''file'' = Inr file" "require_positive_int a ''line'' = Inr ln"
    and "ba_set_source_breakpoints (env_api env b) file (tracked_files (sv_session s) file @ [bp_of a ln]) s = Some (Inr rs, u)"
    and "matched_bp ln rs = Some m"
  shows "\<exists>out. dispatch env ''set_breakpoint'' a ct s =
    Some (Json out, u\<lparr>sv_session := tracked_as file ln (get_string a ''condition'' []) m (sv_session u)\<rparr>)"
  using assms
  by (simp add: dispatch_def handle_set_breakpoint_def stopped_passes run_task_defs matched_bp_def tracked_files_def
      into_outcome_def Let_def)

text \<open>
  C17. Overlapping \<^verbatim>\<open>set_breakpoint\<close> calls lose a breakpoint. When two calls for one file overlap and the
  debugger accepts both, both report success and the session tracks both breakpoints, but the
  debugger is left with one of them: the list that reached it last was made before the other
  breakpoint was added.
\<close>

theorem overlapping_sets_lose_one:
  assumes "ss_state (sv_session s) = SStopped" "sv_backend s = Some ()"
    and "require_string a ''file'' = Inr file" "require_positive_int a ''line'' = Inr ln"
    and "require_string a' ''file'' = Inr file" "require_positive_int a' ''line'' = Inr ln'"
    and "bs_answers sc (bd_calls (sv_world s)) (Suc (length (tracked_files (sv_session s) file))) = Inr rs" "rs \<noteq> []"
    and "bs_answers sc (Suc (bd_calls (sv_world s))) (Suc (length (tracked_files (sv_session s) file))) = Inr rs'" "rs' \<noteq> []"
  shows "\<exists>out t. dispatch (overlapped_env sc handled_first a') ''set_breakpoint'' a (\<lambda>_. None) s = Some (Json out, t) \<and>
    tracked_files (sv_session t) file = tracked_files (sv_session s) file @ [bp_of a' ln', bp_of a ln] \<and>
    bd_files (sv_world t) file =
      tracked_files (sv_session s) file @ [if handled_first then bp_of a' ln' else bp_of a ln]"
proof -
  let ?d = "sv_world s" and ?l = "tracked_files (sv_session s) file"
  let ?c = "get_string a ''condition'' []" and ?c' = "get_string a' ''condition'' []"
  let ?s' = "tracked_as file ln' ?c'"
  have calls: "bd_calls (asked sc file bps ?d) = Suc (bd_calls ?d)" for bps
    by (simp add: accept_files_def split: sum.split)
  have hit: "\<exists>m. matched_bp l qs = Some m" if "qs \<noteq> []" for l qs
    using that matched_bp_None [of l qs] by (cases "matched_bp l qs") auto
  have other: "\<exists>m out. dispatch (table_env sc) ''set_breakpoint'' a' (\<lambda>_. None) (s\<lparr>sv_world := d\<rparr>) =
      Some (out, s\<lparr>sv_world := asked sc file (?l @ [bp_of a' ln']) d, sv_session := ?s' m (sv_session s)\<rparr>)"
    if q: "bs_answers sc (bd_calls d) (Suc (length ?l)) = Inr qs" "qs \<noteq> []" for d qs
  proof -
    from hit [OF q(2), of ln'] obtain m where m: "matched_bp ln' qs = Some m" by blast
    show ?thesis
      using table_set_breakpoint [OF _ _ assms(5,6) _ m, where s = "s\<lparr>sv_world := d\<rparr>" and sc = sc and ct = "\<lambda>_. None"]
        assms(1,2) q(1) by auto
  qed
  have "\<exists>qs m' u. overlapped_request sc handled_first a' file (?l @ [bp_of a ln]) s = Some (Inr qs, u) \<and> qs \<noteq> [] \<and>
      sv_session u = ?s' m' (sv_session s) \<and>
      sv_world u = (if handled_first then asked sc file (?l @ [bp_of a' ln']) (asked sc file (?l @ [bp_of a ln]) ?d)
        else asked sc file (?l @ [bp_of a ln]) (asked sc file (?l @ [bp_of a' ln']) ?d))"
  proof (cases handled_first)
    case True
    from other [of "asked sc file (?l @ [bp_of a ln]) ?d" rs'] assms(9,10) calls obtain m out where
      "dispatch (table_env sc) ''set_breakpoint'' a' (\<lambda>_. None) (s\<lparr>sv_world := asked sc file (?l @ [bp_of a ln]) ?d\<rparr>) =
        Some (out, s\<lparr>sv_world := asked sc file (?l @ [bp_of a' ln']) (asked sc file (?l @ [bp_of a ln]) ?d),
          sv_session := ?s' m (sv_session s)\<rparr>)" by auto
    with True assms(7,8) show ?thesis
      by (auto simp: overlapped_request_def run_task_defs table_api_def)
  next
    case False
    from other [of ?d rs] assms(7,8) obtain m out where "dispatch (table_env sc) ''set_breakpoint'' a' (\<lambda>_. None) s =
      Some (out, s\<lparr>sv_world := asked sc file (?l @ [bp_of a' ln']) ?d, sv_session := ?s' m (sv_session s)\<rparr>)" by auto
    with False assms(9,10) calls show ?thesis
      by (auto simp: overlapped_request_def run_task_defs table_api_def)
  qed
  then obtain qs m' u where q: "overlapped_request sc handled_first a' file (?l @ [bp_of a ln]) s = Some (Inr qs, u)" "qs \<noteq> []"
    and u: "sv_session u = ?s' m' (sv_session s)"
      "sv_world u = (if handled_first then asked sc file (?l @ [bp_of a' ln']) (asked sc file (?l @ [bp_of a ln]) ?d)
        else asked sc file (?l @ [bp_of a ln]) (asked sc file (?l @ [bp_of a' ln']) ?d))"
    by blast
  from hit [OF q(2)] obtain m where m: "matched_bp ln qs = Some m" by blast
  have "ba_set_source_breakpoints (env_api (overlapped_env sc handled_first a') ()) file (?l @ [bp_of a ln]) s = Some (Inr qs, u)"
    using q by (simp add: overlapped_env_def)
  from set_around_request [OF assms(1-4) this m] obtain out where
    out: "dispatch (overlapped_env sc handled_first a') ''set_breakpoint'' a (\<lambda>_. None) s =
      Some (Json out, u\<lparr>sv_session := tracked_as file ln ?c m (sv_session u)\<rparr>)"
    by blast
  have "tracked_files (tracked_as file ln ?c m (sv_session u)) file = ?l @ [bp_of a' ln', bp_of a ln]"
    by (simp add: tracked_after u)
  moreover have "bd_files (sv_world u) file = ?l @ [if handled_first then bp_of a' ln' else bp_of a ln]"
    using assms(7,9) by (simp add: accept_files_def u)
  ultimately show ?thesis using out by simp
qed

theorem overlapping_sets_lose_one_witness:
  "\<exists>out t. dispatch (overlapped_env (sample_script 10) True (bp_call 20)) ''set_breakpoint'' (bp_call 10) (\<lambda>_. None) bp_start =
      Some (Json out, t) \<and>
    tracked_files (sv_session t) ''a.c'' = [\<lparr>sb_line = 20, sb_condition = []\<rparr>, \<lparr>sb_line = 10, sb_condition = []\<rparr>] \<and>
    bd_files (sv_world t) ''a.c'' = [\<lparr>sb_line = 20, sb_condition = []\<rparr>]"
  using overlapping_sets_lose_one [of bp_start "bp_call 10" "''a.c''" 10 "bp_call 20" 20 "sample_script 10"
      "[sample_answer 1 10]" "[sample_answer 1 10]" True]
  by (simp add: bp_start_facts bp_call_args sample_script_def)

end
