(* ===== verification/Step_Relations.thy ===== *)
theory Step_Relations
  imports Tool_Dispatch
begin

text \<open>
  Relations between the server before and after a computation. The interface is a reflexive and
  transitive relation; its facts say that the computations a handler is put together from stay within
  the relation when their parts do. What a sequential and what a concurrent client may rely on are
  instances.
\<close>

section \<open>Computations within a relation\<close>

definition kept :: "('t \<Rightarrow> 't \<Rightarrow> bool) \<Rightarrow> ('t, 'a) proc \<Rightarrow> bool" where
  "kept R p \<longleftrightarrow> (\<forall>s x t. p s = Some (x, t) \<longrightarrow> R s t)"

lemma kept_if: "kept R p \<Longrightarrow> kept R q \<Longrightarrow> kept R (if c then p else q)"
  by simp

lemma keptD: "kept R p \<Longrightarrow> p s = Some (x, t) \<Longrightarrow> R s t"
  by (simp add: kept_def)

locale step_relation =
  fixes R :: "('b, 'w) tool_server \<Rightarrow> ('b, 'w) tool_server \<Rightarrow> bool"
  assumes stays: "R s s"
    and composes: "R s t \<Longrightarrow> R t u \<Longrightarrow> R s u"
begin

lemma kept_seq: "kept R p \<Longrightarrow> (\<And>x. kept R (f x)) \<Longrightarrow> kept R (seq p f)"
  unfolding kept_def seq_def by (auto split: option.splits prod.splits) (metis composes)

lemma kept_ret: "kept R (ret x)"
  by (simp add: kept_def ret_def stays)

lemma kept_read: "kept R (read_session f)"
  by (simp add: kept_def read_session_def stays)

lemma kept_backend: "kept R current_backend"
  by (simp add: kept_def current_backend_def stays)

lemma kept_guarded: "kept R p \<Longrightarrow> kept R (guarded_by allowed p)"
  by (auto simp: kept_def guarded_by_def stays split: sum.splits)

lemma kept_arg: "(\<And>x. kept R (k x)) \<Longrightarrow> kept R (arg_or r k)"
  by (auto simp: arg_or_def kept_ret split: sum.split)

lemma kept_call: "kept R p \<Longrightarrow> (\<And>x. kept R (k x)) \<Longrightarrow> kept R (call_or sh p k)"
  unfolding call_or_def by (auto intro!: kept_seq kept_ret split: sum.split)

lemma kept_with_backend: "(\<And>b. kept R (k (env_api env b))) \<Longrightarrow> kept R (with_backend env m k)"
  unfolding with_backend_def by (auto intro!: kept_seq kept_ret kept_backend split: option.split)

lemma kept_try: "kept R p \<Longrightarrow> (\<And>x. kept R (k x)) \<Longrightarrow> kept R (try_then p k)"
  unfolding try_then_def by (auto intro!: kept_seq kept_ret split: sum.split)

lemma kept_with_err: "kept R p \<Longrightarrow> kept R (with_err g p)"
  unfolding with_err_def by (auto intro!: kept_seq kept_ret)

lemma kept_select: "kept R p \<Longrightarrow> (\<And>s t. ct s = Some t \<Longrightarrow> R s t) \<Longrightarrow> kept R (select_cancel ct p)"
  unfolding kept_def select_cancel_def by (auto split: option.splits)

lemma kept_modify: "(\<And>s. R s (s\<lparr>sv_session := f (sv_session s)\<rparr>)) \<Longrightarrow> kept R (modify_session f)"
  by (auto simp: kept_def modify_session_def)

lemma kept_step: "(\<And>s. R s (s\<lparr>sv_session := snd (f (sv_session s))\<rparr>)) \<Longrightarrow> kept R (session_step f)"
  unfolding kept_def session_step_def by (auto split: prod.splits) (metis snd_conv)

lemma kept_flatten:
  assumes "\<And>r. kept R (fetch r)"
  shows "kept R (flatten_recursive fetch max_count var_ref pfx depth r)"
    and "kept R (flatten_loop fetch max_count pfx depth vs r)"
  using assms
proof (induction fetch max_count var_ref pfx depth r and fetch max_count pfx depth vs r
    rule: flatten_recursive_flatten_loop.induct)
  case (1 fetch max_count var_ref pfx depth r)
  then show ?case by (simp add: flatten_recursive.simps kept_try)
next
  case (2 fetch max_count pfx depth r)
  then show ?case by (simp add: kept_ret)
next
  case (3 fetch max_count pfx depth v vs r)
  show ?case
    unfolding flatten_loop.simps Let_def
    using 3 by (auto intro!: kept_ret kept_try simp: Let_def)
qed

lemma kept_flatten_top: "(\<And>r. kept R (fetch r)) \<Longrightarrow> kept R (flatten_top te fetch max_count filt depth vs r)"
  by (induction vs arbitrary: r) (auto intro!: kept_ret kept_try kept_flatten simp: Let_def)

lemma kept_flatten_variables:
  "(\<And>r. kept R (fetch r)) \<Longrightarrow> kept R (flatten_variables te fetch reference depth max_count filt)"
  unfolding flatten_variables_def by (intro kept_try kept_flatten_top)

end

end
