(* ===== verification/Server_Laws.thy ===== *)
theory Server_Laws
  imports Step_Relations Session_Laws
begin

text \<open>
  What the tool server guarantees to a client that makes one call at a time: while a handler waits,
  only the event pumps touch the session. Under that rule a well-formedness invariant holds and
  the session state moves along the documented diagram.
\<close>

section \<open>What happens while a handler waits\<close>

inductive meanwhile :: "('b, 'w) tool_server \<Rightarrow> ('b, 'w) tool_server \<Rightarrow> bool" where
  nothing: "meanwhile s s"
| outside: "meanwhile s t \<Longrightarrow> meanwhile s (t\<lparr>sv_world := w\<rparr>)"
| pumped: "meanwhile s t \<Longrightarrow> (b, g) \<in> set (sv_pumps t) \<Longrightarrow>
     meanwhile s (t\<lparr>sv_session := pump_event g e (sv_session t)\<rparr>)"

definition calm :: "('b, 'w, 'a) task \<Rightarrow> bool" where
  "calm p \<longleftrightarrow> (\<forall>s x t. p s = Some (x, t) \<longrightarrow> meanwhile s t)"

definition calm_api :: "('b, 'w) backend_api \<Rightarrow> bool" where
  "calm_api api \<longleftrightarrow>
     (\<forall>x. calm (ba_launch api x)) \<and> (\<forall>x. calm (ba_attach api x)) \<and> (\<forall>x. calm (ba_disconnect api x)) \<and>
     (\<forall>x y. calm (ba_set_source_breakpoints api x y)) \<and> (\<forall>x. calm (ba_set_function_breakpoints api x)) \<and>
     (\<forall>x. calm (ba_cont api x)) \<and> (\<forall>x y z. calm (ba_step api x y z)) \<and> calm (ba_pause api) \<and>
     calm (ba_threads api) \<and> (\<forall>x y z. calm (ba_stack_trace api x y z)) \<and> (\<forall>x. calm (ba_scopes api x)) \<and>
     (\<forall>x. calm (ba_variables api x)) \<and> (\<forall>x y z. calm (ba_evaluate api x y z)) \<and>
     (\<forall>x y. calm (ba_read_memory api x y)) \<and> (\<forall>x y. calm (ba_disassemble api x y))"

section \<open>The invariant\<close>

text \<open>
  Between two calls: the session is well-formed, a backend is connected exactly when the state is
  not idle, and no pump has a generation of the future, nor the current one when idle.
\<close>

definition pumps_below :: "('b, 'w) tool_server \<Rightarrow> bool" where
  "pumps_below s \<longleftrightarrow> (\<forall>(b, g) \<in> set (sv_pumps s). g < ss_generation (sv_session s))"

definition pumps_upto :: "('b, 'w) tool_server \<Rightarrow> bool" where
  "pumps_upto s \<longleftrightarrow> (\<forall>(b, g) \<in> set (sv_pumps s). g \<le> ss_generation (sv_session s))"

definition server_ok :: "('b, 'w) tool_server \<Rightarrow> bool" where
  "server_ok s \<longleftrightarrow>
     session_ok (sv_session s) \<and> pumps_upto s \<and>
     (if ss_state (sv_session s) = Idle then sv_backend s = None \<and> pumps_below s else sv_backend s \<noteq> None)"

lemma server_ok_new [simp]: "server_ok (tool_server_new session_new w)"
  by (simp add: server_ok_def tool_server_new_def pumps_upto_def pumps_below_def)
    (simp add: session_new_def)

lemma pumps_below_upto: "pumps_below s \<Longrightarrow> pumps_upto s"
  by (auto simp: pumps_below_def pumps_upto_def)

text \<open>Two servers that differ in the session's contents and the world only.\<close>

definition same_frame :: "('b, 'w) tool_server \<Rightarrow> ('b, 'w) tool_server \<Rightarrow> bool" where
  "same_frame s t \<longleftrightarrow>
     sv_backend t = sv_backend s \<and> sv_pumps t = sv_pumps s \<and>
     ss_generation (sv_session t) = ss_generation (sv_session s)"

lemma same_frame_refl [simp]: "same_frame s s"
  by (simp add: same_frame_def)

lemma same_frame_trans: "same_frame s t \<Longrightarrow> same_frame t u \<Longrightarrow> same_frame s u"
  by (simp add: same_frame_def)

lemma same_frame_pumps: "same_frame s t \<Longrightarrow> pumps_below t = pumps_below s \<and> pumps_upto t = pumps_upto s"
  by (simp add: same_frame_def pumps_below_def pumps_upto_def)

lemma pump_event_facts:
  "ss_generation (pump_event g e s) = ss_generation s"
  "ss_state (pump_event g e s) = ss_state s \<or> ss_state (pump_event g e s) = STerminated"
  "g \<noteq> ss_generation s \<Longrightarrow> ss_state (pump_event g e s) = ss_state s"
  by (auto simp: pump_event_def append_output_def terminate_if_generation_def Let_def
      split: backend_event.split option.split)

lemma meanwhile_facts:
  assumes "meanwhile s t"
  shows "same_frame s t \<and> (session_ok (sv_session s) \<longrightarrow> session_ok (sv_session t)) \<and>
    (ss_state (sv_session t) = ss_state (sv_session s) \<or>
     ss_state (sv_session t) = STerminated \<and> \<not> pumps_below s)"
  using assms
proof (induction rule: meanwhile.induct)
  case (nothing s)
  then show ?case by simp
next
  case (outside s t w)
  then show ?case by (simp add: same_frame_def)
next
  case (pumped s t b g e)
  then have "g \<noteq> ss_generation (sv_session t)" if "pumps_below s"
    using that by (auto simp: same_frame_def pumps_below_def)
  with pumped pump_event_facts(2) [of g e "sv_session t"] pump_event_facts(3) [of g "sv_session t" e] show ?case
    by (auto simp: same_frame_def pump_event_facts(1))
qed

lemma meanwhile_trans: "meanwhile t u \<Longrightarrow> meanwhile s t \<Longrightarrow> meanwhile s u"
  by (induction rule: meanwhile.induct) (auto intro: meanwhile.intros)

section \<open>Handlers that do not drive the program\<close>

text \<open>
  \<open>inspects s t\<close>: the invariant is kept, and the state is the old one or has become terminated.
\<close>

definition inspects :: "('b, 'w) tool_server \<Rightarrow> ('b, 'w) tool_server \<Rightarrow> bool" where
  "inspects s t \<longleftrightarrow>
     (server_ok s \<longrightarrow>
        server_ok t \<and> same_frame s t \<and>
        (ss_state (sv_session t) = ss_state (sv_session s) \<or>
         ss_state (sv_session t) = STerminated \<and> ss_state (sv_session s) \<noteq> Idle))"

lemma inspects_refl [simp]: "inspects s s"
  by (simp add: inspects_def)

lemma inspects_trans: "inspects s t \<Longrightarrow> inspects t u \<Longrightarrow> inspects s u"
  unfolding inspects_def by (metis same_frame_trans)

lemma meanwhile_inspects: "meanwhile s t \<Longrightarrow> inspects s t"
proof -
  assume m: "meanwhile s t"
  have "server_ok t \<and> same_frame s t \<and>
        (ss_state (sv_session t) = ss_state (sv_session s) \<or>
         ss_state (sv_session t) = STerminated \<and> ss_state (sv_session s) \<noteq> Idle)" if ok: "server_ok s"
    using meanwhile_facts [OF m] same_frame_pumps [of s t] ok
    by (auto simp: server_ok_def same_frame_def split: if_splits)
  then show ?thesis by (simp add: inspects_def)
qed

abbreviation tame :: "('b, 'w, 'a) task \<Rightarrow> bool" where
  "tame \<equiv> kept inspects"

named_theorems tame_rules \<open>computations that keep the invariant and the state\<close>

interpretation inspecting: step_relation inspects
  by unfold_locales (auto intro: inspects_trans)

lemmas [tame_rules] =
  inspecting.kept_seq inspecting.kept_ret inspecting.kept_read inspecting.kept_backend inspecting.kept_guarded
  inspecting.kept_arg inspecting.kept_call inspecting.kept_with_backend inspecting.kept_try inspecting.kept_with_err
  inspecting.kept_flatten_variables

lemma tame_calm: "calm p \<Longrightarrow> tame p"
  by (auto simp: kept_def calm_def dest: meanwhile_inspects)

text \<open>Writes to the session other than to its state and generation.\<close>

definition plain_write :: "(session \<Rightarrow> session) \<Rightarrow> bool" where
  "plain_write f \<longleftrightarrow>
     (\<forall>s. ss_state (f s) = ss_state s \<and> ss_generation (f s) = ss_generation s \<and> (session_ok s \<longrightarrow> session_ok (f s)))"

lemma plain_writes:
  "plain_write (add_pending_source_breakpoint f l c)" "plain_write (add_pending_function_breakpoint n c)"
  "plain_write (add_breakpoint_response info)" "hm_ok m \<Longrightarrow> plain_write (set_frame_mapping m)"
  "plain_write (\<lambda>s. snd (add_source_breakpoint f l c s))" "plain_write (\<lambda>s. snd (add_function_breakpoint n c s))"
  "plain_write (\<lambda>s. snd (drain_output s))" "plain_write (set_last_stopped i)"
  by (simp_all add: plain_write_def)
    (simp_all add: session_defs drain_output_def Let_def split: prod.split)

lemma plain_write_remove: "plain_write (\<lambda>s. snd (remove_breakpoint_by_id bid s))"
  by (simp add: plain_write_def)
    (simp add: remove_breakpoint_by_id_def Let_def split: option.split)

lemma inspects_write:
  "ss_state s' = ss_state (sv_session s) \<Longrightarrow> ss_generation s' = ss_generation (sv_session s) \<Longrightarrow>
     (session_ok (sv_session s) \<Longrightarrow> session_ok s') \<Longrightarrow> inspects s (s\<lparr>sv_session := s'\<rparr>)"
  by (auto simp: inspects_def server_ok_def same_frame_def pumps_upto_def pumps_below_def)

lemma tame_modify [tame_rules]: "plain_write f \<Longrightarrow> tame (modify_session f)"
  by (auto simp: kept_def modify_session_def plain_write_def intro!: inspects_write)

lemma tame_step [tame_rules]: "plain_write (\<lambda>s. snd (f s)) \<Longrightarrow> tame (session_step f)"
proof -
  assume f: "plain_write (\<lambda>s. snd (f s))"
  have "inspects s (s\<lparr>sv_session := s'\<rparr>)" if "f (sv_session s) = (x, s')" for s x s'
    using f [unfolded plain_write_def, rule_format, of "sv_session s"] that by (auto intro!: inspects_write)
  then show ?thesis by (auto simp: kept_def session_step_def split: prod.splits)
qed

section \<open>Handlers that drive the program\<close>

text \<open>
  \<open>runs A s t\<close>: from a state in \<open>A\<close> the invariant, the backend and the generation are kept and the
  state stays in \<open>A\<close>, which contains the terminated state and not the idle one.
\<close>

definition runs :: "sess_state set \<Rightarrow> ('b, 'w) tool_server \<Rightarrow> ('b, 'w) tool_server \<Rightarrow> bool" where
  "runs A s t \<longleftrightarrow>
     (server_ok s \<and> ss_state (sv_session s) \<in> A \<longrightarrow>
        server_ok t \<and> same_frame s t \<and> ss_state (sv_session t) \<in> A)"

definition live_states :: "sess_state set" where
  "live_states = {SStopped, Running, STerminated}"

lemma live_members [simp]:
  "SStopped \<in> live_states" "Running \<in> live_states" "STerminated \<in> live_states" "Idle \<notin> live_states"
  "Configuring \<notin> live_states"
  by (simp_all add: live_states_def)

abbreviation lively :: "('b, 'w, 'a) task \<Rightarrow> bool" where
  "lively \<equiv> kept (runs live_states)"

named_theorems lively_rules \<open>computations that keep a live session live\<close>

lemma runs_refl [simp]: "runs A s s"
  by (simp add: runs_def)

lemma runs_trans: "runs A s t \<Longrightarrow> runs A t u \<Longrightarrow> runs A s u"
  unfolding runs_def by (metis same_frame_trans)

lemma inspects_runs: "inspects s t \<Longrightarrow> runs live_states s t"
  by (auto simp: inspects_def runs_def live_states_def)

lemma lively_tame: "tame p \<Longrightarrow> lively p"
  by (auto simp: kept_def intro: inspects_runs)

interpretation running: step_relation "runs A" for A
  by unfold_locales (auto intro: runs_trans)

lemmas [lively_rules] =
  running.kept_seq running.kept_ret running.kept_read running.kept_backend running.kept_guarded running.kept_arg
  running.kept_with_backend

lemma runs_write:
  "ss_state s' \<in> live_states \<Longrightarrow> ss_generation s' = ss_generation (sv_session s) \<Longrightarrow>
     (session_ok (sv_session s) \<Longrightarrow> session_ok s') \<Longrightarrow> runs live_states s (s\<lparr>sv_session := s'\<rparr>)"
  by (auto simp: runs_def server_ok_def same_frame_def pumps_upto_def live_states_def split: if_splits)

lemma lively_set_state [lively_rules]: "st \<in> live_states \<Longrightarrow> lively (modify_session (set_state st))"
  by (auto simp: kept_def modify_session_def session_ok_plain intro!: runs_write) (simp_all add: set_state_def)

lemma runs_guarded_write:
  assumes "st \<in> live_states"
  shows "runs live_states s (s\<lparr>sv_session := snd (set_state_if_generation g st (sv_session s))\<rparr>)"
    and "runs live_states s (s\<lparr>sv_session := snd (terminate_if_generation g code (sv_session s))\<rparr>)"
proof -
  show "runs live_states s (s\<lparr>sv_session := snd (set_state_if_generation g st (sv_session s))\<rparr>)"
  proof (cases "ss_generation (sv_session s) = g")
    case True
    with assms show ?thesis by (intro runs_write session_ok_plain) (auto simp: set_state_if_generation_def)
  qed (simp add: set_state_if_generation_def)
  show "runs live_states s (s\<lparr>sv_session := snd (terminate_if_generation g code (sv_session s))\<rparr>)"
  proof (cases "ss_generation (sv_session s) = g")
    case True
    then show ?thesis
      by (intro runs_write session_ok_plain)
        (auto simp: terminate_if_generation_def live_states_def Let_def split: option.split)
  qed (simp add: terminate_if_generation_def)
qed

lemma lively_guarded_writes [lively_rules]:
  "st \<in> live_states \<Longrightarrow> lively (session_step (set_state_if_generation g st))"
  "lively (session_step (terminate_if_generation g code))"
  using runs_guarded_write(2) [of Running, unfolded live_states_def, simplified, folded live_states_def]
  by (auto simp: kept_def session_step_def case_prod_beta runs_guarded_write(1))

lemma lively_select:
  "calm p \<Longrightarrow> (\<And>s t. ct s = Some t \<Longrightarrow> meanwhile s t) \<Longrightarrow> lively (select_cancel ct p)"
  by (intro running.kept_select lively_tame tame_calm) (auto intro!: inspects_runs meanwhile_inspects)

lemma lively_stop_result: "lively (handle_stop_result outcome g)"
proof -
  have w: "tame (session_step drain_output)" "tame (modify_session (if c then set_last_stopped i else (\<lambda>s. s)))" for c i
    by (auto intro!: tame_rules plain_writes simp: plain_write_def)
  show ?thesis
    unfolding handle_stop_result_def
    by (cases outcome) (auto intro!: lively_rules lively_tame [OF w(1)] lively_tame [OF w(2)])
qed

section \<open>Connecting\<close>

definition connecting :: "('b, 'w) tool_server \<Rightarrow> bool" where
  "connecting s \<longleftrightarrow>
     session_ok (sv_session s) \<and> ss_state (sv_session s) = Configuring \<and> sv_backend s = None \<and>
     pumps_below s \<and> ss_generation (sv_session s) \<noteq> - 1"

definition engaged :: "('b, 'w) tool_server \<Rightarrow> bool" where
  "engaged s \<longleftrightarrow>
     server_ok s \<and> ss_state (sv_session s) \<noteq> Idle \<and> ss_generation (sv_session s) \<noteq> - 1"

lemma connecting_meanwhile: "meanwhile s t \<Longrightarrow> connecting s \<Longrightarrow> connecting t"
  using meanwhile_facts [of s t] same_frame_pumps [of s t] by (auto simp: connecting_def same_frame_def)

lemma engaged_meanwhile: "meanwhile s t \<Longrightarrow> engaged s \<Longrightarrow> engaged t"
  using meanwhile_inspects [of s t] by (auto simp: engaged_def inspects_def same_frame_def)

lemma engaged_write:
  "engaged s \<Longrightarrow> session_ok s' \<Longrightarrow> ss_generation s' = ss_generation (sv_session s) \<Longrightarrow> ss_state s' \<noteq> Idle \<Longrightarrow>
     engaged (s\<lparr>sv_session := s'\<rparr>)"
  by (auto simp: engaged_def server_ok_def pumps_upto_def)

lemma less_next_generation: "g \<le> n \<Longrightarrow> n \<noteq> - 1 \<Longrightarrow> g < n + (1 :: u64)"
proof -
  assume g: "g \<le> n" and n: "n \<noteq> - 1"
  from n have "1 + n \<noteq> 0" by (metis add.commute eq_neg_iff_add_eq_0)
  then have "unat (1 + n) = Suc (unat n)" by (rule unatSuc)
  with g show "g < n + 1" by (simp add: word_less_nat_alt word_le_nat_alt add.commute)
qed

lemma reset_server_ok:
  assumes "session_ok (sv_session s)" "sv_backend s = None" "pumps_upto s" "ss_generation (sv_session s) \<noteq> - 1"
  shows "server_ok (s\<lparr>sv_session := reset (sv_session s)\<rparr>)"
  using assms less_next_generation
  by (auto simp: server_ok_def pumps_upto_def pumps_below_def intro!: less_imp_le)

lemma cleanup_idle:
  assumes "engaged s"
  shows "post (cleanup_after_cancel env) s (\<lambda>_ t. server_ok t \<and> ss_state (sv_session t) = Idle)"
proof -
  from assms obtain b where b: "sv_backend s = Some b" by (auto simp: engaged_def server_ok_def)
  have "server_ok (s\<lparr>sv_backend := None, sv_world := w, sv_session := reset (sv_session s)\<rparr>)" for w
    using assms reset_server_ok [of "s\<lparr>sv_backend := None, sv_world := w\<rparr>"]
    by (simp add: engaged_def server_ok_def pumps_upto_def)
  then show ?thesis
    using b by (simp add: cleanup_after_cancel_def post_def seq_def clear_backend_def modify_session_def)
qed

lemma post_guarded: "(\<And>e. Q (Error e) s) \<Longrightarrow> post p s Q \<Longrightarrow> post (guarded_by allowed p) s Q"
  by (auto simp: post_def guarded_by_def split: sum.splits)

lemma post_modify: "Q () (s\<lparr>sv_session := f (sv_session s)\<rparr>) \<Longrightarrow> post (modify_session f) s Q"
  by (simp add: post_def modify_session_def)

lemma post_step:
  "Q (fst (f (sv_session s))) (s\<lparr>sv_session := snd (f (sv_session s))\<rparr>) \<Longrightarrow> post (session_step f) s Q"
  by (cases "f (sv_session s)") (simp add: post_def session_step_def)

lemma post_read: "Q (f (sv_session s)) s \<Longrightarrow> post (read_session f) s Q"
  by (simp add: post_def read_session_def)

lemma written_fields [simp]:
  "ss_state (set_state st s) = st" "ss_generation (set_state st s) = ss_generation s"
  "ss_state (set_last_stopped info s) = ss_state s" "ss_generation (set_last_stopped info s) = ss_generation s"
  "ss_state (set_program p s) = ss_state s" "ss_generation (set_program p s) = ss_generation s"
  "ss_state (set_pid i s) = ss_state s" "ss_generation (set_pid i s) = ss_generation s"
  by (simp_all add: set_state_def set_last_stopped_def set_program_def set_pid_def)

lemma engaged_ok: "engaged s \<Longrightarrow> session_ok (sv_session s) \<and> ss_state (sv_session s) \<noteq> Idle"
  by (simp add: engaged_def server_ok_def)

lemma report_live:
  assumes "engaged s"
  shows "post (stopped_at_start status program pid info) s (\<lambda>_ t. server_ok t \<and> ss_state (sv_session t) = SStopped)"
    and "st \<noteq> Idle \<Longrightarrow> post (seq (modify_session (set_state st)) (\<lambda>_. ret out)) s
           (\<lambda>_ t. server_ok t \<and> ss_state (sv_session t) = st)"
proof -
  have w: "engaged (s\<lparr>sv_session := set_state st (sv_session s)\<rparr>)" if "st \<noteq> Idle" for st
    using assms that engaged_ok [OF assms] by (intro engaged_write) auto
  have "engaged (s\<lparr>sv_session := set_last_stopped info (set_state SStopped (sv_session s))\<rparr>)"
    using assms engaged_ok [OF assms] by (intro engaged_write) auto
  then show "post (stopped_at_start status program pid info) s (\<lambda>_ t. server_ok t \<and> ss_state (sv_session t) = SStopped)"
    unfolding stopped_at_start_def
    by (auto intro!: post_seq post_modify post_ret simp: engaged_def)
  show "st \<noteq> Idle \<Longrightarrow> post (seq (modify_session (set_state st)) (\<lambda>_. ret out)) s
           (\<lambda>_ t. server_ok t \<and> ss_state (sv_session t) = st)"
    using w by (auto intro!: post_seq post_modify post_ret simp: engaged_def)
qed

lemma engaged_named:
  assumes "engaged s"
  shows "engaged (s\<lparr>sv_session := set_program program (sv_session s)\<rparr>)"
    and "engaged (s\<lparr>sv_session := (case o_pid of Some pid \<Rightarrow> set_pid pid | None \<Rightarrow> (\<lambda>s. s)) (sv_session s)\<rparr>)"
  using assms engaged_ok [OF assms] by (auto intro!: engaged_write split: option.split)

lemma launch_report_live:
  assumes "engaged s"
  shows "post (launch_report program o_pid outcome) s (\<lambda>_ t. server_ok t \<and> ss_state (sv_session t) \<in> live_states)"
proof -
  note e = engaged_named(2) [OF engaged_named(1) [OF assms, of program], of o_pid]
  have k: "post (case outcome of
       LStopped info \<Rightarrow> stopped_at_start ''launched'' program pid info
     | LRunning \<Rightarrow> seq (modify_session (set_state Running)) (\<lambda>_. ret (into_outcome (started ''launched'' program pid ''running'')))
     | LExited _ \<Rightarrow> seq (modify_session (set_state STerminated)) (\<lambda>_. ret (Text ''Program exited during launch'')))
     t (\<lambda>_ t. server_ok t \<and> ss_state (sv_session t) \<in> live_states)" if "engaged t" for pid t
    by (cases outcome)
      (auto simp: live_states_def intro: post_mono [OF report_live(1) [OF that]] post_mono [OF report_live(2) [OF that]])
  show ?thesis
    unfolding launch_report_def by (intro post_seq post_modify post_read k e)
qed

lemma attach_report_live:
  assumes "engaged s"
  shows "post (attach_report label o_pid o_dbg outcome) s
    (\<lambda>_ t. server_ok t \<and> ss_state (sv_session t) \<in> live_states - {Running})"
proof -
  let ?f = "case o_pid of Some pid \<Rightarrow> set_pid pid
          | None \<Rightarrow> (case o_dbg of Some pid \<Rightarrow> set_pid pid | None \<Rightarrow> (\<lambda>s. s))"
  have e: "engaged (s\<lparr>sv_session := ?f (set_program label (sv_session s))\<rparr>)"
    using engaged_named(2) [OF engaged_named(1) [OF assms, of label], of "case o_pid of Some pid \<Rightarrow> Some pid | None \<Rightarrow> o_dbg"]
    by (auto split: option.splits)
  have k: "post (case outcome of
       AStopped info \<Rightarrow> stopped_at_start ''attached'' label pid info
     | _ \<Rightarrow> seq (modify_session (set_state STerminated)) (\<lambda>_. ret (Text ''Process exited during attach'')))
     t (\<lambda>_ t. server_ok t \<and> ss_state (sv_session t) \<in> live_states - {Running})" if "engaged t" for pid t
    by (cases outcome)
      (auto simp: live_states_def intro: post_mono [OF report_live(1) [OF that]] post_mono [OF report_live(2) [OF that]])
  show ?thesis
    unfolding attach_report_def using e by (intro post_seq post_modify post_read k) simp
qed

section \<open>The diagram\<close>

text \<open>
  The state changes a call may make: none, the end of the program, and those of the tool. They are
  the edges of the state diagram in \<^verbatim>\<open>README.md\<close>, with the intermediate states of a call left out.
\<close>

definition resume_names :: "string set" where
  "resume_names = {''continue'', ''step_over'', ''step_into'', ''step_out''}"

definition may_become :: "string \<Rightarrow> sess_state \<Rightarrow> sess_state \<Rightarrow> bool" where
  "may_become name st st' \<longleftrightarrow>
     st' = st \<or> st \<noteq> Idle \<and> st' = STerminated \<or>
     name = ''launch'' \<and> st = Idle \<and> st' \<in> {SStopped, Running, STerminated} \<or>
     name = ''attach'' \<and> st = Idle \<and> st' \<in> {SStopped, STerminated} \<or>
     name \<in> resume_names \<and> st = SStopped \<and> st' = Running \<or>
     name = ''disconnect'' \<and> st \<noteq> Idle \<and> st' = Idle"

lemma may_become_launch:
  "may_become ''launch'' st st' \<longleftrightarrow> st' = st \<or> st \<noteq> Idle \<and> st' = STerminated \<or> st = Idle \<and> st' \<in> live_states"
  "may_become ''attach'' st st' \<longleftrightarrow>
     st' = st \<or> st \<noteq> Idle \<and> st' = STerminated \<or> st = Idle \<and> st' \<in> live_states - {Running}"
  by (auto simp: may_become_def live_states_def resume_names_def)

lemma may_become_disconnect:
  "may_become ''disconnect'' st st' \<longleftrightarrow> st' = st \<or> st \<noteq> Idle \<and> st' = STerminated \<or> st \<noteq> Idle \<and> st' = Idle"
  by (auto simp: may_become_def resume_names_def)

section \<open>The server of a sequential client\<close>

locale calm_server =
  fixes env :: "('b, 'w) tool_env"
    and ct :: "('b, 'w) cancel"
  assumes calm_calls: "calm_api (env_api env b)"
    and calm_connect: "calm (env_connect env)"
    and calm_timer: "env_timer env s = Some t \<Longrightarrow> meanwhile s t"
    and calm_drop: "meanwhile s (env_drop_wait env s)"
    and calm_cancel: "ct s = Some t \<Longrightarrow> meanwhile s t"
begin

lemma tame_calls [tame_rules]:
  "tame (ba_set_source_breakpoints (env_api env b) file bps)"
  "tame (ba_set_function_breakpoints (env_api env b) fbps)"
  "tame (ba_pause (env_api env b))" "tame (ba_threads (env_api env b))"
  "tame (ba_stack_trace (env_api env b) i j k)" "tame (ba_scopes (env_api env b) i)"
  "tame (ba_variables (env_api env b) i)" "tame (ba_evaluate (env_api env b) e oi m)"
  "tame (ba_read_memory (env_api env b) adr i)" "tame (ba_disassemble (env_api env b) adr i)"
  using calm_calls [of b] by (simp_all add: calm_api_def tame_calm)

lemma tame_resolve [tame_rules]: "tame (resolve_frame_id (env_api env b) i)"
  unfolding resolve_frame_id_def
  by (auto intro!: tame_rules plain_writes simp: Let_def split: option.split)

lemma tame_inspection:
  "tame handle_status" "tame (handle_backtrace env a)" "tame (handle_threads env)"
  "tame (handle_variables env a)" "tame (handle_evaluate env a)" "tame (handle_run_command env a)"
  unfolding handle_status_def handle_backtrace_def handle_threads_def handle_variables_def
    handle_evaluate_def handle_run_command_def Let_def
  by (auto intro!: tame_rules plain_writes split: option.split)

lemma tame_memory: "tame (handle_read_memory env a)" "tame (handle_disassemble env a)"
  unfolding handle_read_memory_def handle_disassemble_def disassemble_from_def Let_def
  by (auto intro!: tame_rules split: option.split)

lemma tame_breakpoints:
  "tame (handle_set_breakpoint env a)" "tame (handle_set_function_breakpoint env a)"
  "tame (handle_remove_breakpoint env a)" "tame (handle_list_breakpoints env)"
  unfolding handle_set_breakpoint_def handle_set_function_breakpoint_def handle_remove_breakpoint_def
    send_remaining_def handle_list_breakpoints_def Let_def
  by (auto intro!: tame_rules plain_writes plain_write_remove split: option.split sum.split)

lemma tame_others: "tame (handle_pause env)" "tame handle_read_output"
  unfolding handle_pause_def handle_read_output_def by (auto intro!: tame_rules plain_writes)

lemma resume_live:
  assumes "resume_tool env r oe msg a ct s = Some (out, t)"
  shows "inspects s t \<or> runs live_states s t \<and> ss_state (sv_session s) = SStopped"
proof (cases "ss_state (sv_session s) = SStopped")
  case True
  have calm: "calm (run_backend (env_api env b) r tid gran)" for b tid gran
    using calm_calls [of b] by (cases r) (auto simp: run_backend_def calm_api_def)
  have "lively (resume_tool env r oe msg a ct)"
    unfolding resume_tool_def arg_or_def with_backend_def Let_def
    by (auto intro!: lively_rules lively_select calm calm_cancel lively_stop_result split: sum.split option.split)
  with assms True show ?thesis by (auto simp: kept_def)
next
  case False
  then have "t = s" using assms guarded_by_fail [of s "[SStopped]"] by (simp add: resume_tool_def)
  then show ?thesis by simp
qed

text \<open>Connecting, shaking hands and reporting.\<close>

lemma connected_post:
  assumes c: "connecting s"
    and k: "\<And>b t. engaged t \<Longrightarrow> post (k b) t Q"
    and q: "\<And>out t. server_ok t \<Longrightarrow> ss_state (sv_session t) = Idle \<Longrightarrow> Q out t"
  shows "post (connected env k) s Q"
proof -
  have c': "connecting t" if "env_connect env s = Some (r, t)" for r t
    using calm_connect that c by (auto simp: calm_def intro: connecting_meanwhile)
  have "post (case r of
         Inl e \<Rightarrow> seq (modify_session reset) (\<lambda>_. seq (clear_backend env) (\<lambda>_. ret (Error (connect_error e))))
       | Inr b \<Rightarrow> seq (set_backend b) (\<lambda>_. seq (spawn_event_pump b) (\<lambda>_. k b))) t Q"
    if t: "connecting t" for r t
  proof (cases r)
    case (Inl e)
    have "server_ok (t\<lparr>sv_session := reset (sv_session t)\<rparr>)"
      using t by (intro reset_server_ok) (auto simp: connecting_def pumps_below_upto)
    then show ?thesis
      using t q by (simp add: Inl post_def seq_def modify_session_def clear_backend_def ret_def connecting_def)
  next
    case (Inr b)
    let ?t = "t\<lparr>sv_backend := Some b, sv_pumps := sv_pumps t @ [(b, ss_generation (sv_session t))]\<rparr>"
    have "engaged ?t"
      using t by (auto simp: connecting_def engaged_def server_ok_def pumps_below_def pumps_upto_def)
    from k [OF this, of b] show ?thesis
      by (simp add: Inr post_def seq_def set_backend_def spawn_event_pump_def)
  qed
  with c' show ?thesis unfolding connected_def by (intro post_seq) (auto simp: post_def)
qed

lemma handshake_post:
  assumes e: "engaged s" and p: "calm p"
    and k: "\<And>outcome t. engaged t \<Longrightarrow> post (k outcome) t Q"
    and q: "\<And>out t. server_ok t \<Longrightarrow> ss_state (sv_session t) = Idle \<Longrightarrow> Q out t"
  shows "post (handshake env ct msg p k) s Q"
proof -
  have "engaged t" if "select_cancel ct p s = Some (r, t)" for r t
  proof -
    have "meanwhile s t"
      using that p calm_cancel unfolding select_cancel_def calm_def by (auto split: option.splits)
    from engaged_meanwhile [OF this e] show ?thesis .
  qed
  moreover have "post (case r of
         None \<Rightarrow> seq (cleanup_after_cancel env) (\<lambda>_. ret (Error msg))
       | Some (Inl e) \<Rightarrow> seq (cleanup_after_cancel env) (\<lambda>_. ret (Error (handshake_error e)))
       | Some (Inr outcome) \<Rightarrow> k outcome) t Q" if t: "engaged t" for r t
  proof -
    have "post (seq (cleanup_after_cancel env) (\<lambda>_. ret out)) t Q" for out
      using cleanup_idle [OF t] q unfolding post_def seq_def ret_def by (auto split: option.splits)
    with k [OF t] show ?thesis by (auto split: option.split sum.split)
  qed
  ultimately show ?thesis unfolding handshake_def by (intro post_seq) (auto simp: post_def)
qed

lemma launch_post:
  assumes "server_ok s" "ss_generation (sv_session s) \<noteq> - 1"
  shows "post (handle_launch env a ct) s (\<lambda>_ t. server_ok t \<and>
    (ss_state (sv_session t) = ss_state (sv_session s) \<or>
     ss_state (sv_session s) = Idle \<and> ss_state (sv_session t) \<in> live_states))"
proof (cases "ss_state (sv_session s) = Idle")
  case True
  have calm: "calm (ba_launch (env_api env b) spec)" for b spec
    using calm_calls [of b] by (simp add: calm_api_def)
  have c: "connecting (s\<lparr>sv_session := snd (flush_pending_breakpoints (set_state Configuring (sv_session s)))\<rparr>)"
    using assms True
    by (auto simp: connecting_def server_ok_def pumps_below_def)
      (auto simp: flush_pending_breakpoints_def set_state_def Let_def)
  show ?thesis
    unfolding handle_launch_def arg_or_def Let_def
    by (rule post_guarded)
      (auto intro!: post_ret post_seq post_modify post_step connected_post [OF c, simplified] handshake_post calm
        post_mono [OF launch_report_live] assms simp: True split: sum.split prod.split)
next
  case False
  with assms show ?thesis
    unfolding handle_launch_def by (simp add: post_def guarded_by_fail)
qed

lemma attach_post:
  assumes "server_ok s" "ss_generation (sv_session s) \<noteq> - 1"
  shows "post (handle_attach env a ct) s (\<lambda>_ t. server_ok t \<and>
    (ss_state (sv_session t) = ss_state (sv_session s) \<or>
     ss_state (sv_session s) = Idle \<and> ss_state (sv_session t) \<in> live_states - {Running}))"
proof (cases "ss_state (sv_session s) = Idle")
  case True
  have calm: "calm (ba_attach (env_api env b) spec)" for b spec
    using calm_calls [of b] by (simp add: calm_api_def)
  have c: "connecting (s\<lparr>sv_session := set_state Configuring (sv_session s)\<rparr>)"
    using assms True by (auto simp: connecting_def server_ok_def pumps_below_def)
  show ?thesis
    unfolding handle_attach_def arg_or_def Let_def
    by (rule post_guarded)
      (auto intro!: post_ret post_seq post_modify connected_post [OF c] handshake_post calm
        post_mono [OF attach_report_live] assms simp: True split: sum.split prod.split)
next
  case False
  with assms show ?thesis
    unfolding handle_attach_def by (simp add: post_def guarded_by_fail)
qed

text \<open>A disconnect with a session always ends idle, without a backend.\<close>

lemma disconnect_post:
  assumes "server_ok s" "ss_generation (sv_session s) \<noteq> - 1"
  shows "post (handle_disconnect env a) s (\<lambda>out t. server_ok t \<and> ss_state (sv_session t) = Idle \<and>
    (ss_state (sv_session s) \<noteq> Idle \<longrightarrow>
       out = into_outcome (resp_set ''status'' (JStr ''disconnected'') resp_new) \<and> sv_backend t = None))"
proof (cases "ss_state (sv_session s) = Idle")
  case True
  with assms show ?thesis
    unfolding handle_disconnect_def by (simp add: post_def guarded_by_fail)
next
  case False
  with assms have e: "engaged s" by (simp add: engaged_def)
  have calm: "calm (ba_disconnect (env_api env b) x)" for b x
    using calm_calls [of b] by (simp add: calm_api_def)
  have best: "engaged t" if "best_effort_disconnect env x s = Some ((), t)" for x t
  proof -
    have "meanwhile s t"
      using that calm calm_timer unfolding best_effort_disconnect_def seq_def current_backend_def select_cancel_def calm_def
      by (auto simp: ret_def intro: meanwhile.nothing split: option.splits)
    from engaged_meanwhile [OF this e] show ?thesis .
  qed
  have drop: "post (drop_backend_bounded env) t (\<lambda>_ u. server_ok (u\<lparr>sv_session := reset (sv_session u)\<rparr>) \<and> sv_backend u = None)"
    if t: "engaged t" for t
  proof -
    from t obtain b where b: "sv_backend t = Some b" by (auto simp: engaged_def server_ok_def)
    let ?u = "t\<lparr>sv_backend := None, sv_world := env_release env b (sv_world t)\<rparr>"
    have "meanwhile ?u (env_drop_wait env ?u)" by (rule calm_drop)
    from meanwhile_facts [OF this] same_frame_pumps [of ?u "env_drop_wait env ?u"]
    have "session_ok (sv_session (env_drop_wait env ?u))" "sv_backend (env_drop_wait env ?u) = None"
      "pumps_upto (env_drop_wait env ?u)" "ss_generation (sv_session (env_drop_wait env ?u)) \<noteq> - 1"
      using t by (auto simp: engaged_def server_ok_def same_frame_def pumps_upto_def)
    then show ?thesis using reset_server_ok b by (simp add: post_def drop_backend_bounded_def)
  qed
  have b: "post (best_effort_disconnect env x) s (\<lambda>_ t. engaged t)" for x
    using best by (simp add: post_def)
  have tl: "post (seq (drop_backend_bounded env) (\<lambda>_. seq (modify_session reset) (\<lambda>_. ret out))) t
      (\<lambda>x u. server_ok u \<and> ss_state (sv_session u) = Idle \<and> x = out \<and> sv_backend u = None)" if "engaged t" for out t
    by (intro post_seq post_mono [OF drop [OF that]]) (auto intro!: post_seq post_modify post_ret)
  let ?out = "into_outcome (resp_set ''status'' (JStr ''disconnected'') resp_new)"
  let ?p = "seq (best_effort_disconnect env (get_bool a ''terminate'' True)) (\<lambda>_. seq (drop_backend_bounded env)
      (\<lambda>_. seq (modify_session reset) (\<lambda>_. ret ?out)))"
  have p: "post ?p s (\<lambda>x u. server_ok u \<and> ss_state (sv_session u) = Idle \<and> x = ?out \<and> sv_backend u = None)"
    by (rule post_seq, rule post_mono [OF b], rule tl)
  have in_set: "ss_state (sv_session s) \<in> set [Configuring, SStopped, Running, STerminated]"
    using False by (cases "ss_state (sv_session s)") auto
  have "handle_disconnect env a s = ?p s"
    unfolding handle_disconnect_def Let_def guarded_by_pass [OF in_set] ..
  with p show ?thesis by (simp add: post_def)
qed

text \<open>Every tool moves the state along the diagram.\<close>

lemma dispatch_step:
  assumes ok: "server_ok s" "ss_generation (sv_session s) \<noteq> - 1"
    and d: "dispatch env name a ct s = Some (out, t)"
  shows "server_ok t \<and> may_become name (ss_state (sv_session s)) (ss_state (sv_session t))"
proof -
  define G where "G n \<longleftrightarrow> server_ok t \<and> may_become n (ss_state (sv_session s)) (ss_state (sv_session t))" for n
  have insp: "G n" if "tame p" "p s = Some (out, t)" for n p
    using that ok(1) unfolding kept_def inspects_def may_become_def G_def by blast
  have res: "G n" if "resume_tool env r oe msg a ct s = Some (out, t)" "n \<in> resume_names" for n r oe msg
    using resume_live [OF that(1)] that(2) ok(1)
    by (auto simp: G_def may_become_def inspects_def runs_def live_states_def)
  have life: "handle_launch env a ct s = Some (out, t) \<Longrightarrow> G ''launch''"
    "handle_attach env a ct s = Some (out, t) \<Longrightarrow> G ''attach''"
    "handle_disconnect env a s = Some (out, t) \<Longrightarrow> G ''disconnect''"
    subgoal using postD [OF launch_post [OF ok]] unfolding G_def may_become_launch by blast
    subgoal using postD [OF attach_post [OF ok]] unfolding G_def may_become_launch by blast
    subgoal by (drule postD [OF disconnect_post [OF ok]]) (auto simp: G_def may_become_disconnect)
    done
  have "G name"
    using d unfolding dispatch_def
    by (elim ite_elim)
      (simp_all add: life insp [OF inspecting.kept_ret] insp [OF tame_inspection(1)] insp [OF tame_inspection(2)]
        insp [OF tame_inspection(3)] insp [OF tame_inspection(4)] insp [OF tame_inspection(5)]
        insp [OF tame_inspection(6)] insp [OF tame_memory(1)] insp [OF tame_memory(2)]
        insp [OF tame_breakpoints(1)] insp [OF tame_breakpoints(2)] insp [OF tame_breakpoints(3)]
        insp [OF tame_breakpoints(4)] insp [OF tame_others(1)] insp [OF tame_others(2)]
        res resume_names_def handle_continue_def handle_step_over_def handle_step_into_def handle_step_out_def)
  then show ?thesis by (simp add: G_def)
qed

end

end
