(* ===== verification/Concurrent_Calls.thy ===== *)
theory Concurrent_Calls
  imports Server_Laws
begin

text \<open>
  Tool calls that overlap. A client may send a call before the last one is answered; while a handler
  awaits the debugger, any part of any other handler may run, and so may the event pumps. All of
  them act on the shared server by single locked operations. The relation \<open>interferes\<close> is any sequence
  of such operations; a handler whose awaits only show interference is itself interference, so the
  handlers may be mixed without end. What every single operation keeps holds under any mixture.
\<close>

section \<open>Single operations\<close>

text \<open>The write operations of the session manager other than \<^verbatim>\<open>reset\<close>.\<close>

inductive locked_write :: "(session \<Rightarrow> session) \<Rightarrow> bool" where
  "locked_write (\<lambda>s. s)"
| "locked_write (set_state st)"
| "locked_write (\<lambda>s. snd (set_state_if_generation g st s))"
| "locked_write (\<lambda>s. snd (terminate_if_generation g code s))"
| "locked_write (set_program p)"
| "locked_write (set_pid i)"
| "locked_write (set_last_stopped info)"
| "hm_ok m \<Longrightarrow> locked_write (set_frame_mapping m)"
| "locked_write (\<lambda>s. snd (drain_output s))"
| "locked_write (\<lambda>s. snd (flush_pending_breakpoints s))"
| "locked_write (\<lambda>s. snd (add_source_breakpoint file ln c s))"
| "locked_write (\<lambda>s. snd (add_function_breakpoint name c s))"
| "locked_write (add_breakpoint_response bp)"
| "locked_write (\<lambda>s. snd (remove_breakpoint_by_id bid s))"
| "locked_write (add_pending_source_breakpoint file ln c)"
| "locked_write (add_pending_function_breakpoint name c)"

text \<open>The operations on the server; \<open>n\<close> counts the resets among them.\<close>

inductive interferes_in :: "nat \<Rightarrow> ('b, 'w) tool_server \<Rightarrow> ('b, 'w) tool_server \<Rightarrow> bool" where
  nothing: "interferes_in 0 s s"
| written: "interferes_in n s t \<Longrightarrow> locked_write f \<Longrightarrow> interferes_in n s (t\<lparr>sv_session := f (sv_session t)\<rparr>)"
| reset_too: "interferes_in n s t \<Longrightarrow> interferes_in (Suc n) s (t\<lparr>sv_session := reset (sv_session t)\<rparr>)"
| pumped: "interferes_in n s t \<Longrightarrow> (b, g) \<in> set (sv_pumps t) \<Longrightarrow>
     interferes_in n s (t\<lparr>sv_session := pump_event g e (sv_session t)\<rparr>)"
| outside: "interferes_in n s t \<Longrightarrow> interferes_in n s (t\<lparr>sv_world := w\<rparr>)"
| held: "interferes_in n s t \<Longrightarrow> interferes_in n s (t\<lparr>sv_backend := ob\<rparr>)"
| spawned: "interferes_in n s t \<Longrightarrow>
     interferes_in n s (t\<lparr>sv_pumps := sv_pumps t @ [(b, ss_generation (sv_session t))]\<rparr>)"

definition interferes :: "('b, 'w) tool_server \<Rightarrow> ('b, 'w) tool_server \<Rightarrow> bool" where
  "interferes s t \<longleftrightarrow> (\<exists>n. interferes_in n s t)"

lemma interferes_append: "interferes_in m t u \<Longrightarrow> interferes_in n s t \<Longrightarrow> interferes_in (n + m) s u"
proof (induction rule: interferes_in.induct)
  case (reset_too m s' t')
  then show ?case using interferes_in.reset_too by fastforce
qed (auto intro: interferes_in.intros)

lemma interferes_refl: "interferes s s"
  unfolding interferes_def by (blast intro: interferes_in.nothing)

lemma interferes_trans: "interferes s t \<Longrightarrow> interferes t u \<Longrightarrow> interferes s u"
  unfolding interferes_def by (blast intro: interferes_append)

interpretation meddling: step_relation interferes
  by unfold_locales (blast intro: interferes_refl interferes_trans)+

lemma interferes_write: "locked_write f \<Longrightarrow> interferes s (s\<lparr>sv_session := f (sv_session s)\<rparr>)"
  unfolding interferes_def by (blast intro: interferes_in.written interferes_in.nothing)

lemma interferes_reset: "interferes s (s\<lparr>sv_session := reset (sv_session s)\<rparr>)"
  unfolding interferes_def by (blast intro: interferes_in.reset_too interferes_in.nothing)

lemma interferes_backend: "interferes s (s\<lparr>sv_backend := ob\<rparr>)"
  unfolding interferes_def by (blast intro: interferes_in.held interferes_in.nothing)

lemma interferes_release: "interferes s (s\<lparr>sv_backend := ob, sv_world := w\<rparr>)"
  unfolding interferes_def by (blast intro: interferes_in.held interferes_in.outside interferes_in.nothing)

lemma interferes_spawn: "interferes s (s\<lparr>sv_pumps := sv_pumps s @ [(b, ss_generation (sv_session s))]\<rparr>)"
  unfolding interferes_def by (blast intro: interferes_in.spawned interferes_in.nothing)

section \<open>Handlers that only interfere\<close>

abbreviation meddles :: "('b, 'w, 'a) task \<Rightarrow> bool" where
  "meddles \<equiv> kept interferes"

named_theorems meddle_rules \<open>computations made of single operations\<close>

lemmas [meddle_rules] =
  meddling.kept_seq meddling.kept_ret meddling.kept_read meddling.kept_backend meddling.kept_guarded
  meddling.kept_arg meddling.kept_call meddling.kept_with_backend meddling.kept_try meddling.kept_with_err
  meddling.kept_flatten_variables

lemma meddle_modify [meddle_rules]: "locked_write f \<Longrightarrow> meddles (modify_session f)" "meddles (modify_session reset)"
  by (auto intro!: meddling.kept_modify interferes_write interferes_reset)

lemma meddle_step [meddle_rules]: "locked_write (\<lambda>s. snd (f s)) \<Longrightarrow> meddles (session_step f)"
  by (rule meddling.kept_step) (drule interferes_write)

lemma meddle_backend [meddle_rules]: "meddles (set_backend b)" "meddles (clear_backend env)" "meddles (spawn_event_pump b)"
  by (auto simp: kept_def set_backend_def clear_backend_def spawn_event_pump_def
      intro: interferes_refl interferes_backend interferes_release interferes_spawn split: option.splits)

text \<open>
  The surroundings of overlapping calls: every awaited call, the connection, the timers and the
  client's cancellation may show any interference.
\<close>

definition meddling_api :: "('b, 'w) backend_api \<Rightarrow> bool" where
  "meddling_api api \<longleftrightarrow>
     (\<forall>x. meddles (ba_launch api x)) \<and> (\<forall>x. meddles (ba_attach api x)) \<and> (\<forall>x. meddles (ba_disconnect api x)) \<and>
     (\<forall>x y. meddles (ba_set_source_breakpoints api x y)) \<and> (\<forall>x. meddles (ba_set_function_breakpoints api x)) \<and>
     (\<forall>x. meddles (ba_cont api x)) \<and> (\<forall>x y z. meddles (ba_step api x y z)) \<and> meddles (ba_pause api) \<and>
     meddles (ba_threads api) \<and> (\<forall>x y z. meddles (ba_stack_trace api x y z)) \<and> (\<forall>x. meddles (ba_scopes api x)) \<and>
     (\<forall>x. meddles (ba_variables api x)) \<and> (\<forall>x y z. meddles (ba_evaluate api x y z)) \<and>
     (\<forall>x y. meddles (ba_read_memory api x y)) \<and> (\<forall>x y. meddles (ba_disassemble api x y))"

definition overlapping :: "('b, 'w) tool_env \<Rightarrow> ('b, 'w) cancel \<Rightarrow> bool" where
  "overlapping env ct \<longleftrightarrow>
     (\<forall>b. meddling_api (env_api env b)) \<and> meddles (env_connect env) \<and>
     (\<forall>s t. env_timer env s = Some t \<longrightarrow> interferes s t) \<and> (\<forall>s. interferes s (env_drop_wait env s)) \<and>
     (\<forall>s t. ct s = Some t \<longrightarrow> interferes s t)"

lemma meddle_calls:
  assumes "overlapping env ct"
  shows "meddles (ba_launch (env_api env b) spec)" "meddles (ba_attach (env_api env b) aspec)"
    "meddles (ba_disconnect (env_api env b) x)"
    "meddles (ba_set_source_breakpoints (env_api env b) file bps)"
    "meddles (ba_set_function_breakpoints (env_api env b) fbps)"
    "meddles (run_backend (env_api env b) r tid gran)"
    "meddles (ba_pause (env_api env b))" "meddles (ba_threads (env_api env b))"
    "meddles (ba_stack_trace (env_api env b) i j k)" "meddles (ba_scopes (env_api env b) i)"
    "meddles (ba_variables (env_api env b) i)" "meddles (ba_evaluate (env_api env b) e oi m)"
    "meddles (ba_read_memory (env_api env b) adr i)" "meddles (ba_disassemble (env_api env b) adr i)"
    "meddles (env_connect env)"
  using assms by (auto simp: overlapping_def meddling_api_def run_backend_def split: resume.split)

lemma meddle_select:
  "overlapping env ct \<Longrightarrow> meddles p \<Longrightarrow> meddles (select_cancel ct p)"
  "overlapping env ct \<Longrightarrow> meddles p \<Longrightarrow> meddles (select_cancel (env_timer env) p)"
  by (intro meddling.kept_select; simp add: overlapping_def)+

lemma meddle_resolve: "overlapping env ct \<Longrightarrow> meddles (resolve_frame_id (env_api env b) i)"
  unfolding resolve_frame_id_def Let_def
  by (auto intro!: meddle_rules meddle_calls locked_write.intros split: option.split)

lemma meddle_inspection:
  assumes ov: "overlapping env ct"
  shows "meddles handle_status" "meddles (handle_backtrace env a)" "meddles (handle_threads env)"
    "meddles (handle_variables env a)" "meddles (handle_evaluate env a)" "meddles (handle_run_command env a)"
    "meddles (handle_read_memory env a)" "meddles (handle_disassemble env a)"
  unfolding handle_status_def handle_backtrace_def handle_threads_def handle_variables_def handle_evaluate_def
    handle_run_command_def handle_read_memory_def handle_disassemble_def disassemble_from_def Let_def
  by (auto intro!: meddle_rules meddle_calls [OF ov] meddle_resolve [OF ov] locked_write.intros split: option.split)

lemma meddle_breakpoints:
  assumes ov: "overlapping env ct"
  shows "meddles (handle_set_breakpoint env a)" "meddles (handle_set_function_breakpoint env a)"
    "meddles (handle_remove_breakpoint env a)" "meddles (handle_list_breakpoints env)"
  unfolding handle_set_breakpoint_def handle_set_function_breakpoint_def handle_remove_breakpoint_def
    send_remaining_def handle_list_breakpoints_def Let_def
  by (auto intro!: meddle_rules meddle_calls [OF ov] locked_write.intros split: option.split sum.split)

lemma meddle_stop_result: "meddles (handle_stop_result outcome g)"
  unfolding handle_stop_result_def
  by (cases outcome) (auto intro!: meddle_rules locked_write.intros)

lemma meddle_execution:
  assumes ov: "overlapping env ct"
  shows "meddles (resume_tool env r oe msg a ct)" "meddles (handle_pause env)" "meddles handle_read_output"
  unfolding resume_tool_def handle_pause_def handle_read_output_def Let_def
  by (auto intro!: meddle_rules meddle_calls [OF ov] meddle_select [OF ov] meddle_stop_result locked_write.intros
      split: option.split sum.split)

lemma meddle_reports:
  "meddles (launch_report program o_pid o1)" "meddles (attach_report label o_pid2 o_dbg o2)"
  unfolding launch_report_def attach_report_def stopped_at_start_def
  by (auto intro!: meddle_rules locked_write.intros split: option.split launch_outcome.split attach_outcome.split)

lemma meddle_connecting:
  assumes ov: "overlapping env ct"
  shows "(\<And>b. meddles (k b)) \<Longrightarrow> meddles (connected env k)"
    and "meddles p \<Longrightarrow> (\<And>x. meddles (h x)) \<Longrightarrow> meddles (handshake env ct msg p h)"
  unfolding connected_def handshake_def cleanup_after_cancel_def
  by (auto intro!: meddle_rules meddle_calls [OF ov] meddle_select [OF ov] split: option.split sum.split)

lemma meddle_drop: "overlapping env ct \<Longrightarrow> meddles (drop_backend_bounded env)"
  unfolding kept_def drop_backend_bounded_def overlapping_def
  by (auto intro: interferes_refl interferes_trans [OF interferes_release] split: option.splits)

lemma meddle_lifecycle:
  assumes ov: "overlapping env ct"
  shows "meddles (handle_launch env a ct)" "meddles (handle_attach env a ct)" "meddles (handle_disconnect env a)"
  unfolding handle_launch_def handle_attach_def handle_disconnect_def best_effort_disconnect_def Let_def
  by (auto intro!: meddle_rules meddle_connecting [OF ov] meddle_reports meddle_calls [OF ov] meddle_select [OF ov]
      meddle_drop [OF ov] locked_write.intros split: option.split prod.split)

lemma meddle_dispatch:
  assumes ov: "overlapping env ct"
  shows "meddles (dispatch env name a ct)"
  unfolding dispatch_def handle_continue_def handle_step_over_def handle_step_into_def handle_step_out_def
  by (intro kept_if meddle_lifecycle [OF ov] meddle_breakpoints [OF ov] meddle_execution [OF ov]
      meddle_inspection [OF ov] meddling.kept_ret)

section \<open>What holds in every mixture\<close>

lemma locked_write_ok: "locked_write f \<Longrightarrow> session_ok s \<Longrightarrow> session_ok (f s)"
  by (induction rule: locked_write.induct) simp_all

lemma locked_write_epoch: "locked_write f \<Longrightarrow> ss_generation (f s) = ss_generation s"
  by (induction rule: locked_write.induct)
    (simp_all add: session_defs drain_output_def flush_pending_breakpoints_def remove_breakpoint_by_id_def Let_def
      split: option.split prod.split)

text \<open>The pumps were given generations that have been.\<close>

definition pumps_from_past :: "nat \<Rightarrow> ('b, 'w) tool_server \<Rightarrow> bool" where
  "pumps_from_past n s \<longleftrightarrow> (\<forall>(b, g) \<in> set (sv_pumps s). \<exists>j \<le> n. g = of_nat j)"

lemma pumps_from_past_mono: "pumps_from_past n s \<Longrightarrow> n \<le> m \<Longrightarrow> sv_pumps t = sv_pumps s \<Longrightarrow> pumps_from_past m t"
proof -
  assume p: "pumps_from_past n s" and le: "n \<le> m" and same: "sv_pumps t = sv_pumps s"
  have "\<exists>j \<le> m. g = of_nat j" if "(b, g) \<in> set (sv_pumps s)" for b g
  proof -
    from p that obtain j where "j \<le> n" "g = of_nat j" by (auto simp: pumps_from_past_def)
    with le show ?thesis by (auto intro: le_trans)
  qed
  with same show "pumps_from_past m t" by (auto simp: pumps_from_past_def)
qed

text \<open>A server after \<open>n\<close> resets, none of which went past the end of the counter.\<close>

definition mixture_ok :: "nat \<Rightarrow> ('b, 'w) tool_server \<Rightarrow> bool" where
  "mixture_ok n s \<longleftrightarrow>
     session_ok (sv_session s) \<and> ss_generation (sv_session s) = of_nat n \<and> pumps_from_past n s"

lemma interferes_in_mixture:
  "interferes_in n s t \<Longrightarrow> mixture_ok m s \<Longrightarrow> mixture_ok (m + n) t"
proof (induction rule: interferes_in.induct)
  case (written n s t f)
  then show ?case
    by (simp add: mixture_ok_def locked_write_ok locked_write_epoch pumps_from_past_def)
next
  case (reset_too n s t)
  then have "mixture_ok (m + n) t" by simp
  then show ?case
    by (auto simp: mixture_ok_def algebra_simps intro: pumps_from_past_mono [of "m + n" t])
next
  case (pumped n s t b g e)
  then show ?case by (simp add: mixture_ok_def pump_event_facts(1) pumps_from_past_def)
next
  case (spawned n s t b)
  then show ?case by (auto simp: mixture_ok_def pumps_from_past_def)
qed (auto simp: mixture_ok_def pumps_from_past_def)

text \<open>
  C2. Whatever the client sends while other calls are still running: every call, however its awaits are
  mixed with the operations of other calls, of pumps and of timers, is itself a sequence of the
  session's single operations. So after any mixture the session is well-formed, its generation is
  the number of resets there have been, and every pump carries a generation not later than the
  current one, as long as the counter has not gone round.
\<close>

theorem overlapping_calls_safe:
  assumes "interferes_in n (tool_server_new session_new w) s"
    and "overlapping env ct" "dispatch env name a ct s = Some (out, t)"
  shows "\<exists>m \<ge> n. interferes_in m (tool_server_new session_new w) t \<and> session_ok (sv_session t) \<and>
    ss_generation (sv_session t) = of_nat m \<and> (m < 2 ^ 64 \<longrightarrow> pumps_upto t)"
proof -
  from keptD [OF meddle_dispatch [OF assms(2)] assms(3)] obtain k where "interferes_in k s t"
    by (auto simp: interferes_def)
  with assms(1) have i: "interferes_in (n + k) (tool_server_new session_new w) t"
    by (rule interferes_append [rotated])
  have "mixture_ok 0 (tool_server_new session_new w)"
    by (simp add: mixture_ok_def tool_server_new_def pumps_from_past_def) (simp add: session_new_def)
  from interferes_in_mixture [OF i this] have ok: "mixture_ok (n + k) t" by simp
  have "pumps_upto t" if "n + k < 2 ^ 64"
  proof -
    have "(of_nat j :: u64) \<le> of_nat (n + k)" if "j \<le> n + k" for j
      using that \<open>n + k < 2 ^ 64\<close>
      by (simp add: word_le_nat_alt unat_of_nat take_bit_nat_eq_self del: of_nat_add)
    with ok show ?thesis by (fastforce simp: mixture_ok_def pumps_from_past_def pumps_upto_def)
  qed
  with i ok show ?thesis by (intro exI [of _ "n + k"]) (simp add: mixture_ok_def)
qed

text \<open>A call among others: one that meets a connection another call is still making.\<close>

definition unanswering :: "(unit, nat) tool_env" where
  "unanswering =
     \<lparr>env_text = \<lparr>te_parse = (\<lambda>_. Inr JNull), te_show_json = (\<lambda>_. []), te_lower = (\<lambda>s. s)\<rparr>,
      env_api = (\<lambda>_. closed_api),
      env_connect = (\<lambda>s. Some (Inl (Detect ''none''), s\<lparr>sv_session := add_pending_function_breakpoint ''main'' [] (sv_session s)\<rparr>)),
      env_release = (\<lambda>_ w. w), env_timer = (\<lambda>_. None), env_drop_wait = (\<lambda>s. s), env_order = (\<lambda>bs. bs),
      env_file_order = (\<lambda>fs. fs)\<rparr>"

lemma overlapping_unanswering: "overlapping unanswering (\<lambda>_. None)"
  by (auto simp: overlapping_def unanswering_def meddling_api_def closed_api_def kept_def ret_def
      intro!: interferes_refl interferes_write locked_write.intros)

theorem overlapping_calls_safe_witness:
  "\<exists>out t m. dispatch unanswering ''attach'' [(''wait_for'', JStr ''job'')] (\<lambda>_. None) (tool_server_new session_new 0) = Some (out, t) \<and>
     interferes_in m (tool_server_new session_new 0) t \<and> session_ok (sv_session t)"
proof -
  obtain out t where d: "dispatch unanswering ''attach'' [(''wait_for'', JStr ''job'')] (\<lambda>_. None) (tool_server_new session_new 0) = Some (out, t)"
    by (auto simp: dispatch_def handle_attach_def guarded_by_def check_state_def arg_or_def connected_def seq_def
        attach_target_def get_raw_def bt_get_def json_as_str_def Let_def
        modify_session_def clear_backend_def ret_def unanswering_def tool_server_new_def session_new_def
        split: sum.split prod.split)
  from overlapping_calls_safe [OF interferes_in.nothing overlapping_unanswering d] d show ?thesis by blast
qed

end
