(* ===== verification/Event_Stream.thy ===== *)
theory Event_Stream
  imports Read_Loop_Laws Session_Laws
begin

text \<open>
  From the read loop to the session: the two channels of \<^verbatim>\<open>ReadLoop::new\<close>
  (\<^verbatim>\<open>dap-client/src/read_loop.rs\<close>), the stream \<^verbatim>\<open>build_event_stream\<close> makes of them
  (\<^verbatim>\<open>lldb-backend/src/factory.rs\<close>) and the event pump that drains it, as tasks that run side by side
  with the callers of the client. \<^verbatim>\<open>stream::select\<close> asks its two streams in turns; which one it asks
  first at a poll is left open.
\<close>

section \<open>The channels of the read loop\<close>

text \<open>
  The receivers as the consumer finds them: the chunks sent and not yet received, whether their
  sender still lives, the oneshot. The senders are dropped with the loop, whose last act is the
  recovery.
\<close>

record read_loop_channels =
  rc_output :: "(string \<times> string) list"
  rc_sender :: bool
  rc_terminated :: "i64 option cell"

definition channels_of :: "nat \<Rightarrow> client \<Rightarrow> read_loop_channels" where
  "channels_of taken c =
     \<lparr>rc_output = drop taken (cl_output c), rc_sender = (cl_closed c = None), rc_terminated = cl_term c\<rparr>"

section \<open>The event stream\<close>

datatype 'a poll = Pending | Ready 'a

record event_stream =
  es_taken :: nat
  es_output_ended :: bool
  es_terminated_ended :: bool

definition build_event_stream :: event_stream where
  "build_event_stream = \<lparr>es_taken = 0, es_output_ended = False, es_terminated_ended = False\<rparr>"

text \<open>\<^verbatim>\<open>rx.recv().await.map(..)\<close> of the unfolded stream.\<close>

definition poll_output :: "read_loop_channels \<Rightarrow> event_stream \<Rightarrow> backend_event option poll \<times> event_stream" where
  "poll_output ch es =
     (if es_output_ended es then (Ready None, es)
      else case rc_output ch of
          (category, txt) # _ \<Rightarrow> (Ready (Some (Output category txt)), es\<lparr>es_taken := Suc (es_taken es)\<rparr>)
        | [] \<Rightarrow> if rc_sender ch then (Pending, es) else (Ready None, es\<lparr>es_output_ended := True\<rparr>))"

text \<open>The oneshot as a stream of one element, or of none when its sender was dropped.\<close>

definition poll_terminated :: "read_loop_channels \<Rightarrow> event_stream \<Rightarrow> backend_event option poll \<times> event_stream" where
  "poll_terminated ch es =
     (if es_terminated_ended es then (Ready None, es)
      else case rc_terminated ch of
          Waiting \<Rightarrow> (Pending, es)
        | Delivered code \<Rightarrow> (Ready (Some (TerminatedEv code)), es\<lparr>es_terminated_ended := True\<rparr>)
        | Abandoned \<Rightarrow> (Ready None, es\<lparr>es_terminated_ended := True\<rparr>))"

text \<open>\<^verbatim>\<open>stream::select\<close>: the second stream is asked when the first has nothing; both must end.\<close>

definition poll_both ::
  "(event_stream \<Rightarrow> backend_event option poll \<times> event_stream) \<Rightarrow>
   (event_stream \<Rightarrow> backend_event option poll \<times> event_stream) \<Rightarrow>
   event_stream \<Rightarrow> backend_event option poll \<times> event_stream" where
  "poll_both first second es =
     (case first es of
        (Ready (Some e), es1) \<Rightarrow> (Ready (Some e), es1)
      | (Ready None, es1) \<Rightarrow> second es1
      | (Pending, es1) \<Rightarrow>
          (case second es1 of
             (Ready (Some e), es2) \<Rightarrow> (Ready (Some e), es2)
           | (_, es2) \<Rightarrow> (Pending, es2)))"

definition poll_next :: "bool \<Rightarrow> read_loop_channels \<Rightarrow> event_stream \<Rightarrow> backend_event option poll \<times> event_stream" where
  "poll_next output_first ch =
     (if output_first then poll_both (poll_output ch) (poll_terminated ch)
      else poll_both (poll_terminated ch) (poll_output ch))"

section \<open>A connection at work\<close>

text \<open>
  \<open>cr_input\<close> is what the read loop has not read yet and \<open>cr_error\<close> how its stream ends. The pump
  (\<^verbatim>\<open>spawn_event_pump\<close>) waits for the next event, applies it, and stops at the end of the stream.
\<close>

record connection_run =
  cr_client :: client
  cr_input :: "dap_message list"
  cr_error :: wire_error
  cr_stream :: event_stream
  cr_session :: session
  cr_pump_done :: bool

definition connection_start :: "dap_message list \<Rightarrow> wire_error \<Rightarrow> session \<Rightarrow> connection_run" where
  "connection_start ms e s =
     \<lparr>cr_client = client_new, cr_input = ms, cr_error = e, cr_stream = build_event_stream, cr_session = s,
      cr_pump_done = False\<rparr>"

definition pump_turn :: "u64 \<Rightarrow> bool \<Rightarrow> connection_run \<Rightarrow> connection_run" where
  "pump_turn g output_first r =
     (if cr_pump_done r then r
      else case poll_next output_first (channels_of (es_taken (cr_stream r)) (cr_client r)) (cr_stream r) of
          (Pending, es) \<Rightarrow> r\<lparr>cr_stream := es\<rparr>
        | (Ready None, es) \<Rightarrow> r\<lparr>cr_stream := es, cr_pump_done := True\<rparr>
        | (Ready (Some e), es) \<Rightarrow> r\<lparr>cr_stream := es, cr_session := pump_event g e (cr_session r)\<rparr>)"

text \<open>One turn of the read loop's \<^verbatim>\<open>run\<close>.\<close>

definition reader_turn :: "connection_run \<Rightarrow> connection_run" where
  "reader_turn r =
     (if cl_closed (cr_client r) \<noteq> None then r
      else case cr_input r of
          m # ms \<Rightarrow> r\<lparr>cr_client := dispatch_message m (cr_client r), cr_input := ms\<rparr>
        | [] \<Rightarrow> r\<lparr>cr_client := recover (cr_error r) (cr_client r)\<rparr>)"

text \<open>What the callers do to the client meanwhile.\<close>

inductive caller_step :: "client \<Rightarrow> client \<Rightarrow> bool" where
  sends: "caller_step c (snd (send_start r c))"
| gives_up: "caller_step c (abort_pending sq c)"
| registers_stop: "caller_step c (snd (stop_register c))"
| waits_initialized: "caller_step c (snd (wait_initialized c))"

inductive connection_step :: "u64 \<Rightarrow> connection_run \<Rightarrow> connection_run \<Rightarrow> bool" for g where
  reads: "connection_step g r (reader_turn r)"
| pumps: "connection_step g r (pump_turn g output_first r)"
| calls: "caller_step (cr_client r) c \<Longrightarrow> connection_step g r (r\<lparr>cr_client := c\<rparr>)"

inductive connection_steps :: "u64 \<Rightarrow> connection_run \<Rightarrow> connection_run \<Rightarrow> bool" for g where
  unmoved: "connection_steps g r r"
| moved: "connection_steps g r r' \<Longrightarrow> connection_step g r' r'' \<Longrightarrow> connection_steps g r r''"

section \<open>What the stream has given\<close>

abbreviation outputs_in :: "dap_message list \<Rightarrow> (string \<times> string) list" where
  "outputs_in ms \<equiv> concat (map output_event ms)"

definition chunk_entry :: "string \<times> string \<Rightarrow> output_entry" where
  "chunk_entry ch = \<lparr>oe_category = fst ch, oe_text = snd ch\<rparr>"

abbreviation told :: "u64 \<Rightarrow> i64 option \<Rightarrow> session \<Rightarrow> session" where
  "told g code s \<equiv> snd (terminate_if_generation g code s)"

text \<open>
  The read loop against its whole input \<open>ms\<close>: what was sent and what is still to come make up the
  outputs of \<open>ms\<close>; the oneshot is fired with the exit code of \<open>ms\<close> or still to be.
\<close>

definition reader_at :: "dap_message list \<Rightarrow> client \<Rightarrow> dap_message list \<Rightarrow> bool" where
  "reader_at ms c rest \<longleftrightarrow>
     cl_output c @ outputs_in rest = outputs_in ms \<and>
     (if cl_term_tx c then cl_term c = Waiting \<and> exit_at_end (cl_last_exit c) rest = exit_at_end None ms
      else cl_term c = Delivered (exit_at_end None ms)) \<and>
     (cl_closed c \<noteq> None \<longrightarrow> rest = [] \<and> \<not> cl_term_tx c)"

definition pump_at :: "u64 \<Rightarrow> dap_message list \<Rightarrow> session \<Rightarrow> client \<Rightarrow> event_stream \<Rightarrow> session \<Rightarrow> bool" where
  "pump_at g ms s c es t \<longleftrightarrow>
     es_taken es \<le> length (cl_output c) \<and>
     (let text = append_outputs (map chunk_entry (take (es_taken es) (cl_output c))) s
      in t = (if es_terminated_ended es then told g (exit_at_end None ms) text else text)) \<and>
     (es_terminated_ended es \<longrightarrow> \<not> cl_term_tx c) \<and>
     (es_output_ended es \<longrightarrow> cl_closed c \<noteq> None \<and> es_taken es = length (cl_output c))"

lemma reader_at_start: "reader_at ms client_new ms"
  by (simp add: reader_at_def client_new_def)

lemma recover_fields:
  "cl_output (recover e c) = cl_output c" "cl_term_tx (recover e c) = False" "cl_closed (recover e c) \<noteq> None"
  by (simp_all add: recover_def close_once_def cancel_all_pending_def stop_cancel_def stop_send_def
      fire_terminated_def Let_def split: option.split)

lemma exit_at_end_step:
  "exit_at_end oc (m # ms) =
     (case m of MEvent (EvExited code) \<Rightarrow> exit_at_end (Some code) ms | MEvent EvTerminated \<Rightarrow> oc | _ \<Rightarrow> exit_at_end oc ms)"
proof (cases m)
  case (MEvent e)
  then show ?thesis by (cases e) simp_all
qed simp_all

lemma reader_at_message:
  assumes at: "reader_at ms c (m # rest)" and opened: "cl_closed c = None"
  shows "reader_at ms (dispatch_message m c) rest"
proof -
  have out: "cl_output (dispatch_message m c) = cl_output c @ output_event m"
    using dispatch_messages_output [of "[m]" c] by simp
  have "if cl_term_tx (dispatch_message m c)
      then cl_term (dispatch_message m c) = Waiting \<and>
        exit_at_end (cl_last_exit (dispatch_message m c)) rest = exit_at_end None ms
      else cl_term (dispatch_message m c) = Delivered (exit_at_end None ms)"
    using at dispatch_message_term [of m c] unfolding reader_at_def exit_at_end_step
    by (auto split: dap_message.splits dap_event.splits if_splits)
  with at opened out show ?thesis
    by (simp add: reader_at_def dispatch_message_closed)
qed

lemma reader_at_recover:
  "reader_at ms c [] \<Longrightarrow> reader_at ms (recover e c) []"
  by (auto simp: reader_at_def recover_fields recover_term split: if_splits)

text \<open>Calls touch nothing of what the stream reads.\<close>

lemma caller_step_stream:
  "caller_step c c' \<Longrightarrow>
     cl_output c' = cl_output c \<and> term_part c' = term_part c \<and> cl_closed c' = cl_closed c"
proof (induction rule: caller_step.induct)
  case (waits_initialized c)
  then show ?case by (simp add: wait_initialized_def Let_def)
qed (simp_all add: send_start_def next_seq_def register_pending_def abort_pending_def remove_pending_def
    stop_register_def Let_def)

lemma caller_step_client: "caller_step c c' \<Longrightarrow> client_step c c'"
  by (induction rule: caller_step.induct) (blast intro: client_step.intros)+

section \<open>Every step keeps the account\<close>

definition run_ok :: "u64 \<Rightarrow> dap_message list \<Rightarrow> session \<Rightarrow> connection_run \<Rightarrow> bool" where
  "run_ok g ms s r \<longleftrightarrow>
     reader_at ms (cr_client r) (cr_input r) \<and> pump_at g ms s (cr_client r) (cr_stream r) (cr_session r) \<and>
     (cr_pump_done r \<longrightarrow> es_output_ended (cr_stream r) \<and> es_terminated_ended (cr_stream r))"

lemma run_ok_start: "run_ok g ms s (connection_start ms e s)"
  by (simp add: run_ok_def connection_start_def reader_at_start pump_at_def build_event_stream_def Let_def
      append_outputs_def append_entries_def)

text \<open>The pump's account depends on the client through its stream part and can only gain from it.\<close>

lemma pump_at_client:
  assumes "pump_at g ms s c es t" "\<exists>more. cl_output c' = cl_output c @ more"
    and "cl_term_tx c' \<Longrightarrow> cl_term_tx c"
    and "cl_closed c \<noteq> None \<Longrightarrow> cl_closed c' \<noteq> None \<and> cl_output c' = cl_output c"
  shows "pump_at g ms s c' es t"
  using assms by (auto simp: pump_at_def Let_def)

lemma run_ok_reader: "run_ok g ms s r \<Longrightarrow> run_ok g ms s (reader_turn r)"
proof -
  let ?c = "cr_client r"
  assume ok: "run_ok g ms s r"
  then have at: "reader_at ms ?c (cr_input r)" and p: "pump_at g ms s ?c (cr_stream r) (cr_session r)"
    by (simp_all add: run_ok_def)
  show ?thesis
  proof (cases "cl_closed ?c")
    case None
    show ?thesis
    proof (cases "cr_input r")
      case Nil
      have "pump_at g ms s (recover (cr_error r) ?c) (cr_stream r) (cr_session r)"
        by (rule pump_at_client [OF p]) (auto simp: recover_fields None)
      with None Nil at ok show ?thesis
        by (simp add: run_ok_def reader_turn_def reader_at_recover)
    next
      case (Cons m rest)
      have tx: "cl_term_tx (dispatch_message m ?c) \<Longrightarrow> cl_term_tx ?c"
        using dispatch_message_term [of m ?c]
        by (auto split: dap_message.splits dap_event.splits)
      have "pump_at g ms s (dispatch_message m ?c) (cr_stream r) (cr_session r)"
        by (rule pump_at_client [OF p])
          (use dispatch_messages_output [of "[m]" ?c] tx in \<open>auto simp: None\<close>)
      with None Cons at ok reader_at_message [of ms ?c m rest] show ?thesis
        by (simp add: run_ok_def reader_turn_def)
    qed
  qed (simp add: ok reader_turn_def)
qed

lemma append_outputs_snoc: "append_outputs (es @ [e]) s = append_output (oe_category e) (oe_text e) (append_outputs es s)"
  by (simp add: append_outputs_def append_entries_def append_output_def append_entry_def)

lemma append_output_told: "append_output c t (told g code s) = told g code (append_output c t s)"
  by (simp add: append_output_terminate_commute)

definition handed :: "u64 \<Rightarrow> backend_event option poll \<Rightarrow> session \<Rightarrow> session" where
  "handed g p s = (case p of Ready (Some e) \<Rightarrow> pump_event g e s | _ \<Rightarrow> s)"

text \<open>A poll of a stream that had received \<open>n\<close> chunks, in the account of the pump.\<close>

definition accounted ::
  "u64 \<Rightarrow> dap_message list \<Rightarrow> session \<Rightarrow> client \<Rightarrow> nat \<Rightarrow> (event_stream \<Rightarrow> bool) \<Rightarrow>
     (event_stream \<Rightarrow> backend_event option poll \<times> event_stream) \<Rightarrow> bool" where
  "accounted g ms s c n ended f \<longleftrightarrow>
     (\<forall>es t p es'. pump_at g ms s c es t \<and> es_taken es = n \<and> f es = (p, es') \<longrightarrow>
        pump_at g ms s c es' (handed g p t) \<and>
        (p = Ready None \<longrightarrow> ended es') \<and> (p \<in> {Pending, Ready None} \<longrightarrow> es_taken es' = n) \<and>
        (es_output_ended es \<longrightarrow> es_output_ended es') \<and> (es_terminated_ended es \<longrightarrow> es_terminated_ended es'))"

lemma handed_simps [simp]:
  "handed g Pending t = t" "handed g (Ready None) t = t" "handed g (Ready (Some e)) t = pump_event g e t"
  by (simp_all add: handed_def)

lemma drop_ConsD: "drop n xs = x # ys \<Longrightarrow> n < length xs \<and> xs ! n = x"
  by (metis Cons_nth_drop_Suc drop_eq_Nil leI list.distinct(1) list.inject)

lemma accounted_output: "accounted g ms s c n es_output_ended (poll_output (channels_of n c))"
  unfolding accounted_def
proof (intro allI impI, elim conjE)
  fix es t p es'
  assume at: "pump_at g ms s c es t" and n: "es_taken es = n" and a: "poll_output (channels_of n c) es = (p, es')"
  consider "p = Ready None" "es' = es" "es_output_ended es" | "p = Pending" "es' = es"
    | "drop n (cl_output c) = []" "cl_closed c \<noteq> None" "p = Ready None" "es' = es\<lparr>es_output_ended := True\<rparr>"
    | ch rest where "drop n (cl_output c) = ch # rest" "\<not> es_output_ended es"
      "p = Ready (Some (Output (fst ch) (snd ch)))" "es' = es\<lparr>es_taken := Suc n\<rparr>"
    using a by (auto simp: poll_output_def channels_of_def n split: if_splits list.splits prod.splits)
  then show "pump_at g ms s c es' (handed g p t) \<and>
        (p = Ready None \<longrightarrow> es_output_ended es') \<and> (p \<in> {Pending, Ready None} \<longrightarrow> es_taken es' = n) \<and>
        (es_output_ended es \<longrightarrow> es_output_ended es') \<and> (es_terminated_ended es \<longrightarrow> es_terminated_ended es')"
  proof cases
    case 3
    with at n show ?thesis by (auto simp: pump_at_def)
  next
    case (4 ch rest)
    from drop_ConsD [OF 4(1)] have len: "n < length (cl_output c)" and ch: "cl_output c ! n = ch" by simp_all
    from at n 4(2) show ?thesis
      by (simp add: pump_at_def 4 Let_def pump_event_def take_Suc_conv_app_nth [OF len] ch
          append_outputs_snoc append_output_told chunk_entry_def Suc_le_eq len)
  qed (use at n in simp_all)
qed

lemma accounted_terminated:
  assumes "reader_at ms c rest"
  shows "accounted g ms s c n es_terminated_ended (poll_terminated (channels_of n c))"
  unfolding accounted_def
proof (intro allI impI, elim conjE)
  fix es t p es'
  assume at: "pump_at g ms s c es t" and n: "es_taken es = n"
    and a: "poll_terminated (channels_of n c) es = (p, es')"
  consider "es_terminated_ended es" "p = Ready None" "es' = es" | "p = Pending" "es' = es"
    | "\<not> es_terminated_ended es" "\<not> cl_term_tx c" "p = Ready (Some (TerminatedEv (exit_at_end None ms)))"
      "es' = es\<lparr>es_terminated_ended := True\<rparr>"
    using a assms by (auto simp: poll_terminated_def channels_of_def reader_at_def split: if_splits cell.splits)
  then show "pump_at g ms s c es' (handed g p t) \<and>
        (p = Ready None \<longrightarrow> es_terminated_ended es') \<and> (p \<in> {Pending, Ready None} \<longrightarrow> es_taken es' = n) \<and>
        (es_output_ended es \<longrightarrow> es_output_ended es') \<and> (es_terminated_ended es \<longrightarrow> es_terminated_ended es')"
    by cases (use at n in \<open>simp_all add: pump_at_def pump_event_def Let_def\<close>)
qed

definition kept_ended :: "(event_stream \<Rightarrow> bool) \<Rightarrow> bool" where
  "kept_ended ended \<longleftrightarrow>
     (\<forall>es es'. ended es \<and> (es_output_ended es \<longrightarrow> es_output_ended es') \<and>
        (es_terminated_ended es \<longrightarrow> es_terminated_ended es') \<longrightarrow> ended es')"

lemma accounted_both:
  assumes f: "accounted g ms s c n ended1 f" and h: "accounted g ms s c n ended2 h" and "kept_ended ended1"
    and at: "pump_at g ms s c es t" "es_taken es = n" and p: "poll_both f h es = (p, es')"
  shows "pump_at g ms s c es' (handed g p t) \<and> (p = Ready None \<longrightarrow> ended1 es' \<and> ended2 es')"
proof -
  obtain p1 es1 where 1: "f es = (p1, es1)" by fastforce
  with f at have f1: "pump_at g ms s c es1 (handed g p1 t)" "p1 = Ready None \<longrightarrow> ended1 es1"
    "p1 \<in> {Pending, Ready None} \<longrightarrow> es_taken es1 = n"
    unfolding accounted_def by blast+
  show ?thesis
  proof (cases "\<exists>e. p1 = Ready (Some e)")
    case True
    with 1 p have "p = p1" "es' = es1" by (auto simp: poll_both_def)
    with f1(1) True show ?thesis by auto
  next
    case False
    obtain p2 es2 where 2: "h es1 = (p2, es2)" by fastforce
    from False have none: "p1 = Pending \<or> p1 = Ready None" by (metis not_Some_eq poll.exhaust)
    with f1 have at1: "pump_at g ms s c es1 t" "es_taken es1 = n" by auto
    from h [unfolded accounted_def, rule_format, of es1 t p2 es2] at1 2
    have h2: "pump_at g ms s c es2 (handed g p2 t)" "p2 = Ready None \<longrightarrow> ended2 es2"
      "es_output_ended es1 \<longrightarrow> es_output_ended es2" "es_terminated_ended es1 \<longrightarrow> es_terminated_ended es2"
      by blast+
    consider "p = p2" "es' = es2" "p1 = Ready None" | e where "p = p2" "es' = es2" "p2 = Ready (Some e)"
      | "p = Pending" "es' = es2" "handed g p2 t = t"
      using 1 2 p none by (auto simp: poll_both_def split: poll.splits option.splits)
    then show ?thesis
    proof cases
      case 1
      have "ended1 es1 \<Longrightarrow> ended1 es2"
        using assms(3) h2(3,4) unfolding kept_ended_def by blast
      with 1 h2 f1(2) show ?thesis by auto
    qed (use h2 in auto)
  qed
qed

lemma kept_ended_both: "kept_ended es_output_ended" "kept_ended es_terminated_ended"
  by (simp_all add: kept_ended_def)

lemma accounted_next:
  assumes "reader_at ms c rest" "pump_at g ms s c es t"
    and "poll_next output_first (channels_of (es_taken es) c) es = (p, es')"
  shows "pump_at g ms s c es' (handed g p t) \<and> (p = Ready None \<longrightarrow> es_output_ended es' \<and> es_terminated_ended es')"
  using accounted_both [OF accounted_output accounted_terminated [OF assms(1)] kept_ended_both(1) assms(2) refl]
    accounted_both [OF accounted_terminated [OF assms(1)] accounted_output kept_ended_both(2) assms(2) refl]
    assms(3) unfolding poll_next_def by (auto split: if_splits)

lemma run_ok_pump: "run_ok g ms s r \<Longrightarrow> run_ok g ms s (pump_turn g output_first r)"
proof (cases "cr_pump_done r")
  case False
  assume ok: "run_ok g ms s r"
  obtain p es where p: "poll_next output_first (channels_of (es_taken (cr_stream r)) (cr_client r)) (cr_stream r) = (p, es)"
    by fastforce
  from ok accounted_next [OF _ _ p] have "pump_at g ms s (cr_client r) es (handed g p (cr_session r))"
    "p = Ready None \<Longrightarrow> es_output_ended es \<and> es_terminated_ended es"
    unfolding run_ok_def by blast+
  with ok False p show ?thesis
    by (auto simp: run_ok_def pump_turn_def split: poll.split option.split)
qed (simp add: pump_turn_def)

lemma run_ok_calls: "run_ok g ms s r \<Longrightarrow> caller_step (cr_client r) c \<Longrightarrow> run_ok g ms s (r\<lparr>cr_client := c\<rparr>)"
proof -
  assume ok: "run_ok g ms s r" and c: "caller_step (cr_client r) c"
  note f = caller_step_stream [OF c]
  from ok f have "reader_at ms c (cr_input r)" by (simp add: run_ok_def reader_at_def)
  moreover have "pump_at g ms s c (cr_stream r) (cr_session r)"
    by (rule pump_at_client [of _ _ _ "cr_client r"]) (use ok f in \<open>auto simp: run_ok_def\<close>)
  ultimately show "run_ok g ms s (r\<lparr>cr_client := c\<rparr>)" using ok by (simp add: run_ok_def)
qed

lemma run_ok_steps: "connection_steps g r r' \<Longrightarrow> run_ok g ms s r \<Longrightarrow> run_ok g ms s r'"
proof (induction rule: connection_steps.induct)
  case (moved r r' r'')
  then have "run_ok g ms s r'" by simp
  with moved.hyps(2) show ?case
    by (cases rule: connection_step.cases) (auto intro: run_ok_reader run_ok_pump run_ok_calls)
qed

section \<open>The pump ends\<close>

definition still_to_give :: "client \<Rightarrow> event_stream \<Rightarrow> nat" where
  "still_to_give c es = (length (cl_output c) - es_taken es) + (if es_terminated_ended es then 0 else 1)"

lemma closed_poll:
  assumes "reader_at ms c rest" "cl_closed c \<noteq> None"
    and "poll_next output_first (channels_of (es_taken es) c) es = (p, es')"
  shows "p = Ready None \<or> (\<exists>e. p = Ready (Some e)) \<and> still_to_give c es' < still_to_give c es"
  using assms
  by (auto simp: poll_next_def poll_both_def poll_output_def poll_terminated_def channels_of_def reader_at_def
      still_to_give_def dest!: drop_ConsD split: if_splits list.splits cell.splits prod.splits)

lemma pump_ends:
  assumes "run_ok g ms s r" "cl_closed (cr_client r) \<noteq> None"
    and "still_to_give (cr_client r) (cr_stream r) < length firsts"
  shows "cr_pump_done (fold (pump_turn g) firsts r)"
  using assms
proof (induction firsts arbitrary: r)
  case (Cons b firsts)
  let ?r = "pump_turn g b r"
  have stays: "cr_pump_done x \<Longrightarrow> cr_pump_done (fold (pump_turn g) firsts x)" for x
    by (induction firsts) (simp_all add: pump_turn_def)
  obtain p es where p: "poll_next b (channels_of (es_taken (cr_stream r)) (cr_client r)) (cr_stream r) = (p, es)"
    by fastforce
  from Cons.prems(1) have at: "reader_at ms (cr_client r) (cr_input r)" by (simp add: run_ok_def)
  show ?case
  proof (cases "cr_pump_done ?r")
    case True
    then show ?thesis using stays by simp
  next
    case False
    then have "\<not> cr_pump_done r" by (auto simp: pump_turn_def)
    with False p have "p \<noteq> Ready None" by (auto simp: pump_turn_def)
    with closed_poll [OF at Cons.prems(2) p] obtain e where e: "p = Ready (Some e)"
      "still_to_give (cr_client r) es < still_to_give (cr_client r) (cr_stream r)" by blast
    with p \<open>\<not> cr_pump_done r\<close> have "cr_stream ?r = es" "cr_client ?r = cr_client r"
      by (simp_all add: pump_turn_def)
    with e(2) Cons.prems Cons.IH [OF run_ok_pump [OF Cons.prems(1)]] show ?thesis by simp
  qed
qed simp

text \<open>
  C11. From the debugger's messages to the session. Whatever the order in which the read loop, the
  pump, the two channels and the callers take their turns: the session always shows the output
  read so far up to some point and, once told, the end; the pump stops only after it has handed on
  all output, in order, and the end of the program with the right exit code, once; and when the
  read loop has ended, as many polls as there are chunks left, and two more, bring it there.
\<close>

theorem connection_reaches_session:
  assumes "connection_steps g (connection_start ms e s) r"
  shows "(\<exists>n \<le> length (outputs_in ms).
      let text = append_outputs (map chunk_entry (take n (outputs_in ms))) s
      in cr_session r = text \<or> cr_session r = told g (exit_at_end None ms) text) \<and>
    (cr_pump_done r \<longrightarrow> cr_session r =
      told g (exit_at_end None ms) (append_outputs (map chunk_entry (outputs_in ms)) s)) \<and>
    (cl_closed (cr_client r) \<noteq> None \<and> length (outputs_in ms) - es_taken (cr_stream r) + 2 \<le> length firsts \<longrightarrow>
      cr_pump_done (fold (pump_turn g) firsts r))"
proof -
  let ?c = "cr_client r" and ?es = "cr_stream r"
  have ok: "run_ok g ms s r" by (rule run_ok_steps [OF assms run_ok_start])
  then have at: "reader_at ms ?c (cr_input r)" and p: "pump_at g ms s ?c ?es (cr_session r)"
    and fin: "cr_pump_done r \<Longrightarrow> es_output_ended ?es \<and> es_terminated_ended ?es"
    by (simp_all add: run_ok_def)
  from p have n: "es_taken ?es \<le> length (cl_output ?c)" by (simp add: pump_at_def)
  from at have out: "outputs_in ms = cl_output ?c @ outputs_in (cr_input r)" by (simp add: reader_at_def)
  with n have tk: "take (es_taken ?es) (outputs_in ms) = take (es_taken ?es) (cl_output ?c)"
    "es_taken ?es \<le> length (outputs_in ms)" by simp_all
  have all: "cl_output ?c = outputs_in ms" if "cl_closed ?c \<noteq> None"
    using at that by (auto simp: reader_at_def)
  have "cr_session r = told g (exit_at_end None ms) (append_outputs (map chunk_entry (outputs_in ms)) s)" if "cr_pump_done r"
    using fin [OF that] p all by (auto simp: pump_at_def)
  moreover have "\<exists>n \<le> length (outputs_in ms).
      let text = append_outputs (map chunk_entry (take n (outputs_in ms))) s
      in cr_session r = text \<or> cr_session r = told g (exit_at_end None ms) text"
    using p tk by (intro exI [of _ "es_taken ?es"]) (auto simp: pump_at_def Let_def)
  moreover have "cr_pump_done (fold (pump_turn g) firsts r)"
    if "cl_closed ?c \<noteq> None" "length (outputs_in ms) - es_taken ?es + 2 \<le> length firsts"
    using that(2) all [OF that(1)] by (intro pump_ends [OF ok that(1)]) (simp add: still_to_give_def)
  ultimately show ?thesis by blast
qed

text \<open>
  A short run: the program writes, exits and is reported ended; the pump is told of the end before it
  gets the text, which still arrives.
\<close>

definition short_program :: "dap_message list" where
  "short_program = [MEvent (EvOutput \<lparr>ob_category = ''stdout'', ob_output = ''hi''\<rparr>), MEvent (EvExited 3), MEvent EvTerminated]"

definition read_whole :: connection_run where
  "read_whole = (reader_turn ^^ 4) (connection_start short_program WEof session_new)"

lemma read_whole_steps: "connection_steps g (connection_start short_program WEof session_new) ((reader_turn ^^ n)
    (connection_start short_program WEof session_new))"
  by (induction n) (auto intro: connection_steps.intros connection_step.reads)

lemma pump_turns_steps: "connection_steps g r r' \<Longrightarrow> connection_steps g r (fold (pump_turn g) firsts r')"
  by (induction firsts arbitrary: r') (auto intro: connection_steps.intros connection_step.pumps)

theorem connection_reaches_session_witness:
  "ss_state (cr_session (fold (pump_turn 0) [False, False, True] read_whole)) = STerminated \<and>
   ss_exit_code (cr_session (fold (pump_turn 0) [False, False, True] read_whole)) = Some 3 \<and>
   bf_entries (ss_output (cr_session (fold (pump_turn 0) [False, False, True] read_whole))) =
     [\<lparr>oe_category = ''stdout'', oe_text = ''hi''\<rparr>]"
proof -
  let ?r = "fold (pump_turn 0) [False, False, True] read_whole"
  have steps: "connection_steps 0 (connection_start short_program WEof session_new) read_whole"
    unfolding read_whole_def by (rule read_whole_steps)
  have whole: "outputs_in short_program = [(''stdout'', ''hi'')]" "exit_at_end None short_program = Some 3"
    by (simp_all add: short_program_def)
  have "cl_closed (cr_client read_whole) \<noteq> None" "es_taken (cr_stream read_whole) = 0"
    unfolding read_whole_def short_program_def by code_simp+
  with connection_reaches_session [OF steps, of "[False, False, True]"] have "cr_pump_done ?r"
    by (simp add: whole)
  with connection_reaches_session [OF pump_turns_steps [OF steps], of "[False, False, True]" "[]"]
  have "cr_session ?r = told 0 (Some 3) (append_outputs [chunk_entry (''stdout'', ''hi'')] session_new)"
    by (simp add: whole)
  then show ?thesis
    by (simp add: terminate_if_generation_def append_outputs_def append_entries_def append_entry_def chunk_entry_def
        session_new_def output_append_def output_buffer_new_def entry_size_def MAX_SIZE_def Let_def)
qed

end
