(* ===== verification/Detect.thy ===== *)
theory Detect
  imports Debugger_Core
begin

text \<open>
  \<^verbatim>\<open>lldb-backend/src/detect.rs\<close>: the search for the debugger binary. The process environment
  is the record \<open>env\<close> (the trait \<^verbatim>\<open>Env\<close>); \<open>look_path_in\<close> is the PATH resolution the production
  instance uses, over a predicate for executable files. The search is shown to return the
  first hit of a fixed candidate order and to name every candidate when it fails.
\<close>

record detected =
  de_path :: string
  de_is_lldb_dap :: bool

record env =
  ev_var :: "string \<Rightarrow> string option"
  ev_look_path :: "string \<Rightarrow> string option"
  ev_path_exists :: "string \<Rightarrow> bool"
  ev_xcrun :: "string option"
  ev_is_macos :: bool

definition is_capable_basename :: "string \<Rightarrow> bool" where
  "is_capable_basename name = str_contains name ''lldb-dap''"

text \<open>The pieces of a string between separators, and \<^verbatim>\<open>Path::file_name\<close>.\<close>

fun split_on :: "char \<Rightarrow> string \<Rightarrow> string list" where
  "split_on sep [] = [[]]"
| "split_on sep (c # cs) =
     (if c = sep then [] # split_on sep cs
      else case split_on sep cs of [] \<Rightarrow> [[c]] | p # ps \<Rightarrow> (c # p) # ps)"

definition file_name :: "string \<Rightarrow> string option" where
  "file_name path =
     (case last_opt (filter (\<lambda>p. p \<noteq> [] \<and> p \<noteq> ''.'') (split_on (CHR ''/'') path)) of
        None \<Rightarrow> None | Some p \<Rightarrow> if p = ''..'' then None else Some p)"

definition basename :: "string \<Rightarrow> string" where
  "basename path = (case file_name path of None \<Rightarrow> path | Some p \<Rightarrow> p)"

text \<open>The loop over the versioned names; \<open>Inr\<close> carries the names searched so far.\<close>

fun find_versioned :: "env \<Rightarrow> nat list \<Rightarrow> string list \<Rightarrow> detected + string list" where
  "find_versioned env [] searched = Inr searched"
| "find_versioned env (v # vs) searched =
     (let name = ''lldb-dap-'' @ show_nat v in
      case ev_look_path env name of
        Some p \<Rightarrow> Inl \<lparr>de_path = p, de_is_lldb_dap = True\<rparr>
      | None \<Rightarrow> find_versioned env vs (searched @ [name]))"

definition not_found :: "string list \<Rightarrow> backend_error + detected" where
  "not_found searched = Inl (Detect (''lldb-dap binary not found; searched: '' @ join '', '' searched))"

definition find_on_path :: "env \<Rightarrow> string list \<Rightarrow> backend_error + detected" where
  "find_on_path env searched =
     (case ev_look_path env ''lldb-dap'' of
        Some p \<Rightarrow> Inr \<lparr>de_path = p, de_is_lldb_dap = True\<rparr>
      | None \<Rightarrow>
     (case find_versioned env [20, 19, 18, 17, 16, 15] (searched @ [''lldb-dap'']) of
        Inl d \<Rightarrow> Inr d
      | Inr searched2 \<Rightarrow>
     (case ev_look_path env ''lldb-vscode'' of
        Some p \<Rightarrow> Inr \<lparr>de_path = p, de_is_lldb_dap = False\<rparr>
      | None \<Rightarrow>
          if \<not> ev_is_macos env then not_found (searched2 @ [''lldb-vscode''])
          else
     (case ev_xcrun env of
        Some p \<Rightarrow> if trim p \<noteq> [] then Inr \<lparr>de_path = trim p, de_is_lldb_dap = True\<rparr>
          else not_found (searched2 @ [''lldb-vscode'', ''xcrun --find lldb-dap''])
      | None \<Rightarrow> not_found (searched2 @ [''lldb-vscode'', ''xcrun --find lldb-dap''])))))"

definition find_lldb_dap_with :: "env \<Rightarrow> backend_error + detected" where
  "find_lldb_dap_with env =
     (case ev_var env ''LLDB_DAP_PATH'' of
        None \<Rightarrow> find_on_path env []
      | Some p \<Rightarrow>
          if p = [] then find_on_path env []
          else if ev_look_path env p \<noteq> None \<or> ev_path_exists env p
          then Inr \<lparr>de_path = p, de_is_lldb_dap = is_capable_basename (basename p)\<rparr>
          else find_on_path env [''LLDB_DAP_PATH='' @ p])"

text \<open>PATH resolution, over a predicate for executable regular files.\<close>

definition path_join :: "string \<Rightarrow> string \<Rightarrow> string" where
  "path_join dir name = (if last dir = CHR ''/'' then dir @ name else dir @ ''/'' @ name)"

definition look_path_in :: "(string \<Rightarrow> bool) \<Rightarrow> string \<Rightarrow> string option \<Rightarrow> string option" where
  "look_path_in is_executable_file name path_var =
     (if CHR ''/'' \<in> set name then (if is_executable_file name then Some name else None)
      else case path_var of
        None \<Rightarrow> None
      | Some pv \<Rightarrow> find is_executable_file
          (map (\<lambda>dir. path_join dir name) (filter (\<lambda>dir. dir \<noteq> []) (split_on (CHR '':'') pv))))"

text \<open>
  \<^verbatim>\<open>SystemEnv\<close> over what the operating system answers (on Unix): variables, file metadata with the
  permission bits, the exit and output of \<^verbatim>\<open>xcrun --find lldb-dap\<close> when it can be run at all.
\<close>

record file_meta =
  fm_is_file :: bool
  fm_mode :: "32 word"

record system =
  sy_var :: "string \<Rightarrow> string option"
  sy_path_var :: "string option"
  sy_metadata :: "string \<Rightarrow> file_meta option"
  sy_xcrun :: "(bool \<times> string) option"
  sy_is_macos :: bool

definition is_executable_file :: "system \<Rightarrow> string \<Rightarrow> bool" where
  "is_executable_file sy path =
     (case sy_metadata sy path of
        Some meta \<Rightarrow> fm_is_file meta \<and> and (fm_mode meta) 0x49 \<noteq> 0
      | None \<Rightarrow> False)"

definition path_is_file :: "system \<Rightarrow> string \<Rightarrow> bool" where
  "path_is_file sy path = (case sy_metadata sy path of Some meta \<Rightarrow> fm_is_file meta | None \<Rightarrow> False)"

definition xcrun_find_lldb_dap :: "system \<Rightarrow> string option" where
  "xcrun_find_lldb_dap sy =
     (case sy_xcrun sy of
        None \<Rightarrow> None
      | Some (success, stdout) \<Rightarrow> if success then Some (from_utf8_lossy stdout) else None)"

definition system_env :: "system \<Rightarrow> env" where
  "system_env sy =
     \<lparr>ev_var = sy_var sy, ev_look_path = (\<lambda>name. look_path_in (is_executable_file sy) name (sy_path_var sy)),
      ev_path_exists = path_is_file sy, ev_xcrun = xcrun_find_lldb_dap sy, ev_is_macos = sy_is_macos sy\<rparr>"

definition find_lldb_dap :: "system \<Rightarrow> backend_error + detected" where
  "find_lldb_dap sy = find_lldb_dap_with (system_env sy)"

section \<open>The candidate order\<close>

text \<open>The names searched on PATH, in order, with their capability.\<close>

definition candidates :: "(string \<times> bool) list" where
  "candidates =
     [(''lldb-dap'', True), (''lldb-dap-20'', True), (''lldb-dap-19'', True), (''lldb-dap-18'', True),
      (''lldb-dap-17'', True), (''lldb-dap-16'', True), (''lldb-dap-15'', True), (''lldb-vscode'', False)]"

text \<open>The reference search: the first candidate that resolves.\<close>

definition first_hit :: "env \<Rightarrow> detected option" where
  "first_hit env =
     (case find (\<lambda>(n, c). ev_look_path env n \<noteq> None) candidates of
        None \<Rightarrow> None
      | Some (n, c) \<Rightarrow> Some \<lparr>de_path = the (ev_look_path env n), de_is_lldb_dap = c\<rparr>)"

lemma show_nat_versions [text_simps]:
  "show_nat 20 = ''20''" "show_nat 19 = ''19''" "show_nat 18 = ''18''"
  "show_nat 17 = ''17''" "show_nat 16 = ''16''" "show_nat 15 = ''15''"
  by (simp_all add: show_nat_def to_radix.simps hex_digit_def)

definition versioned_name :: "nat \<Rightarrow> string" where
  "versioned_name v = ''lldb-dap-'' @ show_nat v"

lemma find_versioned_spec:
  "find_versioned env vs s =
     (case find (\<lambda>n. ev_look_path env n \<noteq> None) (map versioned_name vs) of
        Some n \<Rightarrow> Inl \<lparr>de_path = the (ev_look_path env n), de_is_lldb_dap = True\<rparr>
      | None \<Rightarrow> Inr (s @ map versioned_name vs))"
  by (induction vs arbitrary: s) (auto simp: versioned_name_def Let_def split: option.splits)

lemma candidates_eq:
  "candidates = (''lldb-dap'', True) # map (\<lambda>v. (versioned_name v, True)) [20, 19, 18, 17, 16, 15]
     @ [(''lldb-vscode'', False)]"
  by (simp add: candidates_def versioned_name_def text_simps)

lemma map_fst_candidates:
  "map fst candidates = ''lldb-dap'' # map versioned_name [20, 19, 18, 17, 16, 15] @ [''lldb-vscode'']"
  by (simp add: candidates_eq)

lemma find_append: "find p (xs @ ys) = (case find p xs of None \<Rightarrow> find p ys | Some x \<Rightarrow> Some x)"
  by (induction xs) auto

lemma find_map_pair:
  "find (\<lambda>(n, c). q n) (map (\<lambda>v. (f v, True)) vs) = map_option (\<lambda>n. (n, True)) (find q (map f vs))"
  by (induction vs) auto

lemma first_hit_unfold:
  "first_hit env =
     (case ev_look_path env ''lldb-dap'' of Some p \<Rightarrow> Some \<lparr>de_path = p, de_is_lldb_dap = True\<rparr>
      | None \<Rightarrow>
     (case find (\<lambda>n. ev_look_path env n \<noteq> None) (map versioned_name [20, 19, 18, 17, 16, 15]) of
        Some n \<Rightarrow> Some \<lparr>de_path = the (ev_look_path env n), de_is_lldb_dap = True\<rparr>
      | None \<Rightarrow> map_option (\<lambda>p. \<lparr>de_path = p, de_is_lldb_dap = False\<rparr>) (ev_look_path env ''lldb-vscode'')))"
  unfolding first_hit_def candidates_eq
  by (auto simp add: find_append find_map_pair simp del: list.map split: option.split)

lemma find_on_path_hit: "first_hit env = Some d \<Longrightarrow> find_on_path env s = Inr d"
  unfolding first_hit_unfold find_on_path_def find_versioned_spec
  by (auto simp del: list.map find.simps split: option.splits)

lemma find_on_path_miss:
  "first_hit env = None \<Longrightarrow> \<not> ev_is_macos env \<Longrightarrow>
     find_on_path env s = Inl (Detect (''lldb-dap binary not found; searched: '' @
       join '', '' (s @ map fst candidates)))"
  unfolding first_hit_unfold find_on_path_def find_versioned_spec map_fst_candidates
  by (auto simp: not_found_def simp del: list.map find.simps join.simps split: option.splits)

text \<open>
  Detection refines a first-match search over a fixed candidate list: without an override
  the result is the first of \<^verbatim>\<open>lldb-dap\<close>, \<^verbatim>\<open>lldb-dap-20\<close> down to \<^verbatim>\<open>lldb-dap-15\<close>, \<^verbatim>\<open>lldb-vscode\<close> that
  resolves on PATH, capable unless it is \<^verbatim>\<open>lldb-vscode\<close>; if none does (off macOS) the error lists
  every name that was tried, the failed override first.
\<close>

theorem find_lldb_dap_first_match:
  assumes "case ev_var env ''LLDB_DAP_PATH'' of None \<Rightarrow> True
      | Some p \<Rightarrow> ev_look_path env p = None \<and> \<not> ev_path_exists env p"
    and "\<not> ev_is_macos env"
  shows "find_lldb_dap_with env =
    (case first_hit env of
       Some d \<Rightarrow> Inr d
     | None \<Rightarrow> Inl (Detect (''lldb-dap binary not found; searched: '' @
         join '', '' ((case ev_var env ''LLDB_DAP_PATH'' of None \<Rightarrow> []
             | Some p \<Rightarrow> if p = [] then [] else [''LLDB_DAP_PATH='' @ p]) @ map fst candidates))))"
  using assms
  by (auto simp: find_lldb_dap_with_def find_on_path_hit find_on_path_miss split: option.splits)

definition linux_env :: env where
  "linux_env = \<lparr>ev_var = (\<lambda>_. None),
     ev_look_path = (\<lambda>n. if n = ''lldb-dap-17'' \<or> n = ''lldb-dap-18'' then Some (''/usr/bin/'' @ n) else None),
     ev_path_exists = (\<lambda>_. False), ev_xcrun = None, ev_is_macos = False\<rparr>"

theorem find_lldb_dap_first_match_witness:
  "find_lldb_dap_with linux_env = Inr \<lparr>de_path = ''/usr/bin/lldb-dap-18'', de_is_lldb_dap = True\<rparr>"
proof -
  have "first_hit linux_env = Some \<lparr>de_path = ''/usr/bin/lldb-dap-18'', de_is_lldb_dap = True\<rparr>"
    by (simp add: first_hit_def candidates_def linux_env_def)
  with find_lldb_dap_first_match [of linux_env] show ?thesis
    by (simp add: linux_env_def)
qed

end
