(* ===== verification/Subprocess.thy ===== *)
theory Subprocess
  imports Debugger_Core
begin

text \<open>
  \<^verbatim>\<open>lldb-backend/src/subprocess.rs\<close>: the keep-last-N ring that captures the debugger's stderr,
  the background loop that drains the pipe into it and the command line of the spawned
  process. The ring is the second provider of the bounded-log interface: whatever the
  chunking of the writes, it holds the last \<open>N\<close> bytes. Process creation itself is the
  operating system's; \<open>os_spawn\<close> stands for it.
\<close>

definition DEFAULT_STDERR_CAP :: nat where "DEFAULT_STDERR_CAP = 4096"

record stderr_buffer =
  st_inner :: string
  st_size :: nat

definition stderr_new :: "nat \<Rightarrow> stderr_buffer" where
  "stderr_new sz = \<lparr>st_inner = [], st_size = (if sz = 0 then DEFAULT_STDERR_CAP else sz)\<rparr>"

definition stderr_capacity :: "stderr_buffer \<Rightarrow> nat" where
  "stderr_capacity b = st_size b"

text \<open>The result pairs the reported count with the new ring.\<close>

definition stderr_write :: "stderr_buffer \<Rightarrow> string \<Rightarrow> nat \<times> stderr_buffer" where
  "stderr_write b data =
     (let n = length data in
      if length data \<ge> st_size b then (n, b\<lparr>st_inner := drop (length data - st_size b) data\<rparr>)
      else
        let buf = st_inner b @ data in
        if length buf > st_size b then (n, b\<lparr>st_inner := drop (length buf - st_size b) buf\<rparr>)
        else (n, b\<lparr>st_inner := buf\<rparr>))"

definition stderr_contents :: "stderr_buffer \<Rightarrow> string" where
  "stderr_contents b = from_utf8_lossy (st_inner b)"

text \<open>One \<^verbatim>\<open>reader.read(&mut chunk)\<close> of the drain loop: some bytes, or a failure.\<close>

datatype read_result = ReadOk string | ReadErr

fun stderr_drain :: "read_result list \<Rightarrow> stderr_buffer \<Rightarrow> stderr_buffer" where
  "stderr_drain [] b = b"
| "stderr_drain (ReadErr # rs) b = b"
| "stderr_drain (ReadOk data # rs) b =
     (if data = [] then b else stderr_drain rs (snd (stderr_write b data)))"

text \<open>
  \<^verbatim>\<open>spawn\<close>: the only argument is \<^verbatim>\<open>--repl-mode=command\<close>, and only for a capable binary. The
  operating system gives an error text or the child's three pipe handles, each of which may
  be missing.
\<close>

definition spawn_args :: "bool \<Rightarrow> string list" where
  "spawn_args is_lldb_dap = (if is_lldb_dap then [''--repl-mode=command''] else [])"

record 'h child_pipes =
  ch_stdin :: "'h option"
  ch_stdout :: "'h option"
  ch_stderr :: "'h option"

record 'h subprocess =
  sp_stdin :: 'h
  sp_stdout :: 'h
  sp_stderr :: stderr_buffer
  sp_is_lldb_dap :: bool

definition spawn :: "(string \<Rightarrow> string list \<Rightarrow> string + 'h child_pipes) \<Rightarrow> (string \<Rightarrow> string) \<Rightarrow>
    string \<Rightarrow> bool \<Rightarrow> backend_error + 'h subprocess" where
  "spawn os_spawn quote_path path is_lldb_dap =
     (case os_spawn path (spawn_args is_lldb_dap) of
        Inl e \<Rightarrow> Inl (Spawn (''starting subprocess '' @ quote_path path @ '': '' @ e))
      | Inr ch \<Rightarrow>
          (case ch_stdin ch of None \<Rightarrow> Inl (Spawn ''creating stdin pipe: no handle'')
           | Some i \<Rightarrow>
          (case ch_stdout ch of None \<Rightarrow> Inl (Spawn ''creating stdout pipe: no handle'')
           | Some out \<Rightarrow>
          (case ch_stderr ch of None \<Rightarrow> Inl (Spawn ''creating stderr pipe: no handle'')
           | Some _ \<Rightarrow>
               Inr \<lparr>sp_stdin = i, sp_stdout = out, sp_stderr = stderr_new DEFAULT_STDERR_CAP,
                    sp_is_lldb_dap = is_lldb_dap\<rparr>))))"

section \<open>The ring keeps the last bytes\<close>

definition ring_ok :: "stderr_buffer \<Rightarrow> bool" where
  "ring_ok b \<longleftrightarrow> 0 < st_size b \<and> length (st_inner b) \<le> st_size b"

lemma ring_ok_new [simp]: "ring_ok (stderr_new n)"
  by (simp add: ring_ok_def stderr_new_def DEFAULT_STDERR_CAP_def)

lemma stderr_write_size [simp]: "st_size (snd (stderr_write b d)) = st_size b"
  by (simp add: stderr_write_def Let_def)

lemma stderr_write_count: "fst (stderr_write b d) = length d"
  by (simp add: stderr_write_def Let_def)

lemma stderr_write_inner:
  "ring_ok b \<Longrightarrow> st_inner (snd (stderr_write b d)) =
     drop (length (st_inner b @ d) - st_size b) (st_inner b @ d)"
  by (auto simp: stderr_write_def Let_def ring_ok_def)

lemma ring_ok_write [simp]: "ring_ok b \<Longrightarrow> ring_ok (snd (stderr_write b d))"
  using stderr_write_inner [of b d] by (simp add: ring_ok_def)

interpretation stderr_log: suffix_log st_inner "\<lambda>b d. snd (stderr_write b d)"
  "\<lambda>b. \<exists>n. b = stderr_new n" ring_ok "\<lambda>_. 1" st_size
  by unfold_locales
    (auto simp: stderr_write_inner keep_suffix_unit simp del: One_nat_def length_append,
      simp add: stderr_new_def)

lemma stderr_drain_writes:
  assumes "\<forall>d \<in> set ds. d \<noteq> []"
  shows "stderr_drain (map ReadOk ds @ ReadErr # rs) b = foldl (\<lambda>b d. snd (stderr_write b d)) b ds"
    and "stderr_drain (map ReadOk ds @ ReadOk [] # rs) b = foldl (\<lambda>b d. snd (stderr_write b d)) b ds"
    and "stderr_drain (map ReadOk ds) b = foldl (\<lambda>b d. snd (stderr_write b d)) b ds"
  using assms by (induction ds arbitrary: b) auto

text \<open>
  C39. However the debugger's stderr is chunked into reads, when the pipe closes the ring holds
  exactly the last 4096 bytes of everything written (all of it when there is less), so the
  diagnostic text is the lossy decoding of those bytes.
\<close>

theorem stderr_drain_keeps_tail:
  assumes "\<forall>d \<in> set ds. d \<noteq> []"
  shows "stderr_contents (stderr_drain (map ReadOk ds @ ReadOk [] # rs) (stderr_new 0)) =
    from_utf8_lossy (drop (length (concat ds) - 4096) (concat ds))"
proof -
  have "st_inner (foldl (\<lambda>b d. snd (stderr_write b d)) (stderr_new 0) ds) =
      keep_suffix (\<lambda>_. 1) (st_size (stderr_new 0)) (concat ds)"
    by (rule stderr_log.history) blast
  then show ?thesis
    by (simp add: stderr_contents_def stderr_drain_writes(2) [OF assms] keep_suffix_unit
        stderr_new_def DEFAULT_STDERR_CAP_def del: One_nat_def)
qed

theorem stderr_drain_keeps_tail_witness:
  "stderr_contents (stderr_drain (map ReadOk [''no such '', ''file''] @ ReadOk [] # []) (stderr_new 0)) =
     from_utf8_lossy ''no such file''"
  using stderr_drain_keeps_tail [of "[''no such '', ''file'']" "[]"] by simp

end
