(* ===== verification/Lldb_Server.thy ===== *)
theory Lldb_Server
  imports Server_Laws Lldb_Handshake
begin

text \<open>
  The server over the lldb backend: a tool call runs the backend's computation on the DAP world,
  and the event pump takes events from the client's channels (\<^verbatim>\<open>LldbFactory::connect\<close> and the trait
  implementation for \<^verbatim>\<open>LldbBackend\<close>). This surrounding provides the contract of a sequential client.
\<close>

section \<open>The event stream\<close>

text \<open>
  What a connection's stream still has for the pump, in one of its possible orders: the output that
  was not taken yet, then the end of the program.
\<close>

record 'p dap_side =
  ds_world :: "'p world"
  ds_taken :: nat
  ds_told :: bool
  ds_next :: nat
  ds_pace :: "nat list"

definition pending_events :: "'p dap_side \<Rightarrow> backend_event list" where
  "pending_events d =
     map (\<lambda>(c, t). Output c t) (drop (ds_taken d) (cl_output (wo_client (ds_world d)))) @
     (case cl_term (wo_client (ds_world d)) of
        Delivered code \<Rightarrow> if ds_told d then [] else [TerminatedEv code]
      | _ \<Rightarrow> [])"

definition is_output :: "backend_event \<Rightarrow> bool" where
  "is_output e \<longleftrightarrow> (case e of Output _ _ \<Rightarrow> True | TerminatedEv _ \<Rightarrow> False)"

text \<open>The pump of the current connection takes some of them; \<open>ds_pace\<close> says how many each time.\<close>

definition run_pump :: "(nat, 'p dap_side) tool_server \<Rightarrow> (nat, 'p dap_side) tool_server" where
  "run_pump s =
     (case last_opt (sv_pumps s) of
        None \<Rightarrow> s
      | Some (b, g) \<Rightarrow>
          let d = sv_world s;
              es = (case ds_pace d of [] \<Rightarrow> pending_events d | n # _ \<Rightarrow> take n (pending_events d));
              taken = length (filter is_output es)
          in s\<lparr>sv_session := event_pump g es (sv_session s),
               sv_world := d\<lparr>ds_taken := ds_taken d + taken, ds_told := ds_told d \<or> taken < length es,
                             ds_pace := tl (ds_pace d)\<rparr>\<rparr>)"

section \<open>The backend\<close>

definition on_dap :: "('p world, 'a) proc \<Rightarrow> (nat, 'p dap_side, 'a) task" where
  "on_dap p s =
     (case p (ds_world (sv_world s)) of
        None \<Rightarrow> None
      | Some (x, w) \<Rightarrow> Some (x, run_pump (s\<lparr>sv_world := (sv_world s)\<lparr>ds_world := w\<rparr>\<rparr>)))"

definition lldb_api :: "'p world lldb_backend \<Rightarrow> (nat, 'p dap_side) backend_api" where
  "lldb_api lb =
     \<lparr>ba_launch = (\<lambda>spec. on_dap (run_launch lb spec)),
      ba_attach = (\<lambda>spec. on_dap (run_attach lb spec)),
      ba_disconnect = (\<lambda>terminate. on_dap (be_disconnect lb terminate)),
      ba_set_source_breakpoints = (\<lambda>file bps. on_dap (be_set_source_breakpoints lb file bps)),
      ba_set_function_breakpoints = (\<lambda>bps. on_dap (be_set_function_breakpoints lb bps)),
      ba_cont = (\<lambda>tid. on_dap (be_cont lb tid)),
      ba_step = (\<lambda>kind tid gran. on_dap (be_step lb kind tid gran)),
      ba_pause = on_dap (be_pause lb),
      ba_threads = on_dap (be_threads lb),
      ba_stack_trace = (\<lambda>tid start levels. on_dap (be_stack_trace lb tid start levels)),
      ba_scopes = (\<lambda>frame_id. on_dap (be_scopes lb frame_id)),
      ba_variables = (\<lambda>reference. on_dap (be_variables lb reference)),
      ba_evaluate = (\<lambda>expr frame_id mode. on_dap (be_evaluate lb expr frame_id mode)),
      ba_read_memory = (\<lambda>address count. on_dap (be_read_memory lb address count)),
      ba_disassemble = (\<lambda>address count. on_dap (be_disassemble lb address count)),
      ba_debugger_pid = lb_pid lb\<rparr>"

text \<open>
  The machine the server runs on: the libraries, the debugger (its first state per connection, or
  the error of finding or starting it), the timers and the orders of the hash maps.
\<close>

record 'p machine =
  ma_text :: text_env
  ma_base64 :: "string \<Rightarrow> string + byte list"
  ma_peer :: "'p peer"
  ma_dial :: "nat \<Rightarrow> backend_error + 'p"
  ma_lag :: "nat list"
  ma_is_lldb_dap :: bool
  ma_pid :: "i64 option"
  ma_stderr :: "'p world \<Rightarrow> string option"
  ma_late :: "'p dap_side \<Rightarrow> 'p dap_side option"
  ma_order :: "breakpoint_info list \<Rightarrow> breakpoint_info list"
  ma_file_order :: "(string \<times> source_bp list) list \<Rightarrow> (string \<times> source_bp list) list"

definition lldb_connect :: "'p machine \<Rightarrow> (nat, 'p dap_side, backend_error + nat) task" where
  "lldb_connect m s =
     (let d = sv_world s; n = ds_next d in
      case ma_dial m n of
        Inl e \<Rightarrow> Some (Inl e, s)
      | Inr p \<Rightarrow>
          Some (Inr n, s\<lparr>sv_world := d\<lparr>ds_world := world_new p (ma_lag m), ds_taken := 0, ds_told := False,
                                     ds_next := Suc n\<rparr>\<rparr>))"

definition lldb_of :: "'p machine \<Rightarrow> 'p world lldb_backend" where
  "lldb_of m =
     (lldb_over (te_show_json (ma_text m)) (ma_base64 m) (ma_peer m) (ma_is_lldb_dap m))
       \<lparr>lb_pid := ma_pid m, lb_stderr := ma_stderr m\<rparr>"

text \<open>A call that is cancelled or timed out may have reached the debugger: any state of that side may result.\<close>

definition cancelled_by :: "('p dap_side \<Rightarrow> 'p dap_side option) \<Rightarrow> (nat, 'p dap_side) cancel" where
  "cancelled_by c s = map_option (\<lambda>d. s\<lparr>sv_world := d\<rparr>) (c (sv_world s))"

text \<open>
  Dropping the last handle of a backend does nothing to the debugger: the child was spawned with
  \<^verbatim>\<open>kill_on_drop(false)\<close>, no type implements \<^verbatim>\<open>Drop\<close> to kill it, and its standard input stays open in the
  read loop, which shares the writer. Only \<open>be_disconnect\<close> kills.
\<close>

definition lldb_env :: "'p machine \<Rightarrow> (nat, 'p dap_side) tool_env" where
  "lldb_env m =
     \<lparr>env_text = ma_text m,
      env_api = (\<lambda>_. lldb_api (lldb_of m)),
      env_connect = lldb_connect m,
      env_release = (\<lambda>_ d. d),
      env_timer = cancelled_by (ma_late m),
      env_drop_wait = run_pump,
      env_order = ma_order m,
      env_file_order = ma_file_order m\<rparr>"

section \<open>The contract\<close>

lemma meanwhile_pump:
  "meanwhile s t \<Longrightarrow> (b, g) \<in> set (sv_pumps t) \<Longrightarrow> meanwhile s (t\<lparr>sv_session := event_pump g es (sv_session t)\<rparr>)"
proof (induction es arbitrary: t)
  case Nil
  then show ?case by (simp add: event_pump_def)
next
  case (Cons e es)
  from Cons.IH [OF meanwhile.pumped [OF Cons.prems, of e]] Cons.prems(2) show ?case
    by (simp add: event_pump_def)
qed

lemma meanwhile_run_pump: "meanwhile s t \<Longrightarrow> meanwhile s (run_pump t)"
proof (cases "last_opt (sv_pumps t)")
  case None
  then show "meanwhile s t \<Longrightarrow> meanwhile s (run_pump t)" by (simp add: run_pump_def)
next
  case (Some bg)
  obtain b g where bg: "bg = (b, g)" by (cases bg)
  with Some have "(b, g) \<in> set (sv_pumps t)" unfolding last_opt_def by (metis last_in_set option.distinct(1) option.inject)
  from meanwhile.outside [OF meanwhile_pump [OF _ this]] show "meanwhile s t \<Longrightarrow> meanwhile s (run_pump t)"
    by (simp add: run_pump_def Some bg Let_def)
qed

lemma calm_on_dap: "calm (on_dap p)"
  unfolding calm_def on_dap_def
  by (auto split: option.splits intro!: meanwhile_run_pump meanwhile.outside meanwhile.nothing)

lemma calm_lldb_api: "calm_api (lldb_api lb)"
  by (simp add: calm_api_def lldb_api_def calm_on_dap)

lemma calm_lldb_connect: "calm (lldb_connect m)"
  unfolding calm_def lldb_connect_def Let_def
  by (auto split: sum.splits intro!: meanwhile.outside meanwhile.nothing)

interpretation lldb_server: calm_server "lldb_env m" "cancelled_by c" for m c
  by unfold_locales
    (auto simp: lldb_env_def calm_lldb_api calm_lldb_connect cancelled_by_def
       intro!: meanwhile_run_pump meanwhile.outside meanwhile.nothing split: if_splits)

section \<open>Sequences of calls\<close>

text \<open>The servers a client can bring about, call by call; the generation must have room.\<close>

inductive reachable_server :: "'p machine \<Rightarrow> (nat, 'p dap_side) tool_server \<Rightarrow> bool" for m where
  fresh: "reachable_server m (tool_server_new session_new d)"
| called: "reachable_server m s \<Longrightarrow> ss_generation (sv_session s) \<noteq> - 1 \<Longrightarrow>
     dispatch (lldb_env m) name a (cancelled_by c) s = Some (out, t) \<Longrightarrow> reachable_server m t"

text \<open>
  C1. After any sequence of tool calls the session is well-formed, and a debugger is connected exactly
  when the session is not idle. Each call moves the session state along the diagram: it stays, or
  the program ends, or launch and attach start it, or a resume leaves it running, or disconnect
  returns to idle.
\<close>

theorem calls_follow_diagram:
  "reachable_server m s \<Longrightarrow>
     server_ok s \<and> (ss_state (sv_session s) = Idle \<longleftrightarrow> sv_backend s = None) \<and>
     (ss_generation (sv_session s) \<noteq> - 1 \<and>
      dispatch (lldb_env m) name a (cancelled_by c) s = Some (out, t) \<longrightarrow>
        may_become name (ss_state (sv_session s)) (ss_state (sv_session t)))"
proof -
  assume r: "reachable_server m s"
  have ok: "server_ok s"
    using r by (induction rule: reachable_server.induct) (auto dest: lldb_server.dispatch_step)
  then have "ss_state (sv_session s) = Idle \<longleftrightarrow> sv_backend s = None"
    by (auto simp: server_ok_def split: if_splits)
  with ok lldb_server.dispatch_step [OF ok] show ?thesis by blast
qed

text \<open>A machine whose debugger is the obliging one, and a program launched on it.\<close>

definition plain_text :: text_env where
  "plain_text = \<lparr>te_parse = (\<lambda>_. Inr JNull), te_show_json = (\<lambda>_. []), te_lower = (\<lambda>s. s)\<rparr>"

definition machine_with :: "unit peer \<Rightarrow> unit machine" where
  "machine_with peer =
     \<lparr>ma_text = plain_text, ma_base64 = (\<lambda>_. Inl []), ma_peer = peer, ma_dial = (\<lambda>_. Inr ()), ma_lag = [],
      ma_is_lldb_dap = True, ma_pid = Some 99, ma_stderr = (\<lambda>_. None), ma_late = (\<lambda>_. None), ma_order = (\<lambda>bs. bs),
      ma_file_order = (\<lambda>fs. fs)\<rparr>"

definition fresh_server :: "(nat, unit dap_side) tool_server" where
  "fresh_server = tool_server_new session_new
     \<lparr>ds_world = world_new () [], ds_taken = 0, ds_told = False, ds_next = 0, ds_pace = []\<rparr>"

definition launch_call :: args where
  "launch_call = [(''program'', JStr ''a.out'')]"

definition run_call :: args where
  "run_call = [(''program'', JStr ''a.out''), (''stop_on_entry'', JBool False)]"

definition call_on ::
  "unit peer \<Rightarrow> string \<Rightarrow> args \<Rightarrow> (nat, unit dap_side) tool_server \<Rightarrow> (tool_outcome \<times> (nat, unit dap_side) tool_server) option"
where
  "call_on peer name a s = dispatch (lldb_env (machine_with peer)) name a (cancelled_by (\<lambda>_. None)) s"

lemma friendly_launch_result:
  "map_option (\<lambda>(r, w). (r, cl_output (wo_client w), cl_term (wo_client w)))
     (run_launch (lldb_of (machine_with friendly)) sample_spec (world_new () [])) =
     Some (Inr (LStopped (stop_info_from_event entry_stop)), [], Waiting)"
  by code_simp

lemma launch_call_args:
  "require_string launch_call ''program'' = Inr ''a.out''" "parse_json_array te launch_call ''args'' = Inr []"
  "parse_json_object te launch_call ''env'' = Inr []" "get_string launch_call ''cwd'' [] = []"
  "get_bool launch_call ''stop_on_entry'' True = True"
  "require_string run_call ''program'' = Inr ''a.out''" "parse_json_array te run_call ''args'' = Inr []"
  "parse_json_object te run_call ''env'' = Inr []" "get_string run_call ''cwd'' [] = []"
  "get_bool run_call ''stop_on_entry'' True = False"
  by (simp_all add: launch_call_def run_call_def require_string_def parse_json_array_def parse_json_object_def get_string_def get_bool_def)

lemma lldb_env_simps [simp]:
  "env_text (lldb_env m) = ma_text m" "env_api (lldb_env m) b = lldb_api (lldb_of m)"
  "env_connect (lldb_env m) = lldb_connect m" "env_order (lldb_env m) = ma_order m"
  "env_file_order (lldb_env m) = ma_file_order m" "env_drop_wait (lldb_env m) = run_pump"
  by (simp_all add: lldb_env_def)

lemma machine_simps [simp]:
  "ma_text (machine_with peer) = plain_text" "ma_dial (machine_with peer) n = Inr ()" "ma_lag (machine_with peer) = []"
  "ma_order (machine_with peer) bs = bs" "ma_file_order (machine_with peer) fs = fs"
  "ma_pid (machine_with peer) = Some 99" "lb_pid (lldb_of m) = ma_pid m" "ba_debugger_pid (lldb_api lb) = lb_pid lb"
  by (simp_all add: machine_with_def lldb_api_def lldb_of_def)

text \<open>The server right after the handshake of this launch, before the pump and the report.\<close>

definition launched_server :: "unit world \<Rightarrow> (nat, unit dap_side) tool_server" where
  "launched_server w =
     fresh_server\<lparr>sv_session := set_state Configuring session_new, sv_backend := Some 0, sv_pumps := [(0, 0)],
       sv_world := (sv_world fresh_server)\<lparr>ds_next := 1, ds_world := w\<rparr>\<rparr>"

lemma launch_on:
  assumes "run_launch (lldb_of (machine_with peer)) (sample_spec\<lparr>ls_stop_on_entry := stop\<rparr>) (world_new () []) =
    Some (Inr outcome, w)"
  shows "call_on peer ''launch'' (if stop then launch_call else run_call) fresh_server =
    launch_report ''a.out'' (Some 99) outcome (run_pump (launched_server w))"
  using assms unfolding sample_spec_def
  by (cases stop)
    (simp_all add: call_on_def dispatch_def handle_launch_def guarded_by_def check_state_def seq_def arg_or_def
      launch_call_args modify_session_def session_step_def flush_pending_breakpoints_def Let_def set_state_def
      fresh_server_def launched_server_def tool_server_new_def session_new_def connected_def lldb_connect_def
      set_backend_def spawn_event_pump_def handshake_def select_cancel_def cancelled_by_def lldb_api_def on_dap_def)

lemma sample_stops: "sample_spec\<lparr>ls_stop_on_entry := True\<rparr> = sample_spec"
  by (simp add: sample_spec_def)

lemma launch_on_friendly:
  "\<exists>t. call_on friendly ''launch'' launch_call fresh_server =
     Some (into_outcome (started_stopped ''launched'' ''a.out'' 99 (stop_info_from_event entry_stop)), t) \<and>
     ss_state (sv_session t) = SStopped \<and> sv_backend t = Some 0"
proof -
  obtain w where w: "run_launch (lldb_of (machine_with friendly)) sample_spec (world_new () []) =
      Some (Inr (LStopped (stop_info_from_event entry_stop)), w)"
    "cl_output (wo_client w) = []" "cl_term (wo_client w) = Waiting"
    using friendly_launch_result by auto
  have "pending_events (sv_world (launched_server w)) = []"
    using w(2,3) by (simp add: pending_events_def launched_server_def fresh_server_def tool_server_new_def)
  then have "sv_session (run_pump (launched_server w)) = set_state Configuring session_new"
    "sv_backend (run_pump (launched_server w)) = Some 0"
    by (simp_all add: run_pump_def event_pump_def last_opt_def launched_server_def Let_def
        fresh_server_def tool_server_new_def)
  then show ?thesis
    using launch_on [of friendly True] w(1)
    by (simp add: sample_stops launch_report_def seq_def modify_session_def read_session_def
        stopped_at_start_def ret_def)
      (simp add: set_pid_def)
qed

text \<open>The whole property on that launch.\<close>

theorem calls_follow_diagram_witness:
  "\<exists>t out. call_on friendly ''launch'' launch_call fresh_server = Some (out, t) \<and>
     may_become ''launch'' Idle SStopped \<and> ss_state (sv_session t) = SStopped \<and> server_ok fresh_server"
proof -
  obtain t out where t: "call_on friendly ''launch'' launch_call fresh_server = Some (out, t)"
    "ss_state (sv_session t) = SStopped"
    using launch_on_friendly by blast
  have r: "reachable_server (machine_with friendly) fresh_server"
    unfolding fresh_server_def by (rule reachable_server.fresh)
  have "ss_state (sv_session fresh_server) = Idle" "ss_generation (sv_session fresh_server) = 0"
    by (simp_all add: fresh_server_def tool_server_new_def session_new_def)
  with calls_follow_diagram [OF r, of "''launch''" launch_call "\<lambda>_. None" out t] t show ?thesis
    unfolding call_on_def by auto
qed

section \<open>A program that ends during its launch\<close>

text \<open>A debugger whose program ends before the launch request is answered.\<close>

definition ends_at_once :: "unit peer" where
  "ends_at_once r p =
     (Emits (if rq_command r = ''launch'' then [MEvent EvInitialized]
             else if rq_command r = ''configurationDone'' then
               [ok_response (rq_seq r) (rq_command r), MEvent (EvExited 0), MEvent EvTerminated, ok_response 2 ''launch'']
             else [ok_response (rq_seq r) (rq_command r)]) False, p)"

lemma ends_at_once_result:
  "map_option (\<lambda>(r, w). (r, cl_output (wo_client w), cl_term (wo_client w)))
     (run_launch (lldb_of (machine_with ends_at_once)) (sample_spec\<lparr>ls_stop_on_entry := False\<rparr>) (world_new () [])) =
     Some (Inr LRunning, [], Delivered (Some 0))"
  by code_simp

end
