(* ===== verification/Factory.thy ===== *)
theory Factory
  imports Event_Stream Detect Subprocess Lldb_Server
begin

text \<open>
  \<^verbatim>\<open>lldb-backend/src/factory.rs\<close>: \<^verbatim>\<open>LldbFactory::connect\<close> finds the debugger, starts it, builds the
  DAP client and its event stream over the pipes and hands out a backend that has not launched
  anything yet. The operating system answers the search (\<open>system\<close>) and the start of the process; the
  process is a peer with a first state of its own, found behind its pipes.
\<close>

section \<open>The backend over a started process\<close>

text \<open>
  \<open>co_start\<close> starts a program with arguments, \<open>co_quote\<close> is the debug form of a path, \<open>co_child_id\<close> the
  process id the handle of the child gives, \<open>co_process\<close> the process behind its standard input and
  output, \<open>co_stderr\<close> the reads that the drain task has made of its error stream so far.
\<close>

record ('h, 'p) connect_os =
  co_system :: system
  co_start :: "string \<Rightarrow> string list \<Rightarrow> string + 'h child_pipes"
  co_quote :: "string \<Rightarrow> string"
  co_child_id :: "'h \<Rightarrow> i64 option"
  co_process :: "'h \<Rightarrow> 'h \<Rightarrow> 'p"
  co_stderr :: "'p \<Rightarrow> read_result list"

definition with_stderr ::
  "'t lldb_backend \<Rightarrow> i64 option \<Rightarrow> ('t \<Rightarrow> stderr_buffer) option \<Rightarrow> 't lldb_backend" where
  "with_stderr client child_id stderr =
     client\<lparr>lb_pid := child_id, lb_stderr := (\<lambda>t. map_option (\<lambda>ring. stderr_contents (ring t)) stderr)\<rparr>"

definition backend_new :: "'t lldb_backend \<Rightarrow> i64 option \<Rightarrow> 't lldb_backend" where
  "backend_new client child_id = with_stderr client child_id None"

record 'p lldb_connection =
  cn_backend :: "'p world lldb_backend"
  cn_events :: event_stream
  cn_world :: "'p world"

definition factory_connect ::
  "('h, 'p) connect_os \<Rightarrow> (json_error \<Rightarrow> string) \<Rightarrow> (string \<Rightarrow> string + byte list) \<Rightarrow> 'p peer \<Rightarrow> nat list \<Rightarrow>
     backend_error + 'p lldb_connection" where
  "factory_connect os show_json base64 peer lag =
     (case find_lldb_dap (co_system os) of
        Inl e \<Rightarrow> Inl e
      | Inr detected \<Rightarrow>
     (case spawn (co_start os) (co_quote os) (de_path detected) (de_is_lldb_dap detected) of
        Inl e \<Rightarrow> Inl e
      | Inr sub \<Rightarrow>
          Inr \<lparr>cn_backend =
                 with_stderr (lldb_over show_json base64 peer (sp_is_lldb_dap sub)) (co_child_id os (sp_stdin sub))
                   (Some (\<lambda>w. stderr_drain (co_stderr os (wo_peer w)) (sp_stderr sub))),
               cn_events = build_event_stream,
               cn_world = world_new (co_process os (sp_stdin sub) (sp_stdout sub)) lag\<rparr>))"

section \<open>What a connection relies on\<close>

text \<open>Where the program that is started comes from, and whether it is known to take the command mode.\<close>

definition on_search_path :: "system \<Rightarrow> string \<Rightarrow> bool" where
  "on_search_path sy dir \<longleftrightarrow>
     dir \<noteq> [] \<and> (case sy_path_var sy of None \<Rightarrow> False | Some pv \<Rightarrow> dir \<in> set (split_on (CHR '':'') pv))"

definition overridden :: "system \<Rightarrow> string \<Rightarrow> bool \<Rightarrow> bool" where
  "overridden sy path capable \<longleftrightarrow>
     sy_var sy ''LLDB_DAP_PATH'' = Some path \<and> path \<noteq> [] \<and> capable = is_capable_basename (basename path) \<and>
     (look_path_in (is_executable_file sy) path (sy_path_var sy) \<noteq> None \<or> path_is_file sy path)"

definition found_on_path :: "system \<Rightarrow> string \<Rightarrow> bool \<Rightarrow> bool" where
  "found_on_path sy path capable \<longleftrightarrow>
     (\<exists>dir name. (name, capable) \<in> set candidates \<and> on_search_path sy dir \<and> path = path_join dir name \<and>
        is_executable_file sy path)"

definition found_by_xcrun :: "system \<Rightarrow> string \<Rightarrow> bool \<Rightarrow> bool" where
  "found_by_xcrun sy path capable \<longleftrightarrow>
     sy_is_macos sy \<and> capable \<and> path \<noteq> [] \<and> (\<exists>out. xcrun_find_lldb_dap sy = Some out \<and> path = trim out)"

lemma find_Some_mem: "find P xs = Some x \<Longrightarrow> x \<in> set xs \<and> P x"
  by (auto simp: find_Some_iff)

lemma path_hit:
  assumes "look_path_in exe name pv = Some p" "CHR ''/'' \<notin> set name"
  obtains dir v where "pv = Some v" "dir \<in> set (split_on (CHR '':'') v)" "dir \<noteq> []" "p = path_join dir name" "exe p"
proof -
  from assms obtain v where v: "pv = Some v"
    "find exe (map (\<lambda>dir. path_join dir name) (filter (\<lambda>dir. dir \<noteq> []) (split_on (CHR '':'') v))) = Some p"
    by (auto simp: look_path_in_def split: option.splits)
  from find_Some_mem [OF v(2)] v(1) that show ?thesis by auto
qed

lemma candidate_hit:
  assumes "first_hit (system_env sy) = Some d"
  shows "found_on_path sy (de_path d) (de_is_lldb_dap d)"
proof -
  from assms obtain name capable where f:
    "find (\<lambda>(n, c). ev_look_path (system_env sy) n \<noteq> None) candidates = Some (name, capable)"
    "d = \<lparr>de_path = the (ev_look_path (system_env sy) name), de_is_lldb_dap = capable\<rparr>"
    by (auto simp: first_hit_def split: option.splits)
  from find_Some_mem [OF f(1)] f(2) have n: "(name, de_is_lldb_dap d) \<in> set candidates"
    "look_path_in (is_executable_file sy) name (sy_path_var sy) = Some (de_path d)"
    by (auto simp: system_env_def)
  have "CHR ''/'' \<notin> set name" using n(1) by (auto simp: candidates_def)
  from path_hit [OF n(2) this] obtain dir v where "sy_path_var sy = Some v" "dir \<in> set (split_on (CHR '':'') v)"
    "dir \<noteq> []" "de_path d = path_join dir name" "is_executable_file sy (de_path d)" by metis
  with n(1) show ?thesis
    unfolding found_on_path_def on_search_path_def by (intro exI [of _ dir] exI [of _ name]) simp
qed

lemma found_where:
  assumes "find_lldb_dap sy = Inr d"
  shows "overridden sy (de_path d) (de_is_lldb_dap d) \<or> found_on_path sy (de_path d) (de_is_lldb_dap d) \<or>
    found_by_xcrun sy (de_path d) (de_is_lldb_dap d)"
proof -
  have search: "found_on_path sy (de_path d) (de_is_lldb_dap d) \<or> found_by_xcrun sy (de_path d) (de_is_lldb_dap d)"
    if "find_on_path (system_env sy) searched = Inr d" for searched
  proof (cases "first_hit (system_env sy)")
    case (Some h)
    with that find_on_path_hit [OF Some, of searched] candidate_hit [of sy] show ?thesis by simp
  next
    case None
    with that show ?thesis
      unfolding first_hit_unfold find_on_path_def find_versioned_spec
      by (auto simp: not_found_def found_by_xcrun_def system_env_def simp del: list.map find.simps
          split: option.splits if_splits)
  qed
  show ?thesis
  proof (cases "\<exists>p. sy_var sy ''LLDB_DAP_PATH'' = Some p \<and> p \<noteq> [] \<and>
      (look_path_in (is_executable_file sy) p (sy_path_var sy) \<noteq> None \<or> path_is_file sy p)")
    case True
    with assms have "overridden sy (de_path d) (de_is_lldb_dap d)"
      by (auto simp: find_lldb_dap_def find_lldb_dap_with_def overridden_def system_env_def)
    then show ?thesis ..
  next
    case False
    with assms have "\<exists>searched. find_on_path (system_env sy) searched = Inr d"
      by (auto simp: find_lldb_dap_def find_lldb_dap_with_def system_env_def split: option.splits if_splits)
    with search show ?thesis by blast
  qed
qed

text \<open>
  C29. A connection's process and its backend agree on how commands are passed. The program that is
  started is the one the override names, or an executable regular file of one of the known names in a
  directory of the search path, or on macOS what \<^verbatim>\<open>xcrun\<close> reports; it is given \<^verbatim>\<open>--repl-mode=command\<close> when
  its name is that of a debugger known to take it and no argument otherwise, and exactly in the
  second case the backend marks debugger commands with a backtick. The connection starts with nothing
  sent and nothing received.
\<close>

theorem connect_agrees_on_commands:
  assumes "factory_connect os show_json base64 peer lag = Inr cn"
  shows "\<exists>path capable pipes.
    co_start os path (if capable then [''--repl-mode=command''] else []) = Inr pipes \<and>
    (overridden (co_system os) path capable \<or> found_on_path (co_system os) path capable \<or>
     found_by_xcrun (co_system os) path capable) \<and>
    evaluate_request (lb_is_lldb_dap (cn_backend cn)) command fid Repl =
      req_evaluate (if capable then command else CHR 0x60 # command) None ''repl'' \<and>
    wo_log (cn_world cn) = [] \<and> wo_client (cn_world cn) = client_new \<and> cn_events cn = build_event_stream"
proof -
  from assms obtain d sub where d: "find_lldb_dap (co_system os) = Inr d"
    and sub: "spawn (co_start os) (co_quote os) (de_path d) (de_is_lldb_dap d) = Inr sub"
    and cn: "lb_is_lldb_dap (cn_backend cn) = sp_is_lldb_dap sub" "cn_world cn = world_new (co_process os (sp_stdin sub) (sp_stdout sub)) lag"
      "cn_events cn = build_event_stream"
    by (auto simp: factory_connect_def with_stderr_def lldb_over_def split: sum.splits)
  from sub have "sp_is_lldb_dap sub = de_is_lldb_dap d"
    "\<exists>pipes. co_start os (de_path d) (spawn_args (de_is_lldb_dap d)) = Inr pipes"
    by (auto simp: spawn_def split: sum.splits option.splits)
  with cn found_where [OF d] show ?thesis
    by (intro exI [of _ "de_path d"] exI [of _ "de_is_lldb_dap d"])
      (auto simp: spawn_args_def evaluate_request_def world_new_def)
qed


text \<open>A machine with an old debugger only, which refuses arguments.\<close>

definition old_machine :: "(nat, unit) connect_os" where
  "old_machine =
     \<lparr>co_system = \<lparr>sy_var = (\<lambda>_. None), sy_path_var = Some ''/usr/bin'',
        sy_metadata = (\<lambda>p. if p = ''/usr/bin/lldb-vscode'' then Some \<lparr>fm_is_file = True, fm_mode = 0x1ED\<rparr> else None),
        sy_xcrun = None, sy_is_macos = False\<rparr>,
      co_start = (\<lambda>path flags. if flags = [] then Inr \<lparr>ch_stdin = Some 0, ch_stdout = Some 1, ch_stderr = Some 2\<rparr>
        else Inl ''unknown argument''),
      co_quote = (\<lambda>p. p), co_child_id = (\<lambda>_. Some 7), co_process = (\<lambda>_ _. ()), co_stderr = (\<lambda>_. [])\<rparr>"

lemma old_machine_detects:
  "find_lldb_dap (co_system old_machine) = Inr \<lparr>de_path = ''/usr/bin/lldb-vscode'', de_is_lldb_dap = False\<rparr>"
proof -
  have "first_hit (system_env (co_system old_machine)) = Some \<lparr>de_path = ''/usr/bin/lldb-vscode'', de_is_lldb_dap = False\<rparr>"
    by (simp add: first_hit_def candidates_def system_env_def old_machine_def look_path_in_def path_join_def
        is_executable_file_def)
  from find_on_path_hit [OF this] show ?thesis
    by (simp add: find_lldb_dap_def find_lldb_dap_with_def) (simp add: system_env_def old_machine_def)
qed

theorem connect_agrees_on_commands_witness:
  "\<exists>cn. factory_connect old_machine (\<lambda>_. []) (\<lambda>_. Inl []) friendly [] = Inr cn \<and>
     evaluate_request (lb_is_lldb_dap (cn_backend cn)) ''bt'' None Repl = req_evaluate (CHR 0x60 # ''bt'') None ''repl''"
proof -
  obtain cn where cn: "factory_connect old_machine (\<lambda>_. []) (\<lambda>_. Inl []) friendly [] = Inr cn"
    unfolding factory_connect_def old_machine_detects
    by (simp add: spawn_def spawn_args_def) (simp add: old_machine_def)
  from connect_agrees_on_commands [OF cn, of "''bt''" None] obtain path capable pipes where
    "co_start old_machine path (if capable then [''--repl-mode=command''] else []) = Inr (pipes :: nat child_pipes)"
    "evaluate_request (lb_is_lldb_dap (cn_backend cn)) ''bt'' None Repl =
       req_evaluate (if capable then ''bt'' else CHR 0x60 # ''bt'') None ''repl''"
    by blast
  with cn show ?thesis by (auto simp: old_machine_def split: if_splits)
qed

section \<open>The server's machine over this factory\<close>

text \<open>
  The machine whose debugger is the one the factory finds. The answers of the operating system do
  not change, so all its connections have the same capability and process id.
\<close>

definition machine_on ::
  "('h, 'p) connect_os \<Rightarrow> text_env \<Rightarrow> (string \<Rightarrow> string + byte list) \<Rightarrow> 'p peer \<Rightarrow> nat list \<Rightarrow>
     ('p dap_side \<Rightarrow> 'p dap_side option) \<Rightarrow> (breakpoint_info list \<Rightarrow> breakpoint_info list) \<Rightarrow>
     ((string \<times> source_bp list) list \<Rightarrow> (string \<times> source_bp list) list) \<Rightarrow> 'p machine" where
  "machine_on os te base64 peer lag late bp_order file_order =
     (let r = factory_connect os (te_show_json te) base64 peer lag in
      \<lparr>ma_text = te, ma_base64 = base64, ma_peer = peer,
       ma_dial = (\<lambda>_. map_ok (\<lambda>cn. wo_peer (cn_world cn)) r), ma_lag = lag,
       ma_is_lldb_dap = (case r of Inr cn \<Rightarrow> lb_is_lldb_dap (cn_backend cn) | Inl _ \<Rightarrow> False),
       ma_pid = (case r of Inr cn \<Rightarrow> lb_pid (cn_backend cn) | Inl _ \<Rightarrow> None),
       ma_stderr = (case r of Inr cn \<Rightarrow> lb_stderr (cn_backend cn) | Inl _ \<Rightarrow> (\<lambda>_. None)),
       ma_late = late, ma_order = bp_order, ma_file_order = file_order\<rparr>)"

text \<open>The server's \<open>connect\<close> is the factory's, and the backend it calls is the factory's backend.\<close>

lemma connect_is_the_factory:
  fixes os te base64 peer lag late bp_order file_order
  defines "m \<equiv> machine_on os te base64 peer lag late bp_order file_order"
  shows "lldb_connect m s =
      (case factory_connect os (te_show_json te) base64 peer lag of
         Inl e \<Rightarrow> Some (Inl e, s)
       | Inr cn \<Rightarrow> Some (Inr (ds_next (sv_world s)), s\<lparr>sv_world := (sv_world s)
           \<lparr>ds_world := cn_world cn, ds_taken := es_taken (cn_events cn), ds_told := es_terminated_ended (cn_events cn),
            ds_next := Suc (ds_next (sv_world s))\<rparr>\<rparr>))"
    and "factory_connect os (te_show_json te) base64 peer lag = Inr cn \<Longrightarrow> lldb_of m = cn_backend cn"
  unfolding m_def
  by (auto simp: lldb_connect_def machine_on_def factory_connect_def build_event_stream_def world_new_def
      lldb_of_def lldb_over_def with_stderr_def Let_def split: sum.splits)

text \<open>The pump of the server takes its events from the stream: polled for output first, \<open>n\<close> times.\<close>

fun events_polled :: "bool list \<Rightarrow> client \<Rightarrow> event_stream \<Rightarrow> backend_event list \<times> event_stream" where
  "events_polled [] c es = ([], es)"
| "events_polled (b # bs) c es =
     (case poll_next b (channels_of (es_taken es) c) es of
        (Ready (Some e), es1) \<Rightarrow> (case events_polled bs c es1 of (evs, es2) \<Rightarrow> (e # evs, es2))
      | (Ready None, es1) \<Rightarrow> ([], es1)
      | (Pending, es1) \<Rightarrow> events_polled bs c es1)"

definition stream_of :: "'p dap_side \<Rightarrow> event_stream" where
  "stream_of d = \<lparr>es_taken = ds_taken d, es_output_ended = False, es_terminated_ended = ds_told d\<rparr>"


lemma stream_gives_pending:
  assumes "n \<le> length (pending_events d)"
  shows "fst (events_polled (replicate n True) (wo_client (ds_world d)) (stream_of d)) = take n (pending_events d) \<and>
    es_taken (snd (events_polled (replicate n True) (wo_client (ds_world d)) (stream_of d))) =
      ds_taken d + length (filter is_output (take n (pending_events d))) \<and>
    es_terminated_ended (snd (events_polled (replicate n True) (wo_client (ds_world d)) (stream_of d))) =
      (ds_told d \<or> length (filter is_output (take n (pending_events d))) < n)"
  using assms
proof (induction n arbitrary: d)
  case 0
  then show ?case by (simp add: stream_of_def)
next
  case (Suc n)
  let ?c = "wo_client (ds_world d)"
  show ?case
  proof (cases "drop (ds_taken d) (cl_output ?c)")
    case (Cons ch rest)
    let ?d = "d\<lparr>ds_taken := Suc (ds_taken d)\<rparr>"
    have pend: "pending_events d = Output (fst ch) (snd ch) # pending_events ?d"
      using Cons by (simp add: pending_events_def drop_Suc case_prod_beta flip: tl_drop split: cell.split)
    have "poll_next True (channels_of (ds_taken d) ?c) (stream_of d) = (Ready (Some (Output (fst ch) (snd ch))), stream_of ?d)"
      using Cons by (simp add: poll_next_def poll_both_def poll_output_def channels_of_def stream_of_def split: prod.split)
    with pend Suc.prems Suc.IH [of ?d] show ?thesis by (simp add: stream_of_def is_output_def case_prod_beta)
  next
    case Nil
    with Suc.prems obtain code where told: "cl_term ?c = Delivered code" "\<not> ds_told d" "n = 0"
      by (auto simp: pending_events_def split: cell.splits if_splits)
    have "poll_next True (channels_of (ds_taken d) ?c) (stream_of d) =
        (Ready (Some (TerminatedEv code)), (stream_of d)\<lparr>es_output_ended := cl_closed ?c \<noteq> None, es_terminated_ended := True\<rparr>)"
      using Nil told by (simp add: poll_next_def poll_both_def poll_output_def poll_terminated_def channels_of_def stream_of_def)
    with Nil told show ?thesis by (simp add: stream_of_def pending_events_def is_output_def)
  qed
qed

end
