(* ===== verification/Debug_Mcp.thy ===== *)
theory Debug_Mcp
  imports Factory
begin

text \<open>
  \<^verbatim>\<open>debug-mcp/src/main.rs\<close>: the binary makes the session, the factory and the server, hands the server to
  the protocol library and turns its errors into the exit code. \<open>serve\<close> and \<open>waiting\<close> are the library's:
  the first starts to serve on standard input and output, the second waits for the end.
\<close>

datatype exit_code = ExitSuccess | ExitFailure

definition server_error :: "string \<Rightarrow> string" where
  "server_error e = ''Server error: '' @ e"

text \<open>The exit code and the lines on standard error.\<close>

definition main_run ::
  "((nat, 'p dap_side) tool_server \<Rightarrow> string + 'r) \<Rightarrow> ('r \<Rightarrow> string + unit) \<Rightarrow> 'p dap_side \<Rightarrow> exit_code \<times> string list" where
  "main_run serve waiting d =
     (let server = tool_server_new session_new d in
      case serve server of
        Inl e \<Rightarrow> (ExitFailure, [server_error e])
      | Inr running \<Rightarrow>
          (case waiting running of
             Inl e \<Rightarrow> (ExitFailure, [server_error e])
           | Inr _ \<Rightarrow> (ExitSuccess, [])))"

lemma main_fails_with_a_line: "fst (main_run serve waiting d) = ExitFailure \<longleftrightarrow> snd (main_run serve waiting d) \<noteq> []"
  by (simp add: main_run_def Let_def split: sum.split)

text \<open>The server that is handed over has started no debugger: the factory is asked by the first launch.\<close>

lemma main_starts_idle:
  "\<exists>s. main_run serve waiting d = main_run (\<lambda>_. serve s) waiting d \<and> reachable_server m s \<and>
     sv_backend s = None \<and> sv_world s = d"
  by (rule exI [of _ "tool_server_new session_new d"])
    (auto simp: main_run_def tool_server_new_def intro: reachable_server.fresh [unfolded tool_server_new_def])

end
