(* ===== verification/Dual_Await.thy ===== *)
theory Dual_Await
  imports Dap_Client_Laws
begin

text \<open>
  \<^verbatim>\<open>Client::send_and_await_both\<close> of \<^verbatim>\<open>dap-client/src/client.rs\<close>: a request whose caller waits for its
  response and for the initialized event, whichever comes first, and the guard that removes the
  registration when the caller's future is dropped.
\<close>

section \<open>The guard\<close>

record abort_guard =
  ag_seq :: i64
  ag_armed :: bool

definition guard_new :: "i64 \<Rightarrow> abort_guard" where
  "guard_new sq = \<lparr>ag_seq = sq, ag_armed = True\<rparr>"

definition guard_disarm :: "abort_guard \<Rightarrow> abort_guard" where
  "guard_disarm g = g\<lparr>ag_armed := False\<rparr>"

definition guard_drop :: "abort_guard \<Rightarrow> client \<Rightarrow> client" where
  "guard_drop g c = (if ag_armed g then abort_pending (ag_seq g) c else c)"

text \<open>The cause handed to each waiter when the pending map is drained is a copy.\<close>

definition clone_backend_error :: "backend_error \<Rightarrow> backend_error" where
  "clone_backend_error err =
     (case err of
        Closed \<Rightarrow> Closed
      | Timeout \<Rightarrow> Timeout
      | Detect m \<Rightarrow> Detect m
      | Spawn m \<Rightarrow> Spawn m
      | Send m \<Rightarrow> Send m
      | Protocol ty \<Rightarrow> Protocol ty
      | Dap message \<Rightarrow> Dap message)"

section \<open>The two futures\<close>

text \<open>The future of \<^verbatim>\<open>wait_initialized\<close> does nothing until it is polled.\<close>

datatype init_future = NotPolled | Parked "nat option" | InitDone

definition poll_init :: "init_future \<Rightarrow> client \<Rightarrow> init_future \<times> client" where
  "poll_init f c =
     (case f of
        NotPolled \<Rightarrow> (case wait_initialized c of (ot, c') \<Rightarrow> (if init_done ot c' then InitDone else Parked ot, c'))
      | Parked ot \<Rightarrow> (if init_done ot c then InitDone else Parked ot, c)
      | InitDone \<Rightarrow> (InitDone, c))"

record dual_await =
  du_guard :: abort_guard
  du_receiver :: nat
  du_response :: "pending_result option"
  du_init :: init_future

definition dual_start :: "i64 \<Rightarrow> nat \<Rightarrow> dual_await" where
  "dual_start sq t = \<lparr>du_guard = guard_new sq, du_receiver = t, du_response = None, du_init = NotPolled\<rparr>"

definition dual_finished :: "dual_await \<Rightarrow> bool" where
  "dual_finished d \<longleftrightarrow> du_response d \<noteq> None \<and> du_init d = InitDone"

text \<open>
  One turn of the loop: \<^verbatim>\<open>select!\<close> polls the enabled branches, the one \<open>pick\<close> names first, and completes
  the first that is ready.
\<close>

definition select_response :: "dual_await \<Rightarrow> client \<Rightarrow> dual_await \<times> client" where
  "select_response d c = (d\<lparr>du_response := poll_response (du_receiver d) c\<rparr>, c)"

definition select_init :: "dual_await \<Rightarrow> client \<Rightarrow> dual_await \<times> client" where
  "select_init d c = (case poll_init (du_init d) c of (f, c') \<Rightarrow> (d\<lparr>du_init := f\<rparr>, c'))"

definition dual_turn :: "bool \<Rightarrow> dual_await \<times> client \<Rightarrow> dual_await \<times> client" where
  "dual_turn response_first dc =
     (case dc of (d, c) \<Rightarrow>
       if dual_finished d then (d, c)
       else if du_response d \<noteq> None then select_init d c
       else if du_init d = InitDone then select_response d c
       else if response_first then
         (if poll_response (du_receiver d) c \<noteq> None then select_response d c else select_init d c)
       else
         (case select_init d c of (d', c') \<Rightarrow>
            if du_init d' = InitDone then (d', c') else select_response d' c'))"

text \<open>The caller's turns among the steps of all other tasks.\<close>

inductive dual_steps :: "dual_await \<times> client \<Rightarrow> dual_await \<times> client \<Rightarrow> bool" where
  dual_refl: "dual_steps x x"
| dual_other: "dual_steps x (d, c) \<Longrightarrow> client_step c c' \<Longrightarrow> dual_steps x (d, c')"
| dual_poll: "dual_steps x dc \<Longrightarrow> dual_steps x (dual_turn pick dc)"

definition dual_result :: "dual_await \<Rightarrow> abort_guard \<times> pending_result option" where
  "dual_result d = (guard_disarm (du_guard d), du_response d)"

section \<open>Laws\<close>

lemma clone_backend_error_id: "clone_backend_error err = err"
  by (cases err) (simp_all add: clone_backend_error_def)

lemma guard_drop_forgets:
  "hm_get (cl_pending (guard_drop (guard_new sq) c)) sq = None"
  "sq' \<noteq> sq \<Longrightarrow> hm_get (cl_pending (guard_drop (guard_new sq) c)) sq' = hm_get (cl_pending c) sq'"
  "guard_drop (guard_disarm g) c = c"
  by (simp_all add: guard_drop_def guard_new_def guard_disarm_def abort_pending_def remove_pending_def hm_get_remove)

definition dual_ok :: "nat \<Rightarrow> i64 \<Rightarrow> dual_await \<times> client \<Rightarrow> bool" where
  "dual_ok t sq dc \<longleftrightarrow>
     (case dc of (d, c) \<Rightarrow>
        client_ok c \<and> du_guard d = guard_new sq \<and> du_receiver d = t \<and> t < length (cl_responses c) \<and>
        (du_response d = None \<or> poll_response t c = du_response d) \<and>
        (\<forall>ot. du_init d = Parked ot \<longrightarrow> (\<exists>u < length (cl_inits c). ot = Some u)))"

lemma poll_response_stays:
  "all_settled_in c c' \<Longrightarrow> t < length (cl_responses c) \<Longrightarrow> poll_response t c \<noteq> None \<Longrightarrow>
     poll_response t c' = poll_response t c"
  by (auto simp: all_settled_in_def settled_in_def poll_response_def split: cell.splits)

lemma settled_lengths:
  "all_settled_in c c' \<Longrightarrow> length (cl_responses c) \<le> length (cl_responses c') \<and> length (cl_inits c) \<le> length (cl_inits c')"
  by (simp add: all_settled_in_def settled_in_def)

lemma poll_init_ok:
  assumes "client_ok c" "poll_init f c = (f', c')" "\<forall>ot. f = Parked ot \<longrightarrow> (\<exists>u < length (cl_inits c). ot = Some u)"
  shows "client_ok c' \<and> cl_responses c' = cl_responses c \<and> (\<forall>ot. f' = Parked ot \<longrightarrow> (\<exists>u < length (cl_inits c'). ot = Some u))"
  using assms client_step_ok [OF step_wait_initialized [OF refl] assms(1)]
  by (auto simp: poll_init_def wait_initialized_def init_done_def Let_def split: init_future.splits if_splits)

lemma poll_init_fired:
  assumes "client_ok c" "cl_fired c" "\<forall>ot. f = Parked ot \<longrightarrow> (\<exists>u < length (cl_inits c). ot = Some u)"
  shows "poll_init f c = (InitDone, c)"
proof -
  from assms(1,2) have "cl_inits c ! u \<noteq> Waiting" if "u < length (cl_inits c)" for u
    using that by (auto simp: client_ok_def signals_ok_def slot_ok_def)
  with assms(2,3) show ?thesis
    by (auto simp: poll_init_def wait_initialized_def init_done_def split: init_future.split)
qed

lemma dual_ok_turn: "dual_ok t sq dc \<Longrightarrow> dual_ok t sq (dual_turn pick dc)"
proof -
  assume ok: "dual_ok t sq dc"
  obtain d c where dc: "dc = (d, c)" by (cases dc)
  obtain f c' where pi: "poll_init (du_init d) c = (f, c')" by (cases "poll_init (du_init d) c")
  from poll_init_ok [OF _ pi] ok dc show ?thesis
    by (auto simp: dual_ok_def dual_turn_def select_init_def select_response_def pi poll_response_def)
qed

lemma dual_ok_steps: "dual_steps x y \<Longrightarrow> dual_ok t sq x \<Longrightarrow> dual_ok t sq y"
proof (induction rule: dual_steps.induct)
  case (dual_refl x)
  then show ?case .
next
  case (dual_other x d c c')
  then have ok: "dual_ok t sq (d, c)" by simp
  then have "all_settled_in c c'" "client_ok c'"
    using dual_other.hyps(2) by (auto simp: dual_ok_def intro: client_step_settled client_step_ok)
  with ok show ?case
    using settled_lengths [of c c'] poll_response_stays [of c c' t] by (auto simp: dual_ok_def) force+
next
  case (dual_poll x dc pick)
  then show ?case using dual_ok_turn by blast
qed

text \<open>
  C28. The wait for a response and the initialized event does not depend on their order. Whatever other
  tasks did and however the caller was scheduled: a response it holds is the one its receiver got;
  once the response and the event are both there, two more turns return exactly that response,
  whichever branch is polled first; and without a response no turn returns. A caller that is
  cancelled instead leaves no registration of its own and every other one untouched.
\<close>

theorem dual_await_any_order:
  assumes "reachable_client c0" "t < length (cl_responses c0)" "dual_steps (dual_start sq t, c0) (d, c)"
  shows "(du_response d \<noteq> None \<longrightarrow> du_response d = poll_response t c) \<and>
    (poll_response t c \<noteq> None \<and> cl_fired c \<longrightarrow>
       (let (d', c') = dual_turn p2 (dual_turn p1 (d, c)) in
        dual_finished d' \<and> dual_result d' = (guard_disarm (guard_new sq), poll_response t c))) \<and>
    (dual_finished (fst (dual_turn p1 (d, c))) \<longrightarrow> poll_response t c \<noteq> None) \<and>
    hm_get (cl_pending (guard_drop (du_guard d) c)) sq' =
      (if sq' = sq then None else hm_get (cl_pending c) sq')"
proof -
  have "dual_ok t sq (dual_start sq t, c0)"
    using assms(1,2) by (simp add: dual_ok_def dual_start_def reachable_client_ok)
  from dual_ok_steps [OF assms(3) this] have ok: "dual_ok t sq (d, c)" .
  then have co: "client_ok c" and g: "du_guard d = guard_new sq" and rx: "du_receiver d = t"
    and held: "du_response d \<noteq> None \<Longrightarrow> du_response d = poll_response t c"
    and parked: "\<forall>ot. du_init d = Parked ot \<longrightarrow> (\<exists>u < length (cl_inits c). ot = Some u)"
    by (auto simp: dual_ok_def)
  have fin: "dual_finished (fst (dual_turn p2 (dual_turn p1 (d, c)))) \<and>
      dual_result (fst (dual_turn p2 (dual_turn p1 (d, c)))) = (guard_disarm (guard_new sq), poll_response t c)"
    if "poll_response t c \<noteq> None" "cl_fired c"
  proof -
    from that(1) obtain r where r: "poll_response t c = Some r" by blast
    with held have "du_response d = None \<or> du_response d = Some r" by (cases "du_response d") auto
    with r g rx poll_init_fired [OF co that(2) parked] show ?thesis
      by (cases "du_init d = InitDone"; cases p1; cases p2)
        (auto simp: dual_turn_def dual_finished_def dual_result_def select_init_def select_response_def)
  qed
  have needs: "poll_response t c \<noteq> None" if "dual_finished (fst (dual_turn p1 (d, c)))"
  proof -
    have "dual_ok t sq (dual_turn p1 (d, c))" using ok by (rule dual_ok_turn)
    moreover have "cl_responses (snd (dual_turn p1 (d, c))) = cl_responses c"
      using poll_init_ok [OF co _ parked]
      by (auto simp: dual_turn_def select_init_def select_response_def split: prod.split)
    ultimately show ?thesis
      using that by (cases "dual_turn p1 (d, c)") (auto simp: dual_ok_def dual_finished_def poll_response_def)
  qed
  show ?thesis
    using held fin needs g guard_drop_forgets by (auto simp: case_prod_beta Let_def)
qed

text \<open>A request whose response comes before the event.\<close>

definition initialized_after :: client where
  "initialized_after = dispatch_message (MEvent EvInitialized) answered"

lemma initialized_after_facts:
  "cl_fired initialized_after" "cl_responses initialized_after = cl_responses answered"
  "dual_steps (x, answered) (x, initialized_after)"
proof -
  have opened: "cl_closed answered = None"
    using remove_pending_same(3) [where c = two_sent] by (simp add: answered_def two_sent_simps)
  show "cl_fired initialized_after" "cl_responses initialized_after = cl_responses answered"
    by (simp_all add: initialized_after_def signal_initialized_def split: option.split)
  show "dual_steps (x, answered) (x, initialized_after)"
    unfolding initialized_after_def by (rule dual_other [OF dual_refl step_message [OF opened refl]])
qed

theorem dual_await_any_order_witness:
  "dual_result (fst (dual_turn False (dual_turn True (dual_start 2 1, initialized_after)))) =
     (guard_disarm (guard_new 2), Some (Inr (MResponse second_answer)))"
  using dual_await_any_order [OF answered_reachable _ initialized_after_facts(3), of 1 2 False True]
  by (simp add: initialized_after_facts answered_responses poll_response_def case_prod_beta)

end
