(* ===== verification/Test_Harness.thy ===== *)
theory Test_Harness
  imports Breakpoint_Sync Detect
begin

text \<open>
  \<^verbatim>\<open>integration-tests/src/harness.rs\<close>: the server driven in process, every call under a time limit. A
  check that fails panics; a panic is the left side of a result, its message the string. How the
  standard library prints a value for debugging is a parameter, durations are whole seconds.
\<close>

section \<open>Calls with a limit\<close>

text \<open>
  \<open>he_timer n s\<close> is \<open>Some s'\<close> when the limit of \<open>n\<close> seconds is over before the call is done and the
  server is then \<open>s'\<close>; \<open>he_stuck\<close> is the server at the limit of a call that would never return.
\<close>

record ('b, 'w) harness_env =
  he_env :: "('b, 'w) tool_env"
  he_timer :: "nat \<Rightarrow> ('b, 'w) tool_server \<Rightarrow> ('b, 'w) tool_server option"
  he_stuck :: "('b, 'w) tool_server \<Rightarrow> ('b, 'w) tool_server"
  he_debug_json :: "json \<Rightarrow> string"
  he_debug_str :: "string \<Rightarrow> string"
  he_debug_outcome :: "tool_outcome \<Rightarrow> string"
  he_system :: system
  he_manifest_dir :: string

type_synonym ('b, 'w, 'a) checked = "('b, 'w, string + 'a) task"

definition harness_new :: "'w \<Rightarrow> ('b, 'w) tool_server" where
  "harness_new w = tool_server_new session_new w"

definition never_cancelled :: "('b, 'w) cancel" where
  "never_cancelled s = None"

definition server_call ::
  "('b, 'w) tool_env \<Rightarrow> string \<Rightarrow> args \<Rightarrow> ('b, 'w) cancel \<Rightarrow> ('b, 'w, tool_outcome) task" where
  "server_call env name a ct = dispatch env name a ct"

definition hung :: "string \<Rightarrow> nat \<Rightarrow> string" where
  "hung name secs =
     ''tool '' @ quoted name @ '' did not return within '' @ show_nat secs @ ''s (handler hung)''"

definition harness_call :: "('b, 'w) harness_env \<Rightarrow> string \<Rightarrow> args \<Rightarrow> nat \<Rightarrow> ('b, 'w, tool_outcome) checked" where
  "harness_call he name a secs s =
     (case he_timer he secs s of
        Some s' \<Rightarrow> Some (Inl (hung name secs), s')
      | None \<Rightarrow>
          (case server_call (he_env he) name a never_cancelled s of
             Some (out, t) \<Rightarrow> Some (Inr out, t)
           | None \<Rightarrow> Some (Inl (hung name secs), he_stuck he s)))"

definition DEFAULT_CALL_TIMEOUT :: nat where "DEFAULT_CALL_TIMEOUT = 30"

definition call_default :: "('b, 'w) harness_env \<Rightarrow> string \<Rightarrow> args \<Rightarrow> ('b, 'w, tool_outcome) checked" where
  "call_default he name a = harness_call he name a DEFAULT_CALL_TIMEOUT"

definition obj_of :: "(string \<times> json) list \<Rightarrow> args" where
  "obj_of pairs = fold (\<lambda>(k, v). bt_insert k v) pairs []"

definition expect_json_obj :: "('b, 'w) harness_env \<Rightarrow> string \<Rightarrow> tool_outcome \<Rightarrow> string + jmap" where
  "expect_json_obj he label outcome =
     (case outcome of
        Json (JObj m) \<Rightarrow> Inr m
      | Json other \<Rightarrow> Inl (label @ '': expected JSON object, got '' @ he_debug_json he other)
      | Text t \<Rightarrow> Inl (label @ '': expected JSON success, got plain text '' @ he_debug_str he t)
      | Error e \<Rightarrow> Inl (label @ '': expected JSON success, got tool error '' @ he_debug_str he e))"

definition expect_error :: "('b, 'w) harness_env \<Rightarrow> string \<Rightarrow> tool_outcome \<Rightarrow> string + string" where
  "expect_error he label outcome =
     (case outcome of
        Error m \<Rightarrow> Inr m
      | other \<Rightarrow> Inl (label @ '': expected a tool error, got '' @ he_debug_outcome he other))"

definition launch_fixture :: "('b, 'w) harness_env \<Rightarrow> string \<Rightarrow> ('b, 'w, jmap) checked" where
  "launch_fixture he fixture =
     try_then (harness_call he ''launch'' (obj_of [(''program'', JStr fixture), (''stop_on_entry'', JBool True)]) 30)
       (\<lambda>out. ret (expect_json_obj he ''launch'' out))"

definition harness_continue :: "('b, 'w) harness_env \<Rightarrow> ('b, 'w, jmap) checked" where
  "harness_continue he =
     try_then (harness_call he ''continue'' [] 30) (\<lambda>out. ret (expect_json_obj he ''continue'' out))"

definition disconnect_cleanup :: "('b, 'w) harness_env \<Rightarrow> ('b, 'w, unit) checked" where
  "disconnect_cleanup he =
     try_then (harness_call he ''disconnect'' (obj_of [(''terminate'', JBool True)]) 10) (\<lambda>_. ret (Inr ()))"

section \<open>What a live test needs\<close>

text \<open>\<^verbatim>\<open>Path::parent\<close> on a normalised path.\<close>

definition path_parent :: "string \<Rightarrow> string option" where
  "path_parent p =
     (if CHR ''/'' \<notin> set p then if p = [] then None else Some []
      else let dir = rev (tl (dropWhile (\<lambda>c. c \<noteq> CHR ''/'') (rev p))) in
        if p = ''/'' then None else if dir = [] then Some ''/'' else Some dir)"

definition workspace_root :: "('b, 'w) harness_env \<Rightarrow> string + string" where
  "workspace_root he =
     (case (case path_parent (he_manifest_dir he) of None \<Rightarrow> None | Some d \<Rightarrow> path_parent d) of
        Some d \<Rightarrow> Inr d
      | None \<Rightarrow> Inl ''workspace root above crates/integration-tests'')"

definition fixture_path :: "('b, 'w) harness_env \<Rightarrow> string \<Rightarrow> string + string" where
  "fixture_path he name = map_ok (\<lambda>root. path_join (path_join root ''testdata'') name) (workspace_root he)"

definition lldb_dap_available :: "('b, 'w) harness_env \<Rightarrow> bool" where
  "lldb_dap_available he = (case find_lldb_dap (he_system he) of Inr _ \<Rightarrow> True | Inl _ \<Rightarrow> False)"

text \<open>The first fixture that is missing; the outer sum is the panic.\<close>

fun missing_fixture :: "('b, 'w) harness_env \<Rightarrow> string list \<Rightarrow> string + string option" where
  "missing_fixture he [] = Inr None"
| "missing_fixture he (name # names) =
     and_then (fixture_path he name) (\<lambda>p.
       if sy_metadata (he_system he) p = None then Inr (Some p) else missing_fixture he names)"

definition live_prereqs :: "('b, 'w) harness_env \<Rightarrow> string list \<Rightarrow> string + (string + unit)" where
  "live_prereqs he fixtures =
     (if \<not> lldb_dap_available he then Inr (Inl ''lldb-dap not found (set LLDB_DAP_PATH or install lldb-dap)'')
      else map_ok (\<lambda>missing.
        case missing of
          Some p \<Rightarrow> Inl (''fixture '' @ he_debug_str he p @ '' missing '' @ [CHR 0xE2, CHR 0x80, CHR 0x94] @
                       '' run `make -C testdata` to build the C fixtures'')
        | None \<Rightarrow> Inr ()) (missing_fixture he fixtures))"

text \<open>Whether to skip, and the line that is logged then.\<close>

definition should_skip :: "('b, 'w) harness_env \<Rightarrow> string \<Rightarrow> string list \<Rightarrow> string + bool \<times> string option" where
  "should_skip he test_name fixtures =
     map_ok (\<lambda>r.
       case r of
         Inr () \<Rightarrow> (False, None)
       | Inl reason \<Rightarrow> (True, Some (''SKIP '' @ test_name @ '': '' @ reason))) (live_prereqs he fixtures)"

section \<open>The answer to a launch\<close>

text \<open>What a reply of \<^verbatim>\<open>launch\<close> or \<^verbatim>\<open>attach\<close> says of the session.\<close>

definition tells_session :: "jmap \<Rightarrow> session \<Rightarrow> bool" where
  "tells_session m s \<longleftrightarrow>
     ss_state s \<in> {SStopped, Running} \<and>
     bt_get m ''state'' = Some (JStr (show_state (ss_state s))) \<and>
     bt_get m ''program'' = Some (JStr (ss_program s)) \<and> bt_get m ''pid'' = Some (jint (ss_pid s)) \<and>
     (ss_state s = SStopped \<longrightarrow> (\<exists>info. ss_last_stopped s = Some info \<and>
        bt_get m ''stop_reason'' = Some (JStr (si_reason info)) \<and>
        bt_get m ''stopped_thread_id'' = Some (jint (si_thread_id info))))"

definition reply_true :: "tool_outcome \<Rightarrow> ('b, 'w) tool_server \<Rightarrow> bool" where
  "reply_true out t \<longleftrightarrow> (\<forall>v. out = Json v \<longrightarrow> (\<exists>m. v = JObj m \<and> tells_session m (sv_session t)))"

lemma reply_true_plain [simp]: "reply_true (Error e) t" "reply_true (Text x) t"
  by (simp_all add: reply_true_def)

lemma post_any:
  "(\<And>e t. Q (Error e) t) \<Longrightarrow> (\<And>t. post p t Q) \<Longrightarrow> post (guarded_by allowed p) s Q"
  by (auto simp: post_def guarded_by_def split: sum.splits)

lemma post_bind: "(\<And>x t. post (f x) t Q) \<Longrightarrow> post (seq p f) s Q"
  by (auto simp: post_def seq_def split: option.splits)

lemma named_after:
  "ss_program (set_pid i s) = ss_program s" "ss_program (set_program p s) = p" "ss_pid (set_pid i s) = i"
  by (simp_all add: set_pid_def set_program_def)

lemma launch_report_true: "post (launch_report program o_pid outcome) s reply_true"
proof (cases outcome)
  case (LStopped info)
  then show ?thesis
    by (auto simp: launch_report_def stopped_at_start_def post_def seq_def modify_session_def read_session_def ret_def
        reply_true_def tells_session_def into_outcome_def started_stopped_def started_def resp_build_def
        set_state_def set_last_stopped_def set_program_def set_pid_def split: option.splits)
next
  case LRunning
  then show ?thesis
    by (auto simp: launch_report_def post_def seq_def modify_session_def read_session_def ret_def reply_true_def
        tells_session_def into_outcome_def started_def resp_build_def set_state_def set_program_def set_pid_def
        split: option.splits)
next
  case (LExited code)
  then show ?thesis
    by (auto simp: launch_report_def post_def seq_def modify_session_def read_session_def ret_def)
qed

lemma attach_report_true: "post (attach_report label o_pid o_dbg outcome) s reply_true"
proof (cases outcome)
  case (AStopped info)
  then show ?thesis
    by (auto simp: attach_report_def stopped_at_start_def post_def seq_def modify_session_def read_session_def ret_def
        reply_true_def tells_session_def into_outcome_def started_stopped_def started_def resp_build_def
        set_state_def set_last_stopped_def set_program_def set_pid_def split: option.splits)
qed (auto simp: attach_report_def post_def seq_def modify_session_def read_session_def ret_def)

lemma handshake_true: "(\<And>x t. post (k x) t reply_true) \<Longrightarrow> post (handshake env ct msg p k) s reply_true"
  unfolding handshake_def by (intro post_bind) (auto intro!: post_bind post_ret split: option.split sum.split)

lemma connected_true: "(\<And>b t. post (k b) t reply_true) \<Longrightarrow> post (connected env k) s reply_true"
  unfolding connected_def by (intro post_bind) (auto intro!: post_bind post_ret split: sum.split)

lemma launch_true: "post (handle_launch env a ct) s reply_true" "post (handle_attach env a ct) s reply_true"
  unfolding handle_launch_def handle_attach_def arg_or_def Let_def
  by (auto intro!: post_any post_bind post_ret connected_true handshake_true launch_report_true attach_report_true
      split: sum.split prod.split)

text \<open>
  C16. A successful answer of \<^verbatim>\<open>launch\<close> or \<^verbatim>\<open>attach\<close> tells the truth about the session it leaves, whatever
  the debugger did and whatever ran during the waits: the state it names is the session's, stopped or
  running; program and process id are the recorded ones; and when stopped, reason and thread are those
  of the recorded stop.
\<close>

theorem launch_reply_is_true:
  assumes "name \<in> {''launch'', ''attach''}" "dispatch env name a ct s = Some (Json v, t)"
  shows "\<exists>m. v = JObj m \<and> tells_session m (sv_session t)"
proof -
  from assms have "handle_launch env a ct s = Some (Json v, t) \<or> handle_attach env a ct s = Some (Json v, t)"
    by (auto simp: dispatch_def)
  then have "reply_true (Json v) t" using postD [OF launch_true(1)] postD [OF launch_true(2)] by blast
  then show ?thesis by (simp add: reply_true_def)
qed

text \<open>A debugger that lets every program run.\<close>

definition running_api :: "(unit, nat) backend_api" where
  "running_api = closed_api\<lparr>ba_launch := (\<lambda>_. ret (Inr LRunning))\<rparr>"

theorem launch_reply_is_true_witness:
  "\<exists>m t. dispatch (env_with running_api) ''launch'' start_call (\<lambda>_. None) (tool_server_new session_new 0) =
       Some (Json (JObj m), t) \<and>
     ss_state (sv_session t) = Running \<and> bt_get m ''state'' = Some (JStr ''running'')"
proof -
  obtain v t where d: "dispatch (env_with running_api) ''launch'' start_call (\<lambda>_. None) (tool_server_new session_new 0) = Some (Json v, t)"
    and st: "ss_state (sv_session t) = Running"
    by (simp add: dispatch_def handle_launch_def guarded_by_def check_state_def tool_server_new_def session_new_def
        start_call_args run_task_defs set_state_def flush_pending_breakpoints_def connected_def env_with_def
        set_backend_def spawn_event_pump_def handshake_def select_cancel_def launch_report_def running_api_def
        closed_api_def into_outcome_def Let_def)
  from launch_reply_is_true [OF _ d] obtain m where "v = JObj m" "tells_session m (sv_session t)" by auto
  with d st show ?thesis by (auto simp: tells_session_def)
qed

text \<open>Through the harness: a launch of a fixture always ends, with a panic or with such an answer.\<close>

lemma launch_fixture_ends:
  "\<exists>r t. launch_fixture he fixture s = Some (r, t) \<and> (\<forall>m. r = Inr m \<longrightarrow> tells_session m (sv_session t))"
proof -
  have truth: "tells_session m (sv_session t)"
    if "dispatch (he_env he) ''launch'' a never_cancelled s = Some (Json (JObj m), t)" for a m t
    using that postD [OF launch_true(1)] by (fastforce simp: dispatch_def reply_true_def)
  show ?thesis
    by (auto simp: launch_fixture_def harness_call_def server_call_def try_then_def seq_def ret_def expect_json_obj_def
        dest: truth split: option.split tool_outcome.split json.split)
qed

end
