(* ===== verification/Launch_Progress.thy ===== *)
theory Launch_Progress
  imports Lldb_Progress Lldb_Server Test_Harness
begin

text \<open>
  A launch on the whole server: against a debugger that answers, the tool call returns, with an answer
  that fits what the program did.
\<close>

abbreviation first_stop :: "(nat, 'p dap_side) tool_server \<Rightarrow> stop_outcome" where
  "first_stop t \<equiv> hd (concat (map stop_event (emitted (ds_world (sv_world t)))))"

lemma run_pump_frame [simp]:
  "sv_backend (run_pump s) = sv_backend s" "ds_world (sv_world (run_pump s)) = ds_world (sv_world s)"
  by (simp_all add: run_pump_def Let_def split: option.split prod.split)

text \<open>What the call asks of the debugger: the arguments and the breakpoints that are pending.\<close>

definition asked_launch ::
  "'p machine \<Rightarrow> args \<Rightarrow> session \<Rightarrow> string \<Rightarrow> string list \<Rightarrow> (string \<times> string) list \<Rightarrow> launch_spec" where
  "asked_launch m a s program pargs environment =
     (let cwd = get_string a ''cwd'' [] in
      \<lparr>ls_program = program, ls_args = pargs, ls_cwd = (if cwd = [] then None else Some cwd), ls_env = environment,
       ls_stop_on_entry = get_bool a ''stop_on_entry'' True,
       ls_source_breakpoints = ma_file_order m (ss_pending_source_bps s), ls_function_breakpoints = ss_pending_function_bps s\<rparr>)"

text \<open>
  The handler around the handshake of a connection that was made: the server when the handshake has
  left the world \<open>w\<close> and the pump has had its turn, and the report from there.
\<close>

definition handshake_done :: "(nat, 'p dap_side) tool_server \<Rightarrow> 'p world \<Rightarrow> (nat, 'p dap_side) tool_server" where
  "handshake_done s w =
     (let b = ds_next (sv_world s);
          c = snd (flush_pending_breakpoints (set_state Configuring (sv_session s)))
      in run_pump (s\<lparr>sv_session := c, sv_backend := Some b, sv_pumps := sv_pumps s @ [(b, ss_generation c)],
           sv_world := (sv_world s)\<lparr>ds_taken := 0, ds_told := False, ds_next := Suc b, ds_world := w\<rparr>\<rparr>))"

lemma handshake_done_frame [simp]:
  "sv_backend (handshake_done s w) = Some (ds_next (sv_world s))" "ds_world (sv_world (handshake_done s w)) = w"
  by (simp_all add: handshake_done_def Let_def)

lemma launch_around_handshake:
  fixes m :: "'p machine" and s :: "(nat, 'p dap_side) tool_server"
  assumes "ss_state (sv_session s) = Idle" "ma_dial m (ds_next (sv_world s)) = Inr q"
    and "require_string a ''program'' = Inr program" "parse_json_array (ma_text m) a ''args'' = Inr pargs"
    and "parse_json_object (ma_text m) a ''env'' = Inr environment"
    and "run_launch (lldb_of m) (asked_launch m a (sv_session s) program pargs environment) (world_new q (ma_lag m)) =
      Some (Inr outcome, w)"
  shows "dispatch (lldb_env m) ''launch'' a (\<lambda>_. None) s = launch_report program (ma_pid m) outcome (handshake_done s w)"
proof -
  let ?c = "set_state Configuring (sv_session s)"
  have p: "fst (flush_pending_breakpoints ?c) = (ss_pending_source_bps (sv_session s), ss_pending_function_bps (sv_session s))"
    by (simp add: flush_pending_breakpoints_def set_state_def Let_def)
  show ?thesis
    using assms p
    by (simp add: dispatch_def handle_launch_def guarded_by_def check_state_def run_task_defs connected_def
        lldb_connect_def set_backend_def spawn_event_pump_def handshake_def select_cancel_def lldb_api_def on_dap_def
        asked_launch_def handshake_done_def Let_def split_beta)
qed

text \<open>What a successful handshake leaves, by its outcome.\<close>

lemma launch_report_gives:
  "\<exists>out t. launch_report program o_pid outcome u = Some (out, t) \<and>
     sv_backend t = sv_backend u \<and> ds_world (sv_world t) = ds_world (sv_world u) \<and>
     (case outcome of
        LStopped info \<Rightarrow> (\<exists>v. out = Json v) \<and> ss_state (sv_session t) = SStopped \<and> ss_last_stopped (sv_session t) = Some info
      | LRunning \<Rightarrow> (\<exists>v. out = Json v) \<and> ss_state (sv_session t) = Running
      | LExited _ \<Rightarrow> out = Text ''Program exited during launch'' \<and> ss_state (sv_session t) = STerminated)"
  by (cases outcome)
    (auto simp: launch_report_def stopped_at_start_def run_task_defs into_outcome_def set_last_stopped_def set_state_def)

text \<open>
  C4. Launching works. On an idle server whose debugger answers every request (the launch request at
  the latest after configurationDone), a launch that is not cancelled returns, whatever the schedule of
  the read loop, the pace of the pump and the breakpoints pending. Without stop on entry the session
  is running. With it, the first stop or exit the debugger reports decides: stopped there, with
  that stop recorded, or terminated.
\<close>

theorem launch_succeeds:
  assumes "cooperative (ma_peer m) owes" "ma_dial m (ds_next (sv_world s)) = Inr q" "owes q = None"
    and "ss_state (sv_session s) = Idle"
    and "require_string a ''program'' = Inr program" "parse_json_array (ma_text m) a ''args'' = Inr pargs"
    and "parse_json_object (ma_text m) a ''env'' = Inr environment"
    and "get_bool a ''stop_on_entry'' True \<Longrightarrow> waits_for_done (ma_peer m) \<and> stops_when_done (ma_peer m)"
    and "length (ma_file_order m (ss_pending_source_bps (sv_session s))) < 2 ^ 62"
  shows "\<exists>out t. dispatch (lldb_env m) ''launch'' a (\<lambda>_. None) s = Some (out, t) \<and> sv_backend t \<noteq> None \<and>
    (if get_bool a ''stop_on_entry'' True then
       (case first_stop t of
          Stopped info \<Rightarrow> (\<exists>v. out = Json v) \<and> ss_state (sv_session t) = SStopped \<and> ss_last_stopped (sv_session t) = Some info
        | _ \<Rightarrow> out = Text ''Program exited during launch'' \<and> ss_state (sv_session t) = STerminated)
     else (\<exists>v. out = Json v) \<and> ss_state (sv_session t) = Running)"
proof -
  let ?spec = "asked_launch m a (sv_session s) program pargs environment"
  have spec: "ls_stop_on_entry ?spec = get_bool a ''stop_on_entry'' True" "length (launch_requests ?spec) < 2 ^ 63"
    using assms(9) by (simp_all add: asked_launch_def launch_requests_def Let_def)
  have tr: "lb_transport (lldb_of m) = dap_transport (te_show_json (ma_text m)) (ma_peer m)"
    by (simp add: lldb_of_def)
  from cooperative_launch [OF tr assms(1,3) spec(2)] spec(1) assms(8) obtain outcome w where
    w: "run_launch (lldb_of m) ?spec (world_new q (ma_lag m)) = Some (Inr outcome, w)"
    and o: "if get_bool a ''stop_on_entry'' True
      then outcome = launch_outcome_of (Some (hd (concat (map stop_event (emitted w))))) else outcome = LRunning"
    by metis
  let ?u = "handshake_done s w"
  have u: "dispatch (lldb_env m) ''launch'' a (\<lambda>_. None) s = launch_report program (ma_pid m) outcome ?u"
    by (rule launch_around_handshake [OF assms(4,2,5-7) w])
  from launch_report_gives [of program "ma_pid m" outcome ?u] obtain out t where
    t: "launch_report program (ma_pid m) outcome ?u = Some (out, t)"
      "sv_backend t = sv_backend ?u" "ds_world (sv_world t) = ds_world (sv_world ?u)"
    and r: "case outcome of
       LStopped info \<Rightarrow> (\<exists>v. out = Json v) \<and> ss_state (sv_session t) = SStopped \<and> ss_last_stopped (sv_session t) = Some info
     | LRunning \<Rightarrow> (\<exists>v. out = Json v) \<and> ss_state (sv_session t) = Running
     | LExited _ \<Rightarrow> out = Text ''Program exited during launch'' \<and> ss_state (sv_session t) = STerminated"
    by blast
  from t r u o show ?thesis
    by (intro exI [of _ out] exI [of _ t]) (auto simp: launch_outcome_of_def split: stop_outcome.splits if_splits)
qed

text \<open>A debugger that answers the launch request after configurationDone; its state is the number it owes.\<close>

definition obliging :: "i64 option peer" where
  "obliging r p =
     (if rq_command r = ''launch'' then
        (Emits (MEvent EvInitialized # (case p of None \<Rightarrow> [] | Some i \<Rightarrow> [ok_response i ''launch''])) False, Some (rq_seq r))
      else if rq_command r = ''configurationDone'' then
        (Emits ([ok_response (rq_seq r) (rq_command r), MEvent (EvStopped entry_stop)] @
           (case p of None \<Rightarrow> [] | Some i \<Rightarrow> [ok_response i ''launch''])) False, None)
      else (Emits [ok_response (rq_seq r) (rq_command r)] False, p))"

lemma cooperative_obliging: "cooperative obliging (\<lambda>p. p)"
  unfolding cooperative_def
proof (intro allI)
  fix r and p :: "i64 option"
  show "\<exists>ms p'. obliging r p = (Emits ms False, p') \<and>
        (\<forall>q. MResponse q \<in> set ms \<longrightarrow> re_success q \<and>
           (re_request_seq q = rq_seq r \<and> re_command q = rq_command r \<or>
            p = Some (re_request_seq q) \<and> re_command q = ''launch'')) \<and>
        (\<forall>i. i = rq_seq r \<or> p = Some i \<longrightarrow> responded i ms \<or> p' = Some i) \<and>
        (\<forall>i. p' = Some i \<longrightarrow> p = Some i \<or> rq_command r = ''launch'' \<and> i = rq_seq r) \<and>
        (rq_command r = ''configurationDone'' \<longrightarrow> p' = None) \<and>
        (rq_command r = ''launch'' \<longrightarrow> MEvent EvInitialized \<in> set ms)"
  proof (cases p)
    case None
    then show ?thesis by (simp add: obliging_def ok_response_def responded_Cons)
  next
    case (Some i)
    then show ?thesis by (simp add: obliging_def ok_response_def responded_Cons)
  qed
qed

lemma obliging_stops: "waits_for_done obliging" "stops_when_done obliging"
  by (auto simp: waits_for_done_def stops_when_done_def obliging_def ok_response_def split: option.split)

definition obliging_machine :: "i64 option machine" where
  "obliging_machine =
     \<lparr>ma_text = plain_text, ma_base64 = (\<lambda>_. Inl []), ma_peer = obliging, ma_dial = (\<lambda>_. Inr None), ma_lag = sample_lag,
      ma_is_lldb_dap = True, ma_pid = Some 99, ma_stderr = (\<lambda>_. None), ma_late = (\<lambda>_. None), ma_order = (\<lambda>bs. bs),
      ma_file_order = (\<lambda>fs. fs)\<rparr>"

definition idle_server :: "(nat, i64 option dap_side) tool_server" where
  "idle_server = tool_server_new session_new
     \<lparr>ds_world = world_new None [], ds_taken = 0, ds_told = False, ds_next = 0, ds_pace = []\<rparr>"

theorem launch_succeeds_witness:
  "(\<exists>out t. dispatch (lldb_env obliging_machine) ''launch'' run_call (\<lambda>_. None) idle_server = Some (out, t) \<and>
      ss_state (sv_session t) = Running) \<and>
   (\<exists>out t. dispatch (lldb_env obliging_machine) ''launch'' launch_call (\<lambda>_. None) idle_server = Some (out, t) \<and>
      ss_state (sv_session t) \<in> {SStopped, STerminated})"
proof -
  have s: "ss_state (sv_session idle_server) = Idle" "ss_pending_source_bps (sv_session idle_server) = []"
    by (simp_all add: idle_server_def tool_server_new_def session_new_def)
  have m: "ma_peer obliging_machine = obliging" "ma_dial obliging_machine n = Inr None" "ma_file_order obliging_machine fs = fs" for n fs
    by (simp_all add: obliging_machine_def)
  note run = launch_succeeds [of obliging_machine "\<lambda>p. p" idle_server None, OF _ m(2) refl s(1) launch_call_args(6-8)]
  note stop = launch_succeeds [of obliging_machine "\<lambda>p. p" idle_server None, OF _ m(2) refl s(1) launch_call_args(1-3)]
  from run stop show ?thesis
    using cooperative_obliging obliging_stops by (fastforce simp: m s launch_call_args split: stop_outcome.splits)
qed

section \<open>A program that ends during its launch\<close>

text \<open>The pump hands over all the output and then the end of the program.\<close>

definition took_all :: "'p dap_side \<Rightarrow> 'p world \<Rightarrow> bool" where
  "took_all d w \<longleftrightarrow> (case ds_pace d of [] \<Rightarrow> True | n # _ \<Rightarrow> length (cl_output (wo_client w)) < n)"

lemma outputs_pumped:
  "ss_state (event_pump g (map (\<lambda>(c, t). Output c t) os) s) = ss_state s \<and>
   ss_generation (event_pump g (map (\<lambda>(c, t). Output c t) os) s) = ss_generation s"
proof (induction os arbitrary: s)
  case Nil
  then show ?case by (simp add: event_pump_def)
next
  case (Cons ct os)
  obtain c t where ct: "ct = (c, t)" by fastforce
  from Cons.IH [of "append_output c t s"] show ?case
    by (simp add: ct event_pump_def pump_event_def) (simp add: append_output_def)
qed

lemma filter_outputs [simp]: "filter is_output (map (\<lambda>(c, t). Output c t) os) = map (\<lambda>(c, t). Output c t) os"
  by (induction os) (auto simp: is_output_def)

lemma end_recorded:
  assumes "cl_term (wo_client w) = Delivered code" "took_all (sv_world s) w"
  shows "ss_state (sv_session (handshake_done s w)) = STerminated \<and>
    (code \<noteq> None \<longrightarrow> ss_exit_code (sv_session (handshake_done s w)) = code) \<and>
    ds_told (sv_world (handshake_done s w))"
proof -
  let ?c = "snd (flush_pending_breakpoints (set_state Configuring (sv_session s)))"
  let ?d = "(sv_world s)\<lparr>ds_taken := 0, ds_told := False, ds_next := Suc (ds_next (sv_world s)), ds_world := w\<rparr>"
  let ?outs = "map (\<lambda>(c, t). Output c t) (cl_output (wo_client w))"
  have pend: "pending_events ?d = ?outs @ [TerminatedEv code]" using assms(1) by (simp add: pending_events_def)
  have all: "(case ds_pace ?d of [] \<Rightarrow> pending_events ?d | n # _ \<Rightarrow> take n (pending_events ?d)) = ?outs @ [TerminatedEv code]"
    using assms(2) unfolding pend by (cases "ds_pace (sv_world s)") (simp_all add: took_all_def del: take_append)
  have told: "sv_session (handshake_done s w) =
      pump_event (ss_generation ?c) (TerminatedEv code) (event_pump (ss_generation ?c) ?outs ?c) \<and>
      ds_told (sv_world (handshake_done s w))"
    using all by (simp add: handshake_done_def run_pump_def Let_def event_pump_def) (simp add: is_output_def)
  then show ?thesis
    using outputs_pumped [of "ss_generation ?c" "cl_output (wo_client w)" ?c]
    by (auto simp: pump_event_def terminate_if_generation_def Let_def split: option.split)
qed

lemma running_reported:
  "\<exists>out t. launch_report program debugger_pid LRunning u = Some (out, t) \<and>
     ss_state (sv_session t) = Running \<and> ss_exit_code (sv_session t) = ss_exit_code (sv_session u) \<and> sv_world t = sv_world u"
  by (auto simp: launch_report_def run_task_defs set_program_def set_pid_def set_state_def split: option.split)

text \<open>
  C36. A launch without stop on entry whose program has ended by the time the handshake returns loses the
  end, when the pump has been told of it by then: the pump has recorded the exit code and the terminated
  state, and the handler then sets the state to running. Nothing corrects it: whatever the connection goes
  on to do, only output is left for the pump.
\<close>

theorem launch_overwrites_termination:
  assumes "ss_state (sv_session s) = Idle" "ma_dial m (ds_next (sv_world s)) = Inr q"
    and "require_string a ''program'' = Inr program" "parse_json_array (ma_text m) a ''args'' = Inr pargs"
    and "parse_json_object (ma_text m) a ''env'' = Inr environment"
    and "run_launch (lldb_of m) (asked_launch m a (sv_session s) program pargs environment) (world_new q (ma_lag m)) =
      Some (Inr LRunning, w)"
    and "cl_term (wo_client w) = Delivered code" "took_all (sv_world s) w"
  shows "ss_state (sv_session (handshake_done s w)) = STerminated \<and>
    (\<exists>out t. dispatch (lldb_env m) ''launch'' a (\<lambda>_. None) s = Some (out, t) \<and>
      dispatch (lldb_env m) ''launch'' a (\<lambda>_. None) s = launch_report program (ma_pid m) LRunning (handshake_done s w) \<and>
      ss_state (sv_session t) = Running \<and> (code \<noteq> None \<longrightarrow> ss_exit_code (sv_session t) = code) \<and>
      list_all is_output (pending_events ((sv_world t)\<lparr>ds_world := w'\<rparr>)))"
proof -
  note e = end_recorded [OF assms(7,8)]
  obtain out t where t: "launch_report program (ma_pid m) LRunning (handshake_done s w) = Some (out, t)"
    "ss_state (sv_session t) = Running" "ss_exit_code (sv_session t) = ss_exit_code (sv_session (handshake_done s w))"
    "sv_world t = sv_world (handshake_done s w)"
    using running_reported by blast
  have "list_all is_output (pending_events ((sv_world t)\<lparr>ds_world := w'\<rparr>))"
    using e t(4) by (auto simp: pending_events_def is_output_def list_all_iff split: cell.split)
  with e t launch_around_handshake [OF assms(1-6)] show ?thesis by auto
qed

theorem launch_overwrites_termination_witness:
  "\<exists>out t. dispatch (lldb_env (machine_with ends_at_once)) ''launch'' run_call (\<lambda>_. None) fresh_server = Some (out, t) \<and>
     ss_state (sv_session t) = Running \<and> ss_exit_code (sv_session t) = Some 0"
proof -
  obtain w where w: "run_launch (lldb_of (machine_with ends_at_once)) (sample_spec\<lparr>ls_stop_on_entry := False\<rparr>)
      (world_new () []) = Some (Inr LRunning, w)" "cl_term (wo_client w) = Delivered (Some 0)"
    using ends_at_once_result by auto
  have s: "ss_state (sv_session fresh_server) = Idle" "ss_pending_source_bps (sv_session fresh_server) = []"
    "ss_pending_function_bps (sv_session fresh_server) = []" "took_all (sv_world fresh_server) w"
    by (simp_all add: fresh_server_def tool_server_new_def session_new_def took_all_def)
  have "asked_launch (machine_with ends_at_once) run_call (sv_session fresh_server) ''a.out'' [] [] =
      sample_spec\<lparr>ls_stop_on_entry := False\<rparr>"
    by (simp add: asked_launch_def s launch_call_args sample_spec_def)
  then have "run_launch (lldb_of (machine_with ends_at_once))
      (asked_launch (machine_with ends_at_once) run_call (sv_session fresh_server) ''a.out'' [] [])
      (world_new () (ma_lag (machine_with ends_at_once))) = Some (Inr LRunning, w)"
    using w(1) by simp
  from launch_overwrites_termination [where w' = w, OF s(1) machine_simps(2) launch_call_args(6-8) this w(2) s(4)]
  show ?thesis by auto
qed

end
