(* ===== verification/Output_Path.thy ===== *)
theory Output_Path
  imports Concurrent_Calls Event_Stream
begin

text \<open>
  From the debugger's output events to the answers of the tool calls: the connection at work of
  \<open>Event_Stream\<close> beside the calls that take what is buffered, \<^verbatim>\<open>read_output\<close> (\<^verbatim>\<open>handlers/output.rs\<close>)
  and the reports at the end of a resume (\<^verbatim>\<open>handlers/execution.rs\<close>). What the debugger sent is what the
  answers hold, followed by what is still buffered.
\<close>

section \<open>What an answer tells of the output\<close>

text \<open>The text under one of the three keys.\<close>

definition reported :: "string \<Rightarrow> tool_outcome \<Rightarrow> string" where
  "reported k out =
     (case out of Json (JObj m) \<Rightarrow> (case bt_get m k of Some (JStr t) \<Rightarrow> t | _ \<Rightarrow> []) | _ \<Rightarrow> [])"

abbreviation output_keys :: "string set" where
  "output_keys \<equiv> {''stdout'', ''stderr'', ''console''}"

text \<open>The console text begins with the marker: something was evicted before this answer.\<close>

definition announces_loss :: "tool_outcome \<Rightarrow> bool" where
  "announces_loss out \<longleftrightarrow> prefix (oe_text truncation_marker) (reported ''console'' out)"

definition tells :: "tool_outcome \<Rightarrow> output_entry list \<Rightarrow> bool" where
  "tells out es \<longleftrightarrow> (\<forall>k \<in> output_keys. reported k out = bucket_text k es)"

lemma bucket_text_simps [simp]:
  "bucket_text k [] = []" "bucket_text k (es @ es') = bucket_text k es @ bucket_text k es'"
  "bucket_text k (e # es) = (if bucket_of e = k then oe_text e else []) @ bucket_text k es"
  by (simp_all add: bucket_text_def)

lemma tells_nothing: "tells (Error m) []" "bt_get b ''stdout'' = None \<Longrightarrow> bt_get b ''stderr'' = None \<Longrightarrow>
    bt_get b ''console'' = None \<Longrightarrow> tells (into_outcome b) []"
  by (auto simp: tells_def reported_def into_outcome_def resp_build_def)

lemma tells_format: "tells (into_outcome (format_output_entries es)) es"
proof (cases "es = []")
  case True
  then show ?thesis by (simp add: tells_def reported_def into_outcome_def resp_build_def format_output_entries_def)
next
  case False
  then show ?thesis
    by (simp add: tells_def reported_def into_outcome_def resp_build_def format_output_get)
qed

lemma tells_merged:
  assumes "\<forall>k \<in> output_keys. bt_get b k = None"
  shows "tells (into_outcome (merge_output es b)) es"
  using assms by (simp add: tells_def reported_def into_outcome_def resp_build_def merged_output_complete)

lemma tells_marker: "tells out (truncation_marker # es) \<Longrightarrow> announces_loss out"
  by (simp add: tells_def announces_loss_def truncation_marker_def bucket_of_def)

section \<open>Calls that take the output\<close>

text \<open>What the session's buffer gives to an answer and keeps.\<close>

definition takes_output :: "('b, 'w) tool_server \<Rightarrow> tool_outcome \<Rightarrow> ('b, 'w) tool_server \<Rightarrow> bool" where
  "takes_output sv out sv' \<longleftrightarrow>
     (\<exists>es. tells out es \<and>
        (es, ss_output (sv_session sv')) \<in> {([], ss_output (sv_session sv)), output_drain (ss_output (sv_session sv))})"

lemma drain_output_parts:
  "fst (drain_output s) = fst (output_drain (ss_output s))"
  "ss_output (snd (drain_output s)) = snd (output_drain (ss_output s))"
  by (simp_all add: drain_output_def split: prod.split)

lemma read_output_takes:
  assumes "dispatch env ''read_output'' a ct sv = Some (out, sv')"
  shows "takes_output sv out sv'"
proof -
  from assms have "handle_read_output sv = Some (out, sv')" by (simp add: dispatch_def)
  then have "(\<exists>m. out = Error m \<and> sv' = sv) \<or>
      (out = into_outcome (format_output_entries (fst (drain_output (sv_session sv)))) \<and>
       sv_session sv' = snd (drain_output (sv_session sv)))"
    by (auto simp: handle_read_output_def guarded_by_def seq_def session_step_def ret_def split: sum.splits prod.splits)
  then show ?thesis unfolding takes_output_def
    by (metis drain_output_parts insertI1 insertI2 prod.collapse tells_format tells_nothing(1))
qed

lemma merged_takes:
  "out = into_outcome (merge_output (fst (drain_output s)) b) \<Longrightarrow> \<forall>k \<in> output_keys. bt_get b k = None \<Longrightarrow>
     sv_session sv' = snd (drain_output s) \<Longrightarrow> ss_output s = ss_output (sv_session sv) \<Longrightarrow> takes_output sv out sv'"
  unfolding takes_output_def by (metis drain_output_parts insertI1 insertI2 prod.collapse tells_merged)

lemma stop_result_takes:
  assumes "handle_stop_result outcome g sv = Some (out, sv')"
  shows "takes_output sv out sv'"
proof -
  have kept: "ss_output (snd (set_state_if_generation g st s)) = ss_output s"
    "ss_output (snd (terminate_if_generation g oc s)) = ss_output s" "ss_output (set_last_stopped i s) = ss_output s"
    for st oc i s
    by (simp_all add: set_state_if_generation_def terminate_if_generation_def set_last_stopped_def Let_def
        split: option.split)
  have plain: "tells (into_outcome (resp_set ''message'' (JStr ''Debug session ended'')
      (resp_set ''status'' (JStr ''terminated'') resp_new))) []"
    by (rule tells_nothing) (simp_all add: resp_new_def)
  have stop: "\<forall>k \<in> output_keys. bt_get (stopped_response info) k = None" for info
    by (simp add: stopped_response_def resp_new_def)
  have exits: "\<forall>k \<in> output_keys. bt_get (resp_set_opt ''exit_code'' (map_option jint code)
      (resp_set ''status'' (JStr ''exited'') resp_new)) k = None" for code
    by (simp add: resp_new_def)
  show ?thesis
  proof (cases outcome)
    case Terminated
    with assms have "out = into_outcome (resp_set ''message'' (JStr ''Debug session ended'')
        (resp_set ''status'' (JStr ''terminated'') resp_new))" "ss_output (sv_session sv') = ss_output (sv_session sv)"
      by (auto simp: handle_stop_result_def seq_def session_step_def ret_def kept split: prod.splits
          dest: arg_cong [where f = snd])
        (metis kept(1) snd_conv)
    with plain show ?thesis unfolding takes_output_def by auto
  next
    case (Exited code)
    with assms show ?thesis
      by (intro merged_takes [OF _ exits [of code], where s = "snd (terminate_if_generation g code (sv_session sv))"])
        (auto simp: handle_stop_result_def seq_def session_step_def ret_def kept split: prod.splits)
  next
    case (Stopped info)
    let ?s = "(if fst (set_state_if_generation g SStopped (sv_session sv)) then set_last_stopped info else (\<lambda>s. s))
      (snd (set_state_if_generation g SStopped (sv_session sv)))"
    from Stopped assms show ?thesis
      by (intro merged_takes [OF _ stop [of info], where s = ?s])
        (auto simp: handle_stop_result_def seq_def session_step_def modify_session_def ret_def kept split: prod.splits)
  qed
qed

section \<open>The account of one buffer\<close>

text \<open>
  \<open>es\<close> is what was appended so far, \<open>ds\<close> the drains in order: together with what is left the drains
  hold everything, or the total has passed the cap and a marker was given out or is about to be.
\<close>

definition account :: "output_entry list \<Rightarrow> output_entry list list \<Rightarrow> buffered \<Rightarrow> bool" where
  "account es ds b \<longleftrightarrow>
     buffer_ok b \<and>
     (es = concat ds @ bf_entries b \<and> \<not> bf_truncated b \<or>
      MAX_SIZE < weight entry_size es \<and> (bf_truncated b \<or> (\<exists>d. truncation_marker # d \<in> set ds)))"

lemma account_new: "account [] [] output_buffer_new"
  by (simp add: account_def) (simp add: output_buffer_new_def)

lemma account_nothing: "account es ds b \<Longrightarrow> account es (ds @ [[]]) b"
  by (auto simp: account_def)

lemma account_append:
  assumes "account es ds b"
  shows "account (es @ [e]) ds (append_entry b e)"
proof (cases "bf_truncated (append_entry b e)")
  case True
  with assms have "MAX_SIZE < weight entry_size (es @ [e])"
    by (auto simp: account_def append_entry_def output_append_truncated) (simp add: buffer_ok_def)
  with True assms show ?thesis by (simp add: account_def append_entry_def)
next
  case False
  with assms have fits: "weight entry_size (bf_entries b @ [e]) \<le> MAX_SIZE" "\<not> bf_truncated b"
    by (auto simp: account_def append_entry_def output_append_truncated) (simp_all add: buffer_ok_def)
  then have "bf_entries (append_entry b e) = bf_entries b @ [e]"
    using assms by (simp add: account_def append_entry_def output_append_entries keep_suffix_id del: weight_simps)
  with assms fits False show ?thesis by (auto simp: account_def append_entry_def)
qed

lemma account_drain:
  assumes "account es ds b"
  shows "account es (ds @ [fst (output_drain b)]) (snd (output_drain b))"
proof -
  have "buffer_ok (snd (output_drain b))" "snd (output_drain b) = output_buffer_new"
    using assms by (simp_all add: account_def output_drain_empties)
  moreover have "fst (output_drain b) = (if bf_truncated b then [truncation_marker] else []) @ bf_entries b"
    by (auto simp: output_drain_def)
  moreover have "bf_entries output_buffer_new = []" "\<not> bf_truncated output_buffer_new"
    by (simp_all add: output_buffer_new_def)
  ultimately show ?thesis using assms by (auto simp: account_def)
qed

lemma account_takes:
  assumes "takes_output sv out sv'" "account es ds (ss_output (sv_session sv))"
  shows "\<exists>d. tells out d \<and> account es (ds @ [d]) (ss_output (sv_session sv'))"
  using assms account_nothing account_drain unfolding takes_output_def
  by (metis empty_iff fst_conv insert_iff snd_conv)

section \<open>A session at work\<close>

text \<open>
  The connection with the callers of the tools, until the session is reset: \<open>outs\<close> are the answers
  given so far. Everything else that is done to the session leaves its buffer as it is; the state
  writes of a report may so be seen by the pump before its drain.
\<close>

inductive served ::
  "('b, 'w) tool_env \<Rightarrow> u64 \<Rightarrow> connection_run \<Rightarrow> tool_outcome list \<Rightarrow> connection_run \<Rightarrow> bool" for env g r0 where
  starts: "served env g r0 [] r0"
| works: "served env g r0 outs r \<Longrightarrow> connection_step g r r' \<Longrightarrow> served env g r0 outs r'"
| asked_output: "served env g r0 outs r \<Longrightarrow> sv_session sv = cr_session r \<Longrightarrow>
    dispatch env ''read_output'' a ct sv = Some (out, sv') \<Longrightarrow>
    served env g r0 (outs @ [out]) (r\<lparr>cr_session := sv_session sv'\<rparr>)"
| resume_reported: "served env g r0 outs r \<Longrightarrow> sv_session sv = cr_session r \<Longrightarrow>
    handle_stop_result outcome generation (sv :: ('b, 'w) tool_server) = Some (out, sv') \<Longrightarrow>
    served env g r0 (outs @ [out]) (r\<lparr>cr_session := sv_session sv'\<rparr>)"
| elsewhere: "served env g r0 outs r \<Longrightarrow> ss_output s = ss_output (cr_session r) \<Longrightarrow>
    served env g r0 outs (r\<lparr>cr_session := s\<rparr>)"

text \<open>The turns do not look at the session, so the account of a run nobody reads from can be kept beside.\<close>

lemma connection_step_shadow:
  assumes "connection_step g r r'"
  shows "\<exists>t'. connection_step g (r\<lparr>cr_session := t\<rparr>) (r'\<lparr>cr_session := t'\<rparr>)"
  using assms
proof (cases rule: connection_step.cases)
  case reads
  have "(reader_turn r)\<lparr>cr_session := t\<rparr> = reader_turn (r\<lparr>cr_session := t\<rparr>)"
    by (cases r) (simp add: reader_turn_def split: list.split)
  with reads show ?thesis using connection_step.reads by metis
next
  case (pumps output_first)
  obtain p es where p: "poll_next output_first (channels_of (es_taken (cr_stream r)) (cr_client r)) (cr_stream r) = (p, es)"
    by fastforce
  have "r'\<lparr>cr_session := if cr_pump_done r then t else handed g p t\<rparr> = pump_turn g output_first (r\<lparr>cr_session := t\<rparr>)"
    using pumps p by (auto simp: pump_turn_def split: poll.split option.split)
  then show ?thesis using connection_step.pumps by metis
next
  case (calls c)
  have "r'\<lparr>cr_session := t\<rparr> = r\<lparr>cr_session := t, cr_client := c\<rparr>" unfolding calls(1) by (cases r) simp
  with calls(2) show ?thesis
    using connection_step.calls [of "r\<lparr>cr_session := t\<rparr>" c g] by simp metis
qed

definition told_of :: "dap_message list \<Rightarrow> connection_run \<Rightarrow> output_entry list" where
  "told_of ms r = map chunk_entry (take (es_taken (cr_stream r)) (outputs_in ms))"

lemma poll_next_taken:
  assumes "poll_next output_first (channels_of (es_taken es) c) es = (p, es')"
  shows "(es_taken es < length (cl_output c) \<and> es_taken es' = Suc (es_taken es) \<and>
      p = Ready (Some (Output (fst (cl_output c ! es_taken es)) (snd (cl_output c ! es_taken es))))) \<or>
    (es_taken es' = es_taken es \<and> (\<forall>category txt. p \<noteq> Ready (Some (Output category txt))))"
  using assms
  by (auto simp: poll_next_def poll_both_def poll_output_def poll_terminated_def channels_of_def
      dest!: drop_ConsD split: if_splits list.splits cell.splits prod.splits)

lemma account_step:
  assumes "connection_step g r r'" "reader_at ms (cr_client r) (cr_input r)"
    and "account (told_of ms r) ds (ss_output (cr_session r))"
  shows "account (told_of ms r') ds (ss_output (cr_session r'))"
  using assms(1)
proof (cases rule: connection_step.cases)
  case reads
  with assms(3) show ?thesis by (simp add: told_of_def reader_turn_def split: list.split)
next
  case (pumps output_first)
  let ?c = "cr_client r" and ?n = "es_taken (cr_stream r)"
  obtain p es where p: "poll_next output_first (channels_of ?n ?c) (cr_stream r) = (p, es)" by fastforce
  have ended: "ss_output (told g oc t) = ss_output t" for oc t
    by (simp add: terminate_if_generation_def Let_def split: option.split)
  show ?thesis
  proof (cases "cr_pump_done r")
    case True
    with pumps assms(3) show ?thesis by (simp add: pump_turn_def told_of_def)
  next
    case False
    with pumps p have r': "cr_stream r' = es" "cr_session r' = handed g p (cr_session r)"
      by (auto simp: pump_turn_def split: poll.split option.split)
    from poll_next_taken [OF p] show ?thesis
    proof (elim disjE conjE)
      assume n: "?n < length (cl_output ?c)" "es_taken es = Suc ?n"
        and e: "p = Ready (Some (Output (fst (cl_output ?c ! ?n)) (snd (cl_output ?c ! ?n))))"
      from assms(2) have out: "outputs_in ms = cl_output ?c @ outputs_in (cr_input r)" by (simp add: reader_at_def)
      with n have "told_of ms r' = told_of ms r @ [chunk_entry (cl_output ?c ! ?n)]"
        by (simp add: told_of_def r' take_Suc_conv_app_nth nth_append)
      moreover have "ss_output (cr_session r') = append_entry (ss_output (cr_session r)) (chunk_entry (cl_output ?c ! ?n))"
        by (simp add: r' e pump_event_def append_output_def append_entry_def chunk_entry_def)
      ultimately show ?thesis using account_append [OF assms(3)] by simp
    next
      assume "es_taken es = ?n" "\<forall>category txt. p \<noteq> Ready (Some (Output category txt))"
      then have "told_of ms r' = told_of ms r" "ss_output (cr_session r') = ss_output (cr_session r)"
        by (auto simp: told_of_def r' handed_def pump_event_def ended split: poll.split option.split backend_event.split)
      with assms(3) show ?thesis by simp
    qed
  qed
next
  case (calls c)
  with assms(3) show ?thesis by (simp add: told_of_def)
qed

lemma answered:
  assumes "\<exists>t ds. run_ok g ms s (r\<lparr>cr_session := t\<rparr>) \<and> list_all2 tells outs ds \<and>
      account (told_of ms r) ds (ss_output (cr_session r))"
    and "sv_session sv = cr_session r" "takes_output sv out sv'"
  shows "\<exists>t ds. run_ok g ms s (r\<lparr>cr_session := sv_session sv', cr_session := t\<rparr>) \<and>
    list_all2 tells (outs @ [out]) ds \<and>
    account (told_of ms (r\<lparr>cr_session := sv_session sv'\<rparr>)) ds
      (ss_output (cr_session (r\<lparr>cr_session := sv_session sv'\<rparr>)))"
proof -
  from assms(1) obtain t ds where ih: "run_ok g ms s (r\<lparr>cr_session := t\<rparr>)" "list_all2 tells outs ds"
    "account (told_of ms r) ds (ss_output (cr_session r))" by blast
  with account_takes [OF assms(3), of "told_of ms r" ds] assms(2) obtain d where "tells out d"
    "account (told_of ms r) (ds @ [d]) (ss_output (sv_session sv'))" by auto
  with ih show ?thesis
    by (intro exI [of _ t] exI [of _ "ds @ [d]"]) (simp add: told_of_def list_all2_appendI)
qed

lemma served_account:
  assumes "served env g (connection_start ms e s) outs r" "ss_output s = output_buffer_new"
  shows "\<exists>t ds. run_ok g ms s (r\<lparr>cr_session := t\<rparr>) \<and> list_all2 tells outs ds \<and>
    account (told_of ms r) ds (ss_output (cr_session r))"
  using assms(1)
proof (induction rule: served.induct)
  case starts
  have "run_ok g ms s ((connection_start ms e s)\<lparr>cr_session := s\<rparr>)"
    using run_ok_start [of g ms s e] by (simp add: connection_start_def)
  moreover have "account (told_of ms (connection_start ms e s)) [] (ss_output (cr_session (connection_start ms e s)))"
    using account_new assms(2) by (simp add: told_of_def connection_start_def build_event_stream_def)
  ultimately show ?case by blast
next
  case (works outs r r')
  then obtain t ds where ih: "run_ok g ms s (r\<lparr>cr_session := t\<rparr>)" "list_all2 tells outs ds"
    "account (told_of ms r) ds (ss_output (cr_session r))" by blast
  obtain t' where "connection_step g (r\<lparr>cr_session := t\<rparr>) (r'\<lparr>cr_session := t'\<rparr>)"
    using connection_step_shadow [OF works.hyps(2)] by blast
  with ih(1) have "run_ok g ms s (r'\<lparr>cr_session := t'\<rparr>)"
    by (blast intro: run_ok_steps connection_steps.intros)
  moreover have "account (told_of ms r') ds (ss_output (cr_session r'))"
    by (rule account_step [OF works.hyps(2) _ ih(3)]) (use ih(1) in \<open>simp add: run_ok_def\<close>)
  ultimately show ?case using ih(2) by blast
next
  case (asked_output outs r sv a ct out sv')
  then show ?case
    using answered [OF asked_output.IH asked_output.hyps(2) read_output_takes [OF asked_output.hyps(3)]] by blast
next
  case (resume_reported outs r sv outcome generation out sv')
  then show ?case
    using answered [OF resume_reported.IH resume_reported.hyps(2) stop_result_takes [OF resume_reported.hyps(3)]] by blast
next
  case (elsewhere outs r s')
  then show ?case by (auto simp: told_of_def)
qed

lemma tells_all:
  "list_all2 tells outs ds \<Longrightarrow> k \<in> output_keys \<Longrightarrow> concat (map (reported k) outs) = bucket_text k (concat ds)"
  by (induction rule: list_all2_induct) (auto simp: tells_def)

lemma announced: "list_all2 tells outs ds \<Longrightarrow> truncation_marker # d \<in> set ds \<Longrightarrow> \<exists>out \<in> set outs. announces_loss out"
  by (induction rule: list_all2_induct) (auto dest: tells_marker)

text \<open>
  C12. From the debugger to the client, nothing is lost, doubled or put in another order. Let the read
  loop, the event stream, the pump, the callers of the client and the tool calls take their turns in any
  order, from a session whose buffer is empty and until it is reset. Then under each of the three keys
  the texts of the answers so far, one after the other, followed by what is still buffered, are the
  texts of the output events that have gone through the pump, in the order the debugger sent them;
  after the pump has ended these are all of them. This needs only that the output fits the buffer, or
  that none of the answers begins with the truncation marker and the buffer has none to give: no loss
  goes unannounced.
\<close>

theorem output_reaches_client:
  assumes "served env g (connection_start ms e s) outs r" "ss_output s = output_buffer_new"
    and "k \<in> {''stdout'', ''stderr'', ''console''}"
    and "weight entry_size (map chunk_entry (outputs_in ms)) \<le> MAX_SIZE \<or>
      \<not> bf_truncated (ss_output (cr_session r)) \<and> filter announces_loss outs = []"
  shows "concat (map (reported k) outs) @ bucket_text k (bf_entries (ss_output (cr_session r))) =
      bucket_text k (map chunk_entry (take (es_taken (cr_stream r)) (outputs_in ms))) \<and>
    (cr_pump_done r \<longrightarrow> es_taken (cr_stream r) = length (outputs_in ms))"
proof -
  obtain t ds where ok: "run_ok g ms s (r\<lparr>cr_session := t\<rparr>)" and ds: "list_all2 tells outs ds"
    and acc: "account (told_of ms r) ds (ss_output (cr_session r))"
    using served_account [OF assms(1,2)] by blast
  have "weight entry_size (told_of ms r) \<le> weight entry_size (map chunk_entry (outputs_in ms))"
    unfolding told_of_def using weight_simps(3) append_take_drop_id le_add1 map_append by metis
  moreover have "\<not> (\<exists>d. truncation_marker # d \<in> set ds)" if "filter announces_loss outs = []"
    using announced [OF ds] that by (auto simp: filter_empty_conv)
  ultimately have "told_of ms r = concat ds @ bf_entries (ss_output (cr_session r))"
    using acc assms(4) by (auto simp: account_def)
  then have "bucket_text k (told_of ms r) =
      bucket_text k (concat ds) @ bucket_text k (bf_entries (ss_output (cr_session r)))" by simp
  moreover have "es_taken (cr_stream r) = length (outputs_in ms)" if "cr_pump_done r"
    using ok that by (auto simp: run_ok_def reader_at_def pump_at_def)
  ultimately show ?thesis using tells_all [OF ds assms(3)] by (simp add: told_of_def)
qed

text \<open>
  A program that writes twice: the first chunk is read while it runs, the second with the answer after
  its end.
\<close>

definition two_writes :: "dap_message list" where
  "two_writes = [MEvent (EvOutput \<lparr>ob_category = ''stdout'', ob_output = ''one ''\<rparr>),
     MEvent (EvOutput \<lparr>ob_category = ''stdout'', ob_output = ''two''\<rparr>), MEvent EvTerminated]"

definition observed :: session where
  "observed = set_state Running session_new"

definition asks :: "connection_run \<Rightarrow> tool_outcome \<times> connection_run" where
  "asks r = (case dispatch unanswering ''read_output'' [] (\<lambda>_. None) (tool_server_new (cr_session r) 0) of
     Some (out, sv) \<Rightarrow> (out, r\<lparr>cr_session := sv_session sv\<rparr>) | None \<Rightarrow> (Text [], r))"

definition early_read :: "tool_outcome \<times> connection_run" where
  "early_read = asks (pump_turn 0 True (reader_turn (connection_start two_writes WEof observed)))"

definition late_read :: "tool_outcome \<times> connection_run" where
  "late_read = asks (fold (pump_turn 0) [True, False, True] ((reader_turn ^^ 3) (snd early_read)))"

lemma served_asks:
  assumes "served unanswering g r0 outs r"
  shows "served unanswering g r0 (outs @ [fst (asks r)]) (snd (asks r))"
proof -
  obtain out sv' where d:
    "dispatch unanswering ''read_output'' [] (\<lambda>_. None) (tool_server_new (cr_session r) 0) = Some (out, sv')"
    by (cases "check_state [Configuring, SStopped, Running, STerminated] (cr_session r)"; cases "drain_output (cr_session r)")
      (auto simp: dispatch_def handle_read_output_def guarded_by_def seq_def session_step_def ret_def
        tool_server_new_def split: prod.split)
  with served.asked_output [OF assms _ d] show ?thesis by (simp add: asks_def tool_server_new_def)
qed

lemma served_reader: "served env g r0 outs r \<Longrightarrow> served env g r0 outs ((reader_turn ^^ n) r)"
  by (induction n) (auto intro: served.works connection_step.reads)

lemma served_pumps: "served env g r0 outs r \<Longrightarrow> served env g r0 outs (fold (pump_turn g) firsts r)"
  by (induction firsts arbitrary: r) (auto intro: served.works connection_step.pumps)

lemma asks_allowed:
  "ss_state (cr_session r) \<noteq> Idle \<Longrightarrow> asks r =
     (into_outcome (format_output_entries (fst (drain_output (cr_session r)))),
      r\<lparr>cr_session := snd (drain_output (cr_session r))\<rparr>)"
  by (cases "ss_state (cr_session r)"; cases "drain_output (cr_session r)")
    (simp_all add: asks_def dispatch_def handle_read_output_def guarded_by_def check_state_def seq_def
      session_step_def ret_def tool_server_new_def)

lemmas run_defs = asks_allowed two_writes_def connection_start_def reader_turn_def client_new_def pump_turn_def
  poll_next_def poll_both_def poll_output_def poll_terminated_def channels_of_def build_event_stream_def
  send_output_def pump_event_def append_output_def output_append_def observed_def set_state_def session_new_def
  output_buffer_new_def entry_size_def MAX_SIZE_def drain_output_def output_drain_def chunk_entry_def Let_def
  terminate_if_generation_def recover_def close_once_def cancel_all_pending_def stop_cancel_def stop_send_def
  fire_terminated_def

lemma early_read_is:
  "early_read = (into_outcome (format_output_entries [chunk_entry (''stdout'', ''one '')]),
     (reader_turn (connection_start two_writes WEof observed))
       \<lparr>cr_stream := build_event_stream\<lparr>es_taken := 1\<rparr>, cr_session := observed\<rparr>)"
  by (simp add: early_read_def run_defs)

lemma late_read_is:
  "cr_pump_done (snd late_read)" "bf_entries (ss_output (cr_session (snd late_read))) = []"
  by (simp_all add: late_read_def early_read_is run_defs numeral_3_eq_3)

theorem output_reaches_client_witness:
  "reported ''stdout'' (fst early_read) @ reported ''stdout'' (fst late_read) = ''one two'' \<and>
   reported ''stdout'' (fst early_read) = ''one ''"
proof
  have "served unanswering 0 (connection_start two_writes WEof observed) [fst early_read] (snd early_read)"
    using served_asks [OF served_pumps [OF served_reader [OF served.starts]], of 0 "connection_start two_writes WEof observed" "[True]" 1]
    by (simp add: early_read_def)
  note late = served_asks [OF served_pumps [OF served_reader [OF this]], of "[True, False, True]" 3]
  have "served unanswering 0 (connection_start two_writes WEof observed) [fst early_read, fst late_read] (snd late_read)"
    using late by (simp add: late_read_def)
  moreover have "ss_output observed = output_buffer_new" "weight entry_size (map chunk_entry (outputs_in two_writes)) \<le> MAX_SIZE"
    by (simp_all add: observed_def set_state_def session_new_def two_writes_def chunk_entry_def entry_size_def MAX_SIZE_def)
  ultimately show "reported ''stdout'' (fst early_read) @ reported ''stdout'' (fst late_read) = ''one two''"
    using late_read_is
      output_reaches_client [of unanswering 0 two_writes WEof observed "[fst early_read, fst late_read]" "snd late_read" "''stdout''"]
    by (simp add: two_writes_def chunk_entry_def bucket_of_def)
  show "reported ''stdout'' (fst early_read) = ''one ''"
    using tells_format [of "[chunk_entry (''stdout'', ''one '')]"]
    by (simp add: early_read_is tells_def chunk_entry_def bucket_of_def)
qed

end
