(* ===== verification/Read_Loop_Log.thy ===== *)
theory Read_Loop_Log
  imports Dap_Client_Laws
begin

text \<open>
  What the read loop (\<^verbatim>\<open>dap-client/src/read_loop.rs\<close>) prints on the server's standard error, message by
  message, and that printing and acting exclude each other.
\<close>

definition log_no_waiter :: "i64 \<Rightarrow> string" where
  "log_no_waiter request_seq = ''dap-client: no waiter for response to request seq '' @ show_int request_seq"

definition log_unhandled :: "string \<Rightarrow> string option \<Rightarrow> string option \<Rightarrow> string" where
  "log_unhandled ty event command =
     (case event of
        Some e \<Rightarrow> ''dap-client: unhandled event: '' @ e
      | None \<Rightarrow>
          (case command of
             Some c \<Rightarrow> ''dap-client: unhandled message type '' @ ty @ '' (command '' @ c @ '')''
           | None \<Rightarrow> ''dap-client: unhandled message type: '' @ ty))"

definition informational_name :: "dap_event \<Rightarrow> string" where
  "informational_name e =
     (case e of
        EvThread \<Rightarrow> ''thread'' | EvBreakpoint \<Rightarrow> ''breakpoint'' | EvProcess \<Rightarrow> ''process''
      | EvContinued \<Rightarrow> ''continued'' | EvModule \<Rightarrow> ''module'' | EvCapabilities \<Rightarrow> ''capabilities''
      | _ \<Rightarrow> ''informational'')"

definition log_informational :: "dap_event \<Rightarrow> string" where
  "log_informational e = ''dap-client: informational event: '' @ informational_name e"

definition is_informational :: "dap_event \<Rightarrow> bool" where
  "is_informational e \<longleftrightarrow> e \<in> {EvThread, EvBreakpoint, EvProcess, EvContinued, EvModule, EvCapabilities}"

text \<open>The lines \<^verbatim>\<open>dispatch\<close> prints for one message.\<close>

definition message_log :: "dap_message \<Rightarrow> client \<Rightarrow> string list" where
  "message_log m c =
     (case m of
        MEvent e \<Rightarrow> if is_informational e then [log_informational e] else []
      | MResponse r \<Rightarrow>
          if fst (dispatch_response (re_request_seq r) m c) then [] else [log_no_waiter (re_request_seq r)]
      | MOther envl \<Rightarrow> [log_unhandled (en_ty envl) (en_event envl) (en_command envl)])"

text \<open>The messages that find nothing to do and are not reported.\<close>

definition without_effect :: "dap_message \<Rightarrow> client \<Rightarrow> bool" where
  "without_effect m c \<longleftrightarrow>
     (case m of
        MEvent (EvStopped _) \<Rightarrow> cl_stop_slot c = None
      | MEvent (EvExited code) \<Rightarrow> cl_stop_slot c = None \<and> cl_last_exit c = Some code
      | MEvent EvTerminated \<Rightarrow> cl_stop_slot c = None \<and> \<not> cl_term_tx c
      | MEvent EvInitialized \<Rightarrow> cl_init_waiter c = None \<and> cl_fired c
      | _ \<Rightarrow> False)"

lemma hm_remove_absent: "hm_get m k = None \<Longrightarrow> hm_remove k m = m"
  using hm_dom [of m k] by (simp add: hm_remove_def delete_id)

lemma hm_remove_present: "hm_get m k \<noteq> None \<Longrightarrow> hm_remove k m \<noteq> m"
  by (metis hm_get_remove)

text \<open>
  C30. Every message the read loop takes is accounted for: it acts on the client, or it is reported by
  one line on standard error, never both; the only messages that do neither are a stop nobody waits
  for and the repetition of an initialized, exited or terminated event.
\<close>

theorem message_acts_or_is_logged:
  "(message_log m c \<noteq> [] \<longrightarrow> dispatch_message m c = c \<and> length (message_log m c) = 1) \<and>
   (message_log m c = [] \<longrightarrow> (dispatch_message m c = c \<longleftrightarrow> without_effect m c))"
proof (cases m)
  case (MResponse r)
  show ?thesis
  proof (cases "hm_get (cl_pending c) (re_request_seq r)")
    case None
    then show ?thesis
      by (simp add: MResponse message_log_def dispatch_response_def remove_pending_def hm_remove_absent)
  next
    case (Some t)
    then have "cl_pending (dispatch_message m c) \<noteq> cl_pending c"
      by (simp add: MResponse dispatch_response_def remove_pending_def hm_remove_present)
    then have "dispatch_message m c \<noteq> c" by metis
    with Some show ?thesis
      by (simp add: MResponse message_log_def dispatch_response_def remove_pending_def without_effect_def)
  qed
next
  case (MEvent e)
  show ?thesis
    by (cases e; cases c)
      (auto simp: MEvent message_log_def is_informational_def without_effect_def stop_deliver_def stop_deliver_exit_def
        stop_cancel_def stop_send_def record_exit_def fire_terminated_def signal_initialized_def send_output_def
        split: option.split)
next
  case (MOther envl)
  then show ?thesis by (simp add: message_log_def)
qed

text \<open>A stop that comes when nobody waits, and one that somebody waits for.\<close>

theorem message_acts_or_is_logged_witness:
  "message_log (MEvent EvModule) client_new = [''dap-client: informational event: module''] \<and>
   dispatch_message (MEvent EvModule) client_new = client_new \<and>
   dispatch_message (MEvent (EvStopped \<lparr>sbd_reason = ''entry'', sbd_description = [], sbd_thread_id = 1, sbd_text = [],
     sbd_all_threads_stopped = False, sbd_hit_breakpoint_ids = []\<rparr>)) client_new = client_new"
  using message_acts_or_is_logged [of "MEvent EvModule" client_new]
    message_acts_or_is_logged [of "MEvent (EvStopped \<lparr>sbd_reason = ''entry'', sbd_description = [], sbd_thread_id = 1,
      sbd_text = [], sbd_all_threads_stopped = False, sbd_hit_breakpoint_ids = []\<rparr>)" client_new]
  by (simp add: message_log_def is_informational_def without_effect_def)
    (simp add: client_new_def log_informational_def informational_name_def)

end
