(* ===== verification/Resume_Races.thy ===== *)
theory Resume_Races
  imports Tool_Laws
begin

text \<open>
  A resume awaits its stop while other tool calls and the event pump run. These lemmas say what the
  handler of \<^verbatim>\<open>handlers/execution.rs\<close> then does with the answer: a stop is recorded only in the session
  it belongs to, a failure is recorded in whatever session there is.
\<close>

section \<open>The handler up to its wait\<close>

definition resumed :: "('b, 'w) tool_server \<Rightarrow> ('b, 'w) tool_server" where
  "resumed s = s\<lparr>sv_session := set_state Running (sv_session s)\<rparr>"

definition gran_of :: "resume \<Rightarrow> args \<Rightarrow> granularity option" where
  "gran_of r a = (case r of Continue \<Rightarrow> None | Step _ \<Rightarrow> parse_granularity a)"

lemma resume_tool_waits:
  assumes "ss_state (sv_session s) = SStopped" "sv_backend s = Some b"
    and "resolve_thread_id a (sv_session s) = Inr tid"
  shows "resume_tool env r op msg a ct s =
    seq (select_cancel ct (run_backend (env_api env b) r tid (gran_of r a))) (\<lambda>result.
      case result of
        None \<Rightarrow> ret (Error msg)
      | Some (Inr outcome) \<Rightarrow> handle_stop_result outcome (ss_generation (sv_session s))
      | Some (Inl e) \<Rightarrow> seq (modify_session (set_state SStopped)) (\<lambda>_. ret (Error (render op e)))) (resumed s)"
  using assms
  by (cases r)
    (simp_all add: resume_tool_def stopped_passes arg_or_def with_backend_def current_backend_def read_session_def
      modify_session_def seq_def gran_of_def resumed_def Let_def)

lemma handle_stop_result_stale:
  assumes "ss_generation (sv_session t) \<noteq> g"
  shows "\<exists>out. handle_stop_result outcome g t =
    Some (out, if outcome = Terminated then t else t\<lparr>sv_session := snd (drain_output (sv_session t))\<rparr>)"
  using assms
  by (cases outcome)
    (simp_all add: handle_stop_result_def seq_def session_step_def modify_session_def ret_def
      set_state_if_generation_def terminate_if_generation_def case_prod_beta)

lemma handle_stop_result_current:
  assumes "ss_generation (sv_session t) = g"
  shows "\<exists>out. handle_stop_result outcome g t =
    Some (out, t\<lparr>sv_session :=
      (case outcome of
         Stopped info \<Rightarrow> snd (drain_output (set_last_stopped info (set_state SStopped (sv_session t))))
       | Exited code \<Rightarrow> snd (drain_output (snd (terminate_if_generation g code (sv_session t))))
       | Terminated \<Rightarrow> set_state STerminated (sv_session t))\<rparr>)"
  using assms
  by (cases outcome)
    (simp_all add: handle_stop_result_def seq_def session_step_def modify_session_def ret_def set_state_def
      set_state_if_generation_def terminate_if_generation_def case_prod_beta)

text \<open>
  C9. The answer to a resume is recorded in the session that asked for it and in no other. If the
  debugger's answer is an outcome and the session was reset while the call was waiting, whatever ran
  meanwhile, the session keeps its state, its last stop, its exit code and its breakpoints; only
  buffered output may be taken along. If the session is still the same, the state and the record of
  the stop or exit are exactly those of the outcome.
\<close>

theorem resume_outcome_recorded_once:
  assumes "ss_state (sv_session s) = SStopped" "sv_backend s = Some b"
    and "resolve_thread_id a (sv_session s) = Inr tid" "ct (resumed s) = None"
    and "run_backend (env_api env b) r tid (gran_of r a) (resumed s) = Some (Inr outcome, t)"
  shows "\<exists>out t'. resume_tool env r op msg a ct s = Some (out, t') \<and>
    (let old = sv_session t; new = sv_session t' in
     if ss_generation old \<noteq> ss_generation (sv_session s) then new\<lparr>ss_output := ss_output old\<rparr> = old
     else ss_state new = (case outcome of Stopped _ \<Rightarrow> SStopped | _ \<Rightarrow> STerminated) \<and>
       ss_last_stopped new = (case outcome of Stopped info \<Rightarrow> Some info | _ \<Rightarrow> ss_last_stopped old) \<and>
       ss_exit_code new = (case outcome of Exited (Some c) \<Rightarrow> Some c | _ \<Rightarrow> ss_exit_code old) \<and>
       ss_generation new = ss_generation old)"
proof -
  let ?g = "ss_generation (sv_session s)"
  have run: "resume_tool env r op msg a ct s = handle_stop_result outcome ?g t"
    unfolding resume_tool_waits [OF assms(1-3)] by (simp add: seq_def select_cancel_def assms(4,5))
  show ?thesis
  proof (cases "ss_generation (sv_session t) = ?g")
    case True
    from handle_stop_result_current [OF this, of outcome] True show ?thesis
      unfolding run
      by (cases outcome)
        (auto simp: drain_output_def set_last_stopped_def set_state_def terminate_if_generation_def Let_def
          split: option.split prod.split)
  next
    case False
    from handle_stop_result_stale [OF this, of outcome] False show ?thesis
      unfolding run by (auto simp: drain_output_def split: prod.split)
  qed
qed

text \<open>
  C31. A resume that fails writes the stopped state without looking at the generation: when the
  session was disconnected while the call was waiting, the server is left stopped with no backend,
  so that a new launch is refused and every debugging tool fails, until one more disconnect.
\<close>

theorem failed_resume_outlives_disconnect:
  assumes "ss_state (sv_session s) = SStopped" "sv_backend s = Some b"
    and "resolve_thread_id a (sv_session s) = Inr tid" "ct (resumed s) = None"
    and "run_backend (env_api env b) r tid (gran_of r a) (resumed s) = Some (Inl e, t)"
    and "ss_state (sv_session t) = Idle" "sv_backend t = None"
  shows "\<exists>t'. resume_tool env r op msg a ct s = Some (Error (render op e), t') \<and>
    ss_state (sv_session t') = SStopped \<and> sv_backend t' = None \<and>
    dispatch env ''launch'' args ct' t' = Some (Error (refusal [Idle] SStopped), t') \<and>
    dispatch env ''threads'' args ct' t' = Some (Error (ope_request_failed THREADS), t')"
proof -
  let ?t = "t\<lparr>sv_session := set_state SStopped (sv_session t)\<rparr>"
  have run: "resume_tool env r op msg a ct s = Some (Error (render op e), ?t)"
    unfolding resume_tool_waits [OF assms(1-3)]
    by (simp add: seq_def select_cancel_def assms(4,5) modify_session_def ret_def)
  have st: "ss_state (sv_session ?t) = SStopped" by (simp add: set_state_def)
  have "dispatch env ''launch'' args ct' ?t = Some (Error (refusal [Idle] SStopped), ?t)"
    using guarded_by_refuses [of ?t "[Idle]"] st by (simp add: dispatch_def handle_launch_def)
  moreover have "dispatch env ''threads'' args ct' ?t = Some (Error (ope_request_failed THREADS), ?t)"
    using st assms(7)
    by (simp add: dispatch_def handle_threads_def stopped_passes with_backend_def current_backend_def seq_def ret_def)
  ultimately show ?thesis using run st assms(7) by auto
qed

section \<open>A disconnect during a continue\<close>

text \<open>The continue's call, during which a disconnect runs to its end; the answer comes after it.\<close>

definition overtaken :: "backend_error + stop_outcome \<Rightarrow> (unit, nat) backend_api" where
  "overtaken answer = closed_api\<lparr>ba_cont := (\<lambda>tid s.
     case handle_disconnect (env_with closed_api) [] s of None \<Rightarrow> None | Some (_, t) \<Rightarrow> Some (answer, t))\<rparr>"

definition after_disconnect :: "(unit, nat) tool_server" where
  "after_disconnect = \<lparr>sv_session = reset (sv_session (resumed (stopped_server (0::nat)))), sv_backend = None,
                       sv_pumps = [((), 0)], sv_world = 0\<rparr>"

lemma overtaken_cont:
  "run_backend (overtaken answer) Continue 1 None (resumed (stopped_server 0)) = Some (answer, after_disconnect)"
  by (simp add: run_backend_def overtaken_def handle_disconnect_def guarded_by_def check_state_def resumed_def
      stopped_server_def set_state_def session_new_def best_effort_disconnect_def current_backend_def seq_def
      select_cancel_def env_with_def closed_api_def drop_backend_bounded_def modify_session_def ret_def Let_def
      after_disconnect_def)

lemma stopped_start:
  "ss_state (sv_session (stopped_server w)) = SStopped" "sv_backend (stopped_server w) = Some ()"
  "resolve_thread_id [] (sv_session (stopped_server w)) = Inr 1" "gran_of Continue [] = None"
  "ss_generation (sv_session (stopped_server w)) = 0"
  by (simp_all add: stopped_server_def set_state_def session_new_def resolve_thread_id_def
      explicit_positive_thread_id_def get_raw_def bt_get_def last_thread_def gran_of_def)

lemma after_disconnect_facts:
  "ss_state (sv_session after_disconnect) = Idle" "ss_generation (sv_session after_disconnect) = 1"
  "ss_exit_code (sv_session after_disconnect) = None" "sv_backend after_disconnect = None"
  by (simp_all add: after_disconnect_def reset_def drain_output_def reset_inner_def resumed_def stopped_server_def
      set_state_def session_new_def split: prod.split)

theorem resume_outcome_recorded_once_witness:
  "\<exists>out t'. resume_tool (env_with (overtaken (Inr (Exited (Some 3))))) Continue CONTINUE [] [] (\<lambda>_. None) (stopped_server 0) =
      Some (out, t') \<and> ss_state (sv_session t') = Idle \<and> ss_exit_code (sv_session t') = None"
proof -
  let ?env = "env_with (overtaken (Inr (Exited (Some 3))))"
  have "run_backend (env_api ?env ()) Continue 1 (gran_of Continue []) (resumed (stopped_server 0)) =
    Some (Inr (Exited (Some 3)), after_disconnect)"
    by (simp add: overtaken_cont stopped_start)
  from resume_outcome_recorded_once [OF stopped_start(1-3), of "\<lambda>_. None", OF refl this, of CONTINUE "[]"]
  obtain out t' where *: "resume_tool ?env Continue CONTINUE [] [] (\<lambda>_. None) (stopped_server 0) = Some (out, t')"
    "(sv_session t')\<lparr>ss_output := ss_output (sv_session after_disconnect)\<rparr> = sv_session after_disconnect"
    by (auto simp: stopped_start after_disconnect_facts Let_def)
  from arg_cong [OF *(2), of ss_state] arg_cong [OF *(2), of ss_exit_code] *(1) show ?thesis
    by (simp add: after_disconnect_facts)
qed

theorem failed_resume_outlives_disconnect_witness:
  "\<exists>t'. resume_tool (env_with (overtaken (Inl Closed))) Continue CONTINUE [] [] (\<lambda>_. None) (stopped_server 0) =
      Some (Error (render CONTINUE Closed), t') \<and> ss_state (sv_session t') = SStopped \<and> sv_backend t' = None"
proof -
  have "run_backend (env_api (env_with (overtaken (Inl Closed))) ()) Continue 1 (gran_of Continue []) (resumed (stopped_server 0)) =
    Some (Inl Closed, after_disconnect)"
    by (simp add: overtaken_cont stopped_start)
  from failed_resume_outlives_disconnect [OF stopped_start(1-3), of "\<lambda>_. None", OF refl this
      after_disconnect_facts(1,4), of CONTINUE "[]"]
  show ?thesis by blast
qed

end
