(* ===== verification/Session_Reuse.thy ===== *)
theory Session_Reuse
  imports Lldb_Server
begin

text \<open>
  A disconnect on the whole server (\<^verbatim>\<open>handle_disconnect\<close> of \<^verbatim>\<open>mcp-tools/src/handlers/lifecycle.rs\<close>): it gets
  the session free for the next launch whatever the debugger does.
\<close>

definition disconnected :: tool_outcome where
  "disconnected = Json (JObj [(''status'', JStr ''disconnected'')])"

lemma run_pump_keeps:
  "sv_backend (run_pump s) = sv_backend s" "ds_world (sv_world (run_pump s)) = ds_world (sv_world s)"
  "ds_next (sv_world (run_pump s)) = ds_next (sv_world s)" "sv_pumps (run_pump s) = sv_pumps s"
  by (simp_all add: run_pump_def Let_def split: option.split)

lemma pump_event_generation: "ss_generation (event_pump g es s) = ss_generation s"
  by (simp add: event_pump_def)
    (induction es arbitrary: s; simp add: pump_event_def append_output_def terminate_if_generation_def Let_def
      split: backend_event.split option.split)

lemma run_pump_session:
  "session_ok (sv_session s) \<Longrightarrow> session_ok (sv_session (run_pump s))"
  "ss_generation (sv_session (run_pump s)) = ss_generation (sv_session s)"
  by (simp_all add: run_pump_def Let_def pump_event_generation split: option.split)

text \<open>Only the pump writes the session while the disconnect waits.\<close>

definition settles :: "(nat, 'p dap_side) tool_server \<Rightarrow> (nat, 'p dap_side) tool_server \<Rightarrow> bool" where
  "settles s t \<longleftrightarrow> sv_backend t = sv_backend s \<and> ds_next (sv_world t) = ds_next (sv_world s) \<and>
     sv_pumps t = sv_pumps s \<and> session_ok (sv_session t) \<and>
     ss_generation (sv_session t) = ss_generation (sv_session s)"

lemma best_effort_settles:
  assumes "session_ok (sv_session s)" "\<And>d. ma_late m (sv_world s) = Some d \<Longrightarrow> ds_next d = ds_next (sv_world s)"
    and "ma_late m (sv_world s) = None \<Longrightarrow> be_disconnect (lldb_of m) terminate (ds_world (sv_world s)) \<noteq> None"
  shows "\<exists>t. best_effort_disconnect (lldb_env m) terminate s = Some ((), t) \<and> settles s t \<and>
    (sv_backend s \<noteq> None \<longrightarrow> (case ma_late m (sv_world s) of
       None \<Rightarrow> wo_eof (ds_world (sv_world t)) | Some d \<Rightarrow> ds_world (sv_world t) = ds_world d))"
proof (cases "sv_backend s")
  case None
  with assms(1) show ?thesis
    by (simp add: best_effort_disconnect_def current_backend_def seq_def ret_def settles_def)
next
  case (Some b)
  show ?thesis
  proof (cases "ma_late m (sv_world s)")
    case None
    then obtain x w where w: "be_disconnect (lldb_of m) terminate (ds_world (sv_world s)) = Some (x, w)"
      using assms(3) by fastforce
    then have "wo_eof w"
      by (auto simp: be_disconnect_def seq_def lldb_of_def lldb_over_def dap_transport_def split: option.splits)
    with Some None w assms(1) show ?thesis
      by (simp add: best_effort_disconnect_def current_backend_def seq_def ret_def select_cancel_def lldb_env_def
          cancelled_by_def lldb_api_def on_dap_def settles_def run_pump_keeps run_pump_session)
  next
    case (Some d)
    with \<open>sv_backend s = Some b\<close> assms(1,2) show ?thesis
      by (simp add: best_effort_disconnect_def current_backend_def seq_def ret_def select_cancel_def lldb_env_def
          cancelled_by_def settles_def)
  qed
qed

text \<open>
  C7. The way out always works. A disconnect in any state but idle returns and reports that it has
  disconnected: the server then has no backend, the session is a new one but for the next generation,
  and no further connection was made; the debugger need not cooperate. It may refuse, it may be gone,
  or it may never answer the disconnect request, as long as the timer then fires. The debugger's
  process is killed when the request was answered or failed; when the timer fired it is left as it
  was then.
\<close>

theorem disconnect_frees_session:
  assumes "session_ok (sv_session s)" "ss_state (sv_session s) \<noteq> Idle"
    and "\<And>d. ma_late m (sv_world s) = Some d \<Longrightarrow> ds_next d = ds_next (sv_world s)"
    and "ma_late m (sv_world s) = None \<Longrightarrow>
      be_disconnect (lldb_of m) (get_bool a ''terminate'' True) (ds_world (sv_world s)) \<noteq> None"
  shows "\<exists>t. dispatch (lldb_env m) ''disconnect'' a ct s = Some (disconnected, t) \<and> sv_backend t = None \<and>
    sv_session t = session_new\<lparr>ss_generation := ss_generation (sv_session s) + 1\<rparr> \<and>
    ds_next (sv_world t) = ds_next (sv_world s) \<and>
    (sv_backend s \<noteq> None \<longrightarrow> (case ma_late m (sv_world s) of
       None \<Rightarrow> wo_eof (ds_world (sv_world t)) | Some d \<Rightarrow> ds_world (sv_world t) = ds_world d))"
proof -
  from best_effort_settles [OF assms(1,3,4)] obtain u where
    u: "best_effort_disconnect (lldb_env m) (get_bool a ''terminate'' True) s = Some ((), u)" "settles s u"
      "sv_backend s \<noteq> None \<longrightarrow> (case ma_late m (sv_world s) of
         None \<Rightarrow> wo_eof (ds_world (sv_world u)) | Some d \<Rightarrow> ds_world (sv_world u) = ds_world d)" by blast
  obtain v where v: "drop_backend_bounded (lldb_env m) u = Some ((), v)" "sv_backend v = None" "settles (s\<lparr>sv_backend := None\<rparr>) v"
    "ds_world (sv_world v) = ds_world (sv_world u)"
    using u(2)
    by (cases "sv_backend u")
      (auto simp: drop_backend_bounded_def settles_def lldb_env_def run_pump_keeps run_pump_session)
  from assms(2) have "check_state [Configuring, SStopped, Running, STerminated] (sv_session s) = Inr ()"
    by (cases "ss_state (sv_session s)") (simp_all add: check_state_def)
  with u v show ?thesis
    by (simp add: dispatch_def handle_disconnect_def guarded_by_def seq_def modify_session_def ret_def Let_def
        into_outcome_def resp_build_def resp_new_def disconnected_def settles_def reset_is_new_session resp_set_def split: option.splits)
qed

text \<open>A debugger that reads every request and answers none, in the middle of a run.\<close>

definition mute :: "unit peer" where
  "mute r p = (Emits [] False, p)"

definition hung_machine :: "unit machine" where
  "hung_machine = (machine_with mute)\<lparr>ma_late := Some\<rparr>"

definition hung_server :: "(nat, unit dap_side) tool_server" where
  "hung_server = \<lparr>sv_session = set_state Running session_new, sv_backend = Some 0, sv_pumps = [(0, 0)],
     sv_world = \<lparr>ds_world = world_new () [], ds_taken = 0, ds_told = False, ds_next = 1, ds_pace = []\<rparr>\<rparr>"

theorem disconnect_frees_session_witness:
  "be_disconnect (lldb_of hung_machine) True (world_new () []) = None \<and>
   (\<exists>t. dispatch (lldb_env hung_machine) ''disconnect'' [] (\<lambda>_. None) hung_server = Some (disconnected, t) \<and>
     ss_state (sv_session t) = Idle \<and> \<not> wo_eof (ds_world (sv_world t)))"
proof
  have "session_ok (sv_session hung_server)" "ss_state (sv_session hung_server) \<noteq> Idle"
    "ma_late hung_machine (sv_world hung_server) = Some (sv_world hung_server)" "sv_backend hung_server \<noteq> None"
    "\<not> wo_eof (ds_world (sv_world hung_server))"
    by (simp_all add: hung_server_def hung_machine_def set_state_def world_new_def) (simp add: session_ok_def session_new_def)
  with disconnect_frees_session [of hung_server hung_machine "[]" "\<lambda>_. None"]
  show "\<exists>t. dispatch (lldb_env hung_machine) ''disconnect'' [] (\<lambda>_. None) hung_server = Some (disconnected, t) \<and>
      ss_state (sv_session t) = Idle \<and> \<not> wo_eof (ds_world (sv_world t))"
    by (auto simp: session_new_def)
qed code_simp

section \<open>A start that fails\<close>

text \<open>A debugger that serves until it is asked to disconnect or is killed.\<close>

definition stays :: "'p peer \<Rightarrow> bool" where
  "stays peer \<longleftrightarrow>
     (\<forall>r p. rq_command r \<noteq> ''disconnect'' \<longrightarrow> (case fst (peer r p) of WriteFails _ \<Rightarrow> True | Emits _ closes \<Rightarrow> \<not> closes))"

definition alive :: "'p peer \<Rightarrow> 'p world \<Rightarrow> bool" where
  "alive peer w \<longleftrightarrow> stays peer \<and> world_ok w \<and> \<not> wo_eof w \<and> ''disconnect'' \<notin> rq_command ` set (wo_log w)"

lemma alive_emit:
  assumes "alive peer w" "rq_command r \<noteq> ''disconnect''"
  shows "alive peer (snd (emit peer (set_seq sq r) r w))"
proof -
  obtain a p where p: "peer (set_seq sq r) (wo_peer w) = (a, p)" by fastforce
  have "case fst (peer (set_seq sq r) (wo_peer w)) of WriteFails _ \<Rightarrow> True | Emits _ closes \<Rightarrow> \<not> closes"
    using assms unfolding alive_def stays_def by (auto simp: set_seq_def)
  with p assms emit_ok [of w peer "set_seq sq r" r] show ?thesis
    by (cases a) (auto simp: alive_def emit_def)
qed

lemma alive_read: "alive peer w \<Longrightarrow> alive peer (read_one w)"
  by (simp add: alive_def read_one_ok read_one_emitted) (simp add: read_one_def split: list.split)

lemma alive_client: "alive peer w \<Longrightarrow> client_ok c \<Longrightarrow> cl_closed c = cl_closed (wo_client w) \<Longrightarrow> alive peer (w\<lparr>wo_client := c\<rparr>)"
  by (auto simp: alive_def world_ok_def)

lemma alive_lag: "alive peer w \<Longrightarrow> alive peer (w\<lparr>wo_lag := l\<rparr>)"
  by (auto simp: alive_def world_ok_def)

interpretation living: world_invariant "alive peer" peer "\<lambda>r. rq_command r \<noteq> ''disconnect''" for peer
  by unfold_locales
    (simp_all add: alive_emit alive_read alive_lag alive_client quiet_call_def, simp add: alive_def)

lemma alive_register: "lb_transport lb = dap_transport sj peer \<Longrightarrow> living.keeps peer (register_if b lb)"
  by (rule living.keepsI)
    (auto simp: register_if_def dap_transport_def world_stop_register_def Let_def stop_register_def
      split: if_splits prod.splits intro!: alive_client living.I_tick
      dest: client_ok_ops(2) [OF living.I_client_ok [OF living.I_tick]])

lemmas living_intros = living.keeps_try living.keeps_seq living.keeps_with_err living.keeps_ret living.keeps_send
  living.keeps_send_async living.keeps_wait_initialized living.keeps_await living.keeps_stop_await

lemma done_command: "rq_command req_configuration_done = ''configurationDone''"
  by (simp add: req_configuration_done_def request_new_def)

lemma alive_launch:
  assumes tr: "lb_transport lb = dap_transport sj peer"
  shows "living.keeps peer (run_launch lb spec)"
  unfolding run_launch_def launch_finish_def
  by (intro living_intros living.keeps_initialize [OF tr] living.keeps_unchecked [OF tr] living.keeps_flush_source [OF tr]
      living.keeps_flush_function [OF tr] living.keeps_deferred [OF tr] alive_register [OF tr])
    (auto simp: tr dap_transport_def done_command intro!: living_intros split: option.split)

lemma alive_attach:
  assumes tr: "lb_transport lb = dap_transport sj peer"
  shows "living.keeps peer (run_attach lb spec)"
  unfolding run_attach_def attach_finish_def
  by (intro living_intros living.keeps_initialize [OF tr] living.keeps_unchecked [OF tr] living.keeps_deferred [OF tr]
      alive_register [OF tr])
    (auto simp: tr dap_transport_def done_command intro!: living_intros split: option.split)

lemmas start_defs = seq_def ret_def modify_session_def session_step_def read_session_def

lemma reports_no_error:
  "launch_report program o_pid lo u \<noteq> Some (Error e, t)" "attach_report label o_pid o_dpid ao u \<noteq> Some (Error e, t)"
  by (cases lo; simp add: launch_report_def stopped_at_start_def start_defs into_outcome_def)
    (cases ao; simp add: attach_report_def stopped_at_start_def start_defs into_outcome_def)

lemma released: "env_release (lldb_env m) b d = d"
  by (simp add: lldb_env_def)

lemma failed_handshake:
  assumes "handshake (lldb_env m) (cancelled_by c) msg (on_dap p) k s = Some (Error e, t)"
    and "\<And>x u e t. k x u \<noteq> Some (Error e, t)"
    and "living.keeps (ma_peer m) p" "alive (ma_peer m) (ds_world (sv_world s))"
    and "\<And>d d'. c d = Some d' \<Longrightarrow> alive (ma_peer m) (ds_world d')"
  shows "sv_backend t = None \<and> ss_state (sv_session t) = Idle \<and> alive (ma_peer m) (ds_world (sv_world t))"
proof -
  have clean: "cleanup_after_cancel (lldb_env m) u = Some ((), u\<lparr>sv_backend := None, sv_session := reset (sv_session u)\<rparr>)" for u
    by (cases u; cases "sv_backend u")
      (simp_all add: cleanup_after_cancel_def clear_backend_def start_defs lldb_env_def)
  show ?thesis
  proof (cases "c (sv_world s)")
    case (Some d)
    with assms(1,5) show ?thesis
      by (auto simp: handshake_def select_cancel_def cancelled_by_def seq_def ret_def clean)
  next
    case None
    then obtain r w where w: "p (ds_world (sv_world s)) = Some (Inl r, w)"
      and t: "t = (let u = run_pump (s\<lparr>sv_world := (sv_world s)\<lparr>ds_world := w\<rparr>\<rparr>)
        in u\<lparr>sv_backend := None, sv_session := reset (sv_session u)\<rparr>)"
      using assms(1,2)
      by (auto simp: handshake_def select_cancel_def cancelled_by_def seq_def ret_def clean on_dap_def
          split: option.splits sum.splits)
    from living.keepsD [OF assms(3,4) w] t show ?thesis by (simp add: Let_def run_pump_keeps)
  qed
qed

lemma failed_connected:
  fixes m :: "'p machine"
  assumes "connected (lldb_env m) (\<lambda>b. handshake (lldb_env m) (cancelled_by c) msg (on_dap p) (k b)) u = Some (Error e, t)"
    and "ds_next (sv_world t) \<noteq> ds_next (sv_world u)"
    and "\<And>b x u e t. k b x u \<noteq> Some (Error e, t)"
    and "stays (ma_peer m)" "living.keeps (ma_peer m) p" "\<And>d d'. c d = Some d' \<Longrightarrow> alive (ma_peer m) (ds_world d')"
  shows "sv_backend t = None \<and> ss_state (sv_session t) = Idle \<and> alive (ma_peer m) (ds_world (sv_world t))"
proof (cases "ma_dial m (ds_next (sv_world u))")
  case (Inl e')
  with assms(1,2) show ?thesis
    by (auto simp: connected_def start_defs lldb_connect_def clear_backend_def Let_def lldb_env_def split: option.splits)
next
  case (Inr q)
  let ?u = "u\<lparr>sv_world := (sv_world u)\<lparr>ds_world := world_new q (ma_lag m), ds_taken := 0, ds_told := False,
      ds_next := Suc (ds_next (sv_world u))\<rparr>, sv_backend := Some (ds_next (sv_world u)),
      sv_pumps := sv_pumps u @ [(ds_next (sv_world u), ss_generation (sv_session u))]\<rparr>"
  have "alive (ma_peer m) (world_new q (ma_lag m))"
    using assms(4) by (simp add: alive_def world_new_def world_ok_def client_ok_new) (simp add: client_new_def)
  moreover from Inr assms(1) have
    "handshake (lldb_env m) (cancelled_by c) msg (on_dap p) (k (ds_next (sv_world u))) ?u = Some (Error e, t)"
    by (simp add: connected_def seq_def lldb_connect_def set_backend_def spawn_event_pump_def Let_def)
  ultimately show ?thesis using failed_handshake [OF _ assms(3,5) _ assms(6)] by simp
qed

text \<open>
  C8. A start that fails leaves its debugger behind. When a launch or an attach has made its connection
  and then reports an error, refused by the debugger or cancelled by the client, the server drops the
  backend and is idle, so that it has no way left to reach this debugger; but the debugger was
  not asked to disconnect and its process was not killed.
\<close>

theorem failed_start_leaves_debugger:
  assumes "stays (ma_peer m)" "name = ''launch'' \<or> name = ''attach''"
    and "dispatch (lldb_env m) name a (cancelled_by c) s = Some (Error e, t)"
    and "ds_next (sv_world t) \<noteq> ds_next (sv_world s)"
    and "\<And>d d'. c d = Some d' \<Longrightarrow> alive (ma_peer m) (ds_world d')"
  shows "sv_backend t = None \<and> ss_state (sv_session t) = Idle \<and>
    \<not> wo_eof (ds_world (sv_world t)) \<and> ''disconnect'' \<notin> rq_command ` set (wo_log (ds_world (sv_world t)))"
proof -
  have tr: "lb_transport (lldb_of m) = dap_transport (te_show_json (ma_text m)) (ma_peer m)"
    by (simp add: lldb_of_def lldb_over_def)
  have "sv_backend t = None \<and> ss_state (sv_session t) = Idle \<and> alive (ma_peer m) (ds_world (sv_world t))"
    using assms(2)
  proof
    assume "name = ''launch''"
    with assms(3) have "handle_launch (lldb_env m) a (cancelled_by c) s = Some (Error e, t)"
      by (simp add: dispatch_def)
    then obtain program msg spec ss' where con: "connected (lldb_env m) (\<lambda>b. handshake (lldb_env m) (cancelled_by c) msg
        (on_dap (run_launch (lldb_of m) spec)) (launch_report program (ma_pid m))) (s\<lparr>sv_session := ss'\<rparr>) = Some (Error e, t)"
      using assms(4)
      by (auto simp: handle_launch_def guarded_by_def arg_or_def start_defs Let_def lldb_api_def that
          split: sum.splits prod.splits)
    show ?thesis
      by (rule failed_connected [where k = "\<lambda>_. launch_report program (ma_pid m)", OF con _ _ assms(1) alive_launch [OF tr]])
        (use assms(4) in \<open>auto simp: reports_no_error dest: assms(5)\<close>)
  next
    assume "name = ''attach''"
    with assms(3) have "handle_attach (lldb_env m) a (cancelled_by c) s = Some (Error e, t)"
      by (simp add: dispatch_def)
    then obtain program explicit msg spec ss' where con: "connected (lldb_env m) (\<lambda>b. handshake (lldb_env m) (cancelled_by c) msg
        (on_dap (run_attach (lldb_of m) spec)) (attach_report program explicit (ma_pid m))) (s\<lparr>sv_session := ss'\<rparr>) = Some (Error e, t)"
      using assms(4)
      by (auto simp: handle_attach_def guarded_by_def arg_or_def start_defs Let_def lldb_api_def that
          split: sum.splits prod.splits)
    show ?thesis
      by (rule failed_connected [where k = "\<lambda>_. attach_report program explicit (ma_pid m)", OF con _ _ assms(1) alive_attach [OF tr]])
        (use assms(4) in \<open>auto simp: reports_no_error dest: assms(5)\<close>)
  qed
  then show ?thesis by (simp add: alive_def)
qed

text \<open>A debugger that refuses everything and waits for the next request.\<close>

lemma refused_start:
  "map_option (\<lambda>(r, w). isl r) (run_launch (lldb_of (machine_with no_resume)) sample_spec (world_new () [])) = Some True"
  by code_simp

lemma refused_call:
  "\<exists>e t. call_on no_resume ''launch'' launch_call fresh_server = Some (Error e, t) \<and>
     ds_next (sv_world t) \<noteq> ds_next (sv_world fresh_server)"
proof -
  obtain e w where "run_launch (lldb_of (machine_with no_resume)) sample_spec (world_new () []) = Some (Inl e, w)"
    using refused_start by (auto simp: isl_def)
  then show ?thesis
    unfolding sample_spec_def
    by (simp add: call_on_def dispatch_def handle_launch_def guarded_by_def check_state_def arg_or_def start_defs
        launch_call_args flush_pending_breakpoints_def Let_def set_state_def fresh_server_def tool_server_new_def
        session_new_def connected_def lldb_connect_def set_backend_def spawn_event_pump_def handshake_def
        select_cancel_def cancelled_by_def lldb_api_def on_dap_def cleanup_after_cancel_def clear_backend_def
        run_pump_keeps machine_with_def released)
qed

theorem failed_start_leaves_debugger_witness:
  "\<exists>e t. call_on no_resume ''launch'' launch_call fresh_server = Some (Error e, t) \<and> sv_backend t = None \<and>
     \<not> wo_eof (ds_world (sv_world t))"
proof -
  obtain e t where t: "call_on no_resume ''launch'' launch_call fresh_server = Some (Error e, t)"
    "ds_next (sv_world t) \<noteq> ds_next (sv_world fresh_server)" using refused_call by blast
  have "stays (ma_peer (machine_with no_resume))"
    by (simp add: stays_def no_resume_def machine_with_def)
  from failed_start_leaves_debugger [OF this _ _ t(2), of "''launch''" launch_call "\<lambda>_. None" e] t(1) show ?thesis
    unfolding call_on_def by simp
qed

end
