(* ===== verification/Stdio_Client.thy ===== *)
theory Stdio_Client
  imports Wire Tool_Dispatch Detect
begin

text \<open>
  \<^verbatim>\<open>integration-tests/src/stdio.rs\<close>: a client of the Model Context Protocol that drives a server binary
  over its standard input and output, one JSON-RPC message per line, one request at a time. The
  server process is whatever answers the lines written to it; a read for which the server has
  written nothing, and has not closed its output, waits for ever.
\<close>

section \<open>The process and the client\<close>

datatype io_error = IoOther string | UnexpectedEof string

text \<open>
  \<open>io_write\<close> gives the error of a write, or what the server puts on its output because of it.
\<close>

record 'p stdio_os =
  io_start :: "string \<Rightarrow> (string \<times> string) list \<Rightarrow> io_error + 'p"
  io_write :: "string \<Rightarrow> 'p \<Rightarrow> (io_error + string) \<times> 'p"
  io_closed :: "'p \<Rightarrow> bool"
  io_kill :: "'p \<Rightarrow> 'p"

record 'p stdio_mcp =
  sm_child :: 'p
  sm_stdout :: string
  sm_next_id :: i64

type_synonym ('p, 'a) stdio_call = "('p stdio_mcp, io_error + 'a) proc"

text \<open>\<^verbatim>\<open>serde_json\<close>: its text of a value and its parser.\<close>

record json_text =
  jt_to_string :: "json \<Rightarrow> string"
  jt_from_str :: "string \<Rightarrow> json_error + json"

text \<open>The counter wraps at the bound of the type, as in a release build; a debug build panics there.\<close>

definition alloc_id :: "('p, i64) stdio_call" where
  "alloc_id c = Some (Inr (sm_next_id c), c\<lparr>sm_next_id := wrap_i64 (sm_next_id c + 1)\<rparr>)"

definition stdio_send :: "'p stdio_os \<Rightarrow> json_text \<Rightarrow> json \<Rightarrow> ('p, unit) stdio_call" where
  "stdio_send os jt message c =
     (case io_write os (jt_to_string jt message @ [CHR 0x0A]) (sm_child c) of
        (Inl e, p) \<Rightarrow> Some (Inl e, c\<lparr>sm_child := p\<rparr>)
      | (Inr out, p) \<Rightarrow> Some (Inr (), c\<lparr>sm_child := p, sm_stdout := sm_stdout c @ out\<rparr>))"

definition json_as_i64 :: "json \<Rightarrow> i64 option" where
  "json_as_i64 v = (case v of JNum n \<Rightarrow> number_as_i64 n | _ \<Rightarrow> None)"

definition id_of :: "json \<Rightarrow> i64 option" where
  "id_of v = (case json_get v ''id'' of None \<Rightarrow> None | Some i \<Rightarrow> json_as_i64 i)"

definition eof_error :: "i64 \<Rightarrow> io_error" where
  "eof_error i = UnexpectedEof (''server closed stdout before responding to id '' @ show_int i)"

text \<open>The reading loop; \<open>None\<close> when it waits for a line that never ends.\<close>

function read_response_from ::
  "(string \<Rightarrow> json_error + json) \<Rightarrow> bool \<Rightarrow> i64 \<Rightarrow> string \<Rightarrow> ((io_error + json) \<times> string) option" where
  "read_response_from parse closed i input =
     (let (line, rest) = read_line input in
      if \<not> closed \<and> (line = [] \<or> last line \<noteq> CHR 0x0A) then None
      else if line = [] then Some (Inl (eof_error i), rest)
      else if \<not> valid_utf8 line then Some (Inl (IoOther ''stream did not contain valid UTF-8''), rest)
      else
        let trimmed = trim line in
        if trimmed = [] then read_response_from parse closed i rest
        else case parse trimmed of
            Inl _ \<Rightarrow> read_response_from parse closed i rest
          | Inr v \<Rightarrow> if id_of v = Some i then Some (Inr v, rest) else read_response_from parse closed i rest)"
  by pat_completeness auto
termination
  by (relation "measure (\<lambda>(_, _, _, input). length input)")
    (auto, (metis read_line_shorter read_line_split append_is_Nil_conv fst_conv snd_conv)+)

declare read_response_from.simps [simp del]

definition read_response :: "'p stdio_os \<Rightarrow> json_text \<Rightarrow> i64 \<Rightarrow> ('p, json) stdio_call" where
  "read_response os jt i c =
     (case read_response_from (jt_from_str jt) (io_closed os (sm_child c)) i (sm_stdout c) of
        None \<Rightarrow> None
      | Some (r, rest) \<Rightarrow> Some (r, c\<lparr>sm_stdout := rest\<rparr>))"

definition shutdown :: "'p stdio_os \<Rightarrow> 'p stdio_mcp \<Rightarrow> 'p stdio_mcp" where
  "shutdown os c = c\<lparr>sm_child := io_kill os (sm_child c)\<rparr>"

section \<open>Requests\<close>

definition rpc_request :: "i64 \<Rightarrow> string \<Rightarrow> json \<Rightarrow> json" where
  "rpc_request i method params =
     json_obj [(''jsonrpc'', JStr ''2.0''), (''id'', jint i), (''method'', JStr method), (''params'', params)]"

definition initialize_request :: "i64 \<Rightarrow> json" where
  "initialize_request i =
     rpc_request i ''initialize''
       (json_obj [(''protocolVersion'', JStr ''2024-11-05''), (''capabilities'', JObj []),
                  (''clientInfo'', json_obj [(''name'', JStr ''parity-harness''), (''version'', JStr ''1.0.0'')])])"

definition initialized_notification :: json where
  "initialized_notification =
     json_obj [(''jsonrpc'', JStr ''2.0''), (''method'', JStr ''notifications/initialized'')]"

definition tools_call_request :: "i64 \<Rightarrow> string \<Rightarrow> json \<Rightarrow> json" where
  "tools_call_request i name a =
     rpc_request i ''tools/call'' (json_obj [(''name'', JStr name), (''arguments'', a)])"

text \<open>A request and its response.\<close>

definition exchange :: "'p stdio_os \<Rightarrow> json_text \<Rightarrow> (i64 \<Rightarrow> json) \<Rightarrow> ('p, json) stdio_call" where
  "exchange os jt request =
     try_then alloc_id (\<lambda>i. try_then (stdio_send os jt (request i)) (\<lambda>_. read_response os jt i))"

definition initialize :: "'p stdio_os \<Rightarrow> json_text \<Rightarrow> ('p, unit) stdio_call" where
  "initialize os jt =
     try_then (exchange os jt initialize_request) (\<lambda>_. stdio_send os jt initialized_notification)"

text \<open>
  \<^verbatim>\<open>spawn\<close> gives the client or the error; a client whose handshake fails is dropped, which kills the
  server. \<open>None\<close>: the handshake waits for ever.
\<close>

definition stdio_new :: "'p \<Rightarrow> 'p stdio_mcp" where
  "stdio_new p = \<lparr>sm_child = p, sm_stdout = [], sm_next_id = 1\<rparr>"

definition stdio_spawn ::
  "'p stdio_os \<Rightarrow> json_text \<Rightarrow> string \<Rightarrow> (string \<times> string) list \<Rightarrow> (io_error \<times> 'p option + 'p stdio_mcp) option" where
  "stdio_spawn os jt program envs =
     (case io_start os program envs of
        Inl e \<Rightarrow> Some (Inl (e, None))
      | Inr p \<Rightarrow>
          (case initialize os jt (stdio_new p) of
             None \<Rightarrow> None
           | Some (Inl e, c) \<Rightarrow> Some (Inl (e, Some (sm_child (shutdown os c))))
           | Some (Inr _, c) \<Rightarrow> Some (Inr c)))"

definition json_path :: "string list \<Rightarrow> json \<Rightarrow> json option" where
  "json_path ks v = foldl (\<lambda>ov k. case ov of None \<Rightarrow> None | Some v \<Rightarrow> json_get v k) (Some v) ks"

text \<open>\<^verbatim>\<open>server_info\<close>: a server of its own, killed at the end whatever happens.\<close>

definition stdio_server_info ::
  "'p stdio_os \<Rightarrow> json_text \<Rightarrow> string \<Rightarrow> (string \<times> string) list \<Rightarrow> ((io_error + json) \<times> 'p option) option" where
  "stdio_server_info os jt program envs =
     (case io_start os program envs of
        Inl e \<Rightarrow> Some (Inl e, None)
      | Inr p \<Rightarrow>
          (case exchange os jt initialize_request (stdio_new p) of
             None \<Rightarrow> None
           | Some (r, c) \<Rightarrow>
               Some (map_ok (\<lambda>resp. case json_path [''result'', ''serverInfo''] resp of None \<Rightarrow> JNull | Some info \<Rightarrow> info) r,
                     Some (sm_child (shutdown os c)))))"

definition stdio_list_tools :: "'p stdio_os \<Rightarrow> json_text \<Rightarrow> ('p, json list) stdio_call" where
  "stdio_list_tools os jt =
     try_then (exchange os jt (\<lambda>i. rpc_request i ''tools/list'' (JObj []))) (\<lambda>resp.
       ret (Inr (case json_path [''result'', ''tools''] resp of Some (JArr tools) \<Rightarrow> tools | _ \<Rightarrow> [])))"

record tool_call_result =
  tc_is_error :: bool
  tc_text :: string
  tc_json :: "json option"

definition first_text :: "json \<Rightarrow> string" where
  "first_text result =
     (case json_get result ''content'' of
        Some (JArr (c # _)) \<Rightarrow> (case json_get c ''text'' of Some (JStr t) \<Rightarrow> t | _ \<Rightarrow> [])
      | _ \<Rightarrow> [])"

definition tool_call_result_of :: "json_text \<Rightarrow> json \<Rightarrow> tool_call_result" where
  "tool_call_result_of jt resp =
     (let result = (case json_get resp ''result'' of Some r \<Rightarrow> r | None \<Rightarrow> JNull);
          txt = first_text result in
      \<lparr>tc_is_error = (json_get result ''isError'' = Some (JBool True)), tc_text = txt,
       tc_json = (case jt_from_str jt txt of Inr v \<Rightarrow> Some v | Inl _ \<Rightarrow> None)\<rparr>)"

definition stdio_call_tool :: "'p stdio_os \<Rightarrow> json_text \<Rightarrow> string \<Rightarrow> json \<Rightarrow> ('p, tool_call_result) stdio_call" where
  "stdio_call_tool os jt name a =
     try_then (exchange os jt (\<lambda>i. tools_call_request i name a)) (\<lambda>resp. ret (Inr (tool_call_result_of jt resp)))"

section \<open>Finding the server binaries\<close>

definition path_present :: "system \<Rightarrow> string \<Rightarrow> bool" where
  "path_present sy path \<longleftrightarrow> sy_metadata sy path \<noteq> None"

definition which :: "system \<Rightarrow> string \<Rightarrow> string option" where
  "which sy name =
     (case sy_path_var sy of
        None \<Rightarrow> None
      | Some pv \<Rightarrow> map_option from_utf8_lossy (find (path_is_file sy) (map (\<lambda>dir. if dir = [] then name else path_join dir name) (split_on (CHR '':'') pv))))"

text \<open>An override that names something, then what follows.\<close>

definition override_or :: "system \<Rightarrow> string \<Rightarrow> string option \<Rightarrow> string option" where
  "override_or sy var rest =
     (case sy_var sy var of
        Some path \<Rightarrow> if path \<noteq> [] \<and> path_present sy path then Some path else rest
      | None \<Rightarrow> rest)"

definition go_reference_binary :: "system \<Rightarrow> string option" where
  "go_reference_binary sy = override_or sy ''GO_DEBUG_MCP_BIN'' (which sy ''lldb-debug-mcp'')"

definition rust_binary :: "system \<Rightarrow> string option" where
  "rust_binary sy =
     override_or sy ''DEBUG_MCP_BIN''
       (case sy_var sy ''CARGO_TARGET_DIR'' of
          Some target \<Rightarrow>
            if path_present sy (target @ ''/debug/debug-mcp'') then Some (target @ ''/debug/debug-mcp'')
            else which sy ''debug-mcp''
        | None \<Rightarrow> which sy ''debug-mcp'')"

section \<open>A response among other lines\<close>

definition newline :: string where "newline = [CHR 0x0A]"

lemma newline_not_empty [simp]: "newline \<noteq> []"
  by (simp add: newline_def)

abbreviation unlines :: "string list \<Rightarrow> string" where
  "unlines ls \<equiv> concat (map (\<lambda>l. l @ newline) ls)"

definition plain_line :: "string \<Rightarrow> bool" where
  "plain_line l \<longleftrightarrow> CHR 0x0A \<notin> set l \<and> valid_utf8 (l @ newline)"

text \<open>The message of a line that is the response to request \<open>i\<close>.\<close>

definition response_in :: "(string \<Rightarrow> json_error + json) \<Rightarrow> i64 \<Rightarrow> string \<Rightarrow> json option" where
  "response_in parse i l =
     (if trim (l @ newline) = [] then None
      else case parse (trim (l @ newline)) of Inl _ \<Rightarrow> None | Inr v \<Rightarrow> if id_of v = Some i then Some v else None)"

lemma read_line_plain: "CHR 0x0A \<notin> set l \<Longrightarrow> read_line (l @ newline @ rest) = (l @ newline, rest)"
proof -
  assume "CHR 0x0A \<notin> set l"
  then have "takeWhile (\<lambda>c. c \<noteq> CHR 0x0A) (l @ newline @ rest) = l"
    "dropWhile (\<lambda>c. c \<noteq> CHR 0x0A) (l @ newline @ rest) = newline @ rest"
    by (subst takeWhile_append2 dropWhile_append2; auto simp: newline_def)+
  then show ?thesis unfolding read_line_def Let_def by (simp add: newline_def)
qed

lemma read_response_line:
  assumes "plain_line l"
  shows "read_response_from parse closed i (l @ newline @ rest) =
    (case response_in parse i l of Some v \<Rightarrow> Some (Inr v, rest) | None \<Rightarrow> read_response_from parse closed i rest)"
proof -
  have r: "read_line (l @ newline @ rest) = (l @ newline, rest)" "last (l @ newline) = CHR 0x0A" "l @ newline \<noteq> []"
    using assms read_line_plain [of l rest] by (auto simp: plain_line_def newline_def)
  show ?thesis
    using assms
    by (subst read_response_from.simps)
      (auto simp: r response_in_def plain_line_def Let_def split: sum.split)
qed

text \<open>The first response and what follows it.\<close>

fun first_response :: "(string \<Rightarrow> json_error + json) \<Rightarrow> i64 \<Rightarrow> string list \<Rightarrow> (json \<times> string list) option" where
  "first_response parse i [] = None"
| "first_response parse i (l # ls) =
     (case response_in parse i l of Some v \<Rightarrow> Some (v, ls) | None \<Rightarrow> first_response parse i ls)"

lemma read_response_lines:
  "\<forall>l \<in> set ls. plain_line l \<Longrightarrow>
     read_response_from parse closed i (unlines ls @ rest) =
       (case first_response parse i ls of
          Some (v, later) \<Rightarrow> Some (Inr v, unlines later @ rest)
        | None \<Rightarrow> read_response_from parse closed i rest)"
  by (induction ls) (auto simp: read_response_line split: option.split)

lemma read_response_end:
  "read_response_from parse True i [] = Some (Inl (eof_error i), [])" "read_response_from parse False i [] = None"
  by (simp_all add: read_response_from.simps read_line_def Let_def)

text \<open>
  Reading a response is a search for the first line that is the response: over any lines the
  server has written - blank ones, log text, notifications, answers to other requests - the first
  JSON message with the asked id is returned and the lines after it stay unread; if there is none,
  the read fails when the server has closed its output and waits when it has not.
\<close>

theorem read_response_is_search:
  assumes "sm_stdout c = unlines ls" "\<forall>l \<in> set ls. plain_line l"
  shows "read_response os jt i c =
    (case first_response (jt_from_str jt) i ls of
       Some (v, later) \<Rightarrow> Some (Inr v, c\<lparr>sm_stdout := unlines later\<rparr>)
     | None \<Rightarrow> if io_closed os (sm_child c) then Some (Inl (eof_error i), c\<lparr>sm_stdout := []\<rparr>) else None)"
  using read_response_lines [OF assms(2), of "jt_from_str jt" "io_closed os (sm_child c)" i "[]"]
  by (cases "io_closed os (sm_child c)")
    (simp_all add: read_response_def assms(1) read_response_end split: option.split)

section \<open>A tool call through the pipe\<close>

text \<open>A call's result as the protocol carries it: an error flag, and the text of the first content.\<close>

definition carries :: "json \<Rightarrow> bool \<times> string \<Rightarrow> bool" where
  "carries result r \<longleftrightarrow>
     (case json_get result ''isError'' of None \<Rightarrow> \<not> fst r | Some b \<Rightarrow> b = JBool (fst r)) \<and>
     (\<exists>c cs. json_get result ''content'' = Some (JArr (c # cs)) \<and> json_get c ''text'' = Some (JStr (snd r)))"

lemma first_response_append:
  "\<forall>l \<in> set ls. response_in parse i l = None \<Longrightarrow> first_response parse i (ls @ l # later) =
     (case response_in parse i l of Some v \<Rightarrow> Some (v, later) | None \<Rightarrow> first_response parse i later)"
  by (induction ls) simp_all

lemma carries_result:
  assumes "carries result r" "json_get resp ''result'' = Some result"
  shows "tc_is_error (tool_call_result_of jt resp) = fst r" "tc_text (tool_call_result_of jt resp) = snd r"
  using assms by (auto simp: carries_def tool_call_result_of_def first_text_def Let_def split: option.splits)

text \<open>
  C18. A tool call over the pipe shows the outcome of the handler. If the server answers the line of the
  call, after whatever else it writes, with a response that carries the handler's result, then
  \<^verbatim>\<open>call_tool\<close> returns with that result: the error flag says whether the outcome is an error, the text
  is the outcome's, and a JSON outcome comes back as the same value. Lines left over from before are
  skipped, what follows the response is kept, and the next call uses the next id.
\<close>

theorem call_tool_shows_outcome:
  assumes "io_write os (jt_to_string jt (tools_call_request (sm_next_id c) name a) @ newline) (sm_child c) =
      (Inr (unlines (noise @ line # later)), p)"
    and "sm_stdout c = unlines old" "\<forall>l \<in> set (old @ noise @ line # later). plain_line l"
    and "\<forall>l \<in> set (old @ noise). response_in (jt_from_str jt) (sm_next_id c) l = None"
    and "response_in (jt_from_str jt) (sm_next_id c) line = Some resp" "json_get resp ''result'' = Some result"
    and "carries result (outcome_to_result (jt_to_string jt) out)"
  shows "\<exists>r. stdio_call_tool os jt name a c =
      Some (Inr r, \<lparr>sm_child = p, sm_stdout = unlines later, sm_next_id = wrap_i64 (sm_next_id c + 1)\<rparr>) \<and>
    tc_is_error r = is_error out \<and> tc_text r = snd (outcome_to_result (jt_to_string jt) out) \<and>
    (\<forall>v. out = Json v \<and> jt_from_str jt (jt_to_string jt v) = Inr v \<longrightarrow> tc_json r = Some v)"
proof -
  let ?i = "sm_next_id c"
  let ?c = "\<lparr>sm_child = p, sm_stdout = unlines (old @ noise @ line # later), sm_next_id = wrap_i64 (?i + 1)\<rparr>"
  have "first_response (jt_from_str jt) ?i (old @ noise @ line # later) = Some (resp, later)"
    using first_response_append [OF assms(4), of line later] assms(5) by simp
  with read_response_lines [OF assms(3), of "jt_from_str jt" "io_closed os p" ?i "[]"]
  have read: "read_response os jt ?i ?c = Some (Inr resp, ?c\<lparr>sm_stdout := unlines later\<rparr>)"
    by (simp add: read_response_def)
  have "stdio_call_tool os jt name a c = Some (Inr (tool_call_result_of jt resp), ?c\<lparr>sm_stdout := unlines later\<rparr>)"
    using assms(1,2) read
    by (cases c) (simp add: stdio_call_tool_def exchange_def try_then_def seq_def alloc_id_def stdio_send_def ret_def newline_def)
  moreover have "fst (outcome_to_result (jt_to_string jt) out) = is_error out"
    by (cases out) (simp_all add: outcome_to_result_def is_error_def)
  moreover have "tc_json (tool_call_result_of jt resp) = Some v"
    if "out = Json v" "jt_from_str jt (jt_to_string jt v) = Inr v" for v
    using carries_result(2) [OF assms(7,6), of jt] that
    by (simp add: tool_call_result_of_def outcome_to_result_def Let_def)
  ultimately show ?thesis using carries_result [OF assms(7,6), of jt] by simp
qed

text \<open>A server that writes a log line and a notification before its answer, read by the two operations.\<close>

definition sample_text :: json_text where
  "sample_text =
     \<lparr>jt_to_string = (\<lambda>_. ''{}''),
      jt_from_str = (\<lambda>s. if s = ''{}'' then Inr (JObj []) else if s = ''note'' then Inr (json_obj [(''method'', JStr ''log'')])
        else if s = ''answer'' then Inr (json_obj [(''id'', jint 1), (''result'', json_obj
          [(''content'', JArr [json_obj [(''text'', JStr ''{}'')]]), (''isError'', JBool False)])])
        else Inl (Syntax s))\<rparr>"

definition sample_stdio :: "unit stdio_os" where
  "sample_stdio =
     \<lparr>io_start = (\<lambda>_ _. Inr ()), io_write = (\<lambda>_ p. (Inr (unlines [''started'', ''note'', ''answer'']), p)),
      io_closed = (\<lambda>_. False), io_kill = (\<lambda>p. p)\<rparr>"

lemma sample_lines:
  "\<forall>l \<in> set [''started'', ''note'', ''answer'']. plain_line l"
  "response_in (jt_from_str sample_text) 1 ''started'' = None" "response_in (jt_from_str sample_text) 1 ''note'' = None"
  "map_option (\<lambda>v. json_get v ''result'') (response_in (jt_from_str sample_text) 1 ''answer'') =
     Some (Some (json_obj [(''content'', JArr [json_obj [(''text'', JStr ''{}'')]]), (''isError'', JBool False)]))"
  by code_simp+

theorem read_response_is_search_witness:
  "\<exists>v. read_response sample_stdio sample_text 1 ((stdio_new ())\<lparr>sm_stdout := unlines [''started'', ''note'', ''answer'']\<rparr>) =
     Some (Inr v, stdio_new ())"
proof -
  obtain v where "response_in (jt_from_str sample_text) 1 ''answer'' = Some v"
    using sample_lines(4) by (cases "response_in (jt_from_str sample_text) 1 ''answer''") auto
  with read_response_is_search [OF _ sample_lines(1),
      where c = "(stdio_new ())\<lparr>sm_stdout := unlines [''started'', ''note'', ''answer'']\<rparr>" and os = sample_stdio
        and jt = sample_text and i = 1] sample_lines(2,3)
  show ?thesis by (simp add: stdio_new_def)
qed

theorem call_tool_shows_outcome_witness:
  "\<exists>r c. stdio_call_tool sample_stdio sample_text ''status'' (JObj []) (stdio_new ()) = Some (Inr r, c) \<and>
     \<not> tc_is_error r \<and> tc_json r = Some (JObj [])"
proof -
  obtain v where v: "response_in (jt_from_str sample_text) 1 ''answer'' = Some v"
    "json_get v ''result'' = Some (json_obj [(''content'', JArr [json_obj [(''text'', JStr ''{}'')]]), (''isError'', JBool False)])"
    using sample_lines(4) by (cases "response_in (jt_from_str sample_text) 1 ''answer''") auto
  have new: "sm_next_id (stdio_new ()) = 1" "sm_child (stdio_new ()) = ()" "sm_stdout (stdio_new ()) = unlines []"
    by (simp_all add: stdio_new_def)
  have w: "io_write sample_stdio (jt_to_string sample_text (tools_call_request (sm_next_id (stdio_new ())) ''status'' (JObj [])) @ newline)
      (sm_child (stdio_new ())) = (Inr (unlines ([''started'', ''note''] @ ''answer'' # [])), ())"
    by (simp add: sample_stdio_def)
  have "carries (json_obj [(''content'', JArr [json_obj [(''text'', JStr ''{}'')]]), (''isError'', JBool False)])
      (outcome_to_result (jt_to_string sample_text) (Json (JObj [])))"
    by (simp add: carries_def outcome_to_result_def sample_text_def json_obj_def bt_of_list_def)
  from call_tool_shows_outcome [OF w new(3) _ _ _ v(2) this] v(1) sample_lines(1-3) show ?thesis
    by (simp add: new is_error_def) (auto simp: sample_text_def)
qed

end
