(* ===== verification/Tool_Outcomes.thy ===== *)
theory Tool_Outcomes
  imports Tool_Laws
begin

text \<open>
  Two facts about every tool at once: its outcome has one of the shapes the server maps to a result,
  and it returns whenever the backend calls it awaits return.
\<close>

section \<open>The shape of outcomes\<close>

definition yields :: "('a \<Rightarrow> bool) \<Rightarrow> ('b, 'w, 'a) task \<Rightarrow> bool" where
  "yields P p \<longleftrightarrow> (\<forall>s x t. p s = Some (x, t) \<longrightarrow> P x)"

named_theorems yields_rules \<open>computations all of whose results satisfy a predicate\<close>

lemma yields_ret [yields_rules]: "P x \<Longrightarrow> yields P (ret x)"
  by (simp add: yields_def ret_def)

lemma yields_seq [yields_rules]: "(\<And>x. yields P (f x)) \<Longrightarrow> yields P (seq p f)"
  unfolding yields_def seq_def by (auto split: option.splits)

lemma yields_guarded [yields_rules]: "(\<And>e. P (Error e)) \<Longrightarrow> yields P p \<Longrightarrow> yields P (guarded_by allowed p)"
  by (auto simp: yields_def guarded_by_def split: sum.splits)

lemma yields_arg [yields_rules]: "(\<And>e. P (Error e)) \<Longrightarrow> (\<And>x. yields P (k x)) \<Longrightarrow> yields P (arg_or r k)"
  by (auto simp: arg_or_def intro!: yields_ret split: sum.split)

lemma yields_call [yields_rules]:
  "(\<And>e. P (Error e)) \<Longrightarrow> (\<And>x. yields P (k x)) \<Longrightarrow> yields P (call_or sh p k)"
  unfolding call_or_def by (auto intro!: yields_seq yields_ret split: sum.split)

lemma yields_backend [yields_rules]:
  "(\<And>e. P (Error e)) \<Longrightarrow> (\<And>api. yields P (k api)) \<Longrightarrow> yields P (with_backend env m k)"
  unfolding with_backend_def by (auto intro!: yields_seq yields_ret split: option.split)

text \<open>
  A success is a JSON object whose keys are sorted and distinct, a failure a text that is not JSON;
  only a start can also be answered by plain text.
\<close>

definition outcome_ok :: "bool \<Rightarrow> tool_outcome \<Rightarrow> bool" where
  "outcome_ok starts out \<longleftrightarrow>
     (case out of
        Json (JObj m) \<Rightarrow> bt_ok m
      | Json _ \<Rightarrow> False
      | Text txt \<Rightarrow> starts \<and> txt \<in> {''Program exited during launch'', ''Process exited during attach''}
      | Error _ \<Rightarrow> True)"

lemma outcome_ok_simps [simp]:
  "outcome_ok b (Error e)" "bt_ok m \<Longrightarrow> outcome_ok b (into_outcome m)"
  "outcome_ok True (Text ''Program exited during launch'')" "outcome_ok True (Text ''Process exited during attach'')"
  by (simp_all add: outcome_ok_def into_outcome_def resp_build_def)

lemma bt_ok_merge [simp]: "bt_ok b \<Longrightarrow> bt_ok (merge_output es b)"
proof -
  have "bt_ok b \<Longrightarrow> bt_ok (fold (\<lambda>(k, v). resp_set k v) kvs b)" for kvs
    by (induction kvs arbitrary: b) auto
  then show "bt_ok b \<Longrightarrow> ?thesis" by (simp add: merge_output_def)
qed

lemma yields_stop_result: "yields (outcome_ok b) (handle_stop_result outcome g)"
  unfolding handle_stop_result_def
  by (cases outcome) (auto intro!: yields_rules simp: stopped_response_def)

lemma yields_resume: "yields (outcome_ok b) (resume_tool env r oe msg a ct)"
  unfolding resume_tool_def Let_def
  by (auto intro!: yields_rules yields_stop_result split: option.split sum.split)

lemma yields_status: "yields (outcome_ok b) handle_status"
  unfolding handle_status_def
  by (auto simp: yields_def seq_def read_session_def ret_def Let_def split: sess_state.splits option.splits)

lemma yields_inspection:
  "yields (outcome_ok b) (handle_backtrace env a)" "yields (outcome_ok b) (handle_threads env)"
  "yields (outcome_ok b) (handle_variables env a)" "yields (outcome_ok b) (handle_evaluate env a)"
  "yields (outcome_ok b) (handle_run_command env a)" "yields (outcome_ok b) (handle_read_memory env a)"
  "yields (outcome_ok b) (handle_disassemble env a)" "yields (outcome_ok b) (handle_pause env)"
  "yields (outcome_ok b) handle_read_output"
  unfolding handle_backtrace_def handle_threads_def handle_variables_def handle_evaluate_def
    handle_run_command_def handle_read_memory_def handle_disassemble_def disassemble_from_def
    handle_pause_def handle_read_output_def Let_def
  by (auto intro!: yields_rules split: option.split)

lemma yields_breakpoints:
  "yields (outcome_ok b) (handle_set_breakpoint env a)" "yields (outcome_ok b) (handle_set_function_breakpoint env a)"
  "yields (outcome_ok b) (handle_remove_breakpoint env a)" "yields (outcome_ok b) (handle_list_breakpoints env)"
  unfolding handle_set_breakpoint_def handle_set_function_breakpoint_def handle_remove_breakpoint_def
    send_remaining_def handle_list_breakpoints_def Let_def
  by (auto intro!: yields_rules split: option.split sum.split)

lemma yields_lifecycle:
  "yields (outcome_ok True) (handle_launch env a ct)" "yields (outcome_ok True) (handle_attach env a ct)"
  "yields (outcome_ok b) (handle_disconnect env a)"
  unfolding handle_launch_def handle_attach_def handle_disconnect_def connected_def handshake_def launch_report_def
    attach_report_def stopped_at_start_def Let_def
  by (auto intro!: yields_rules simp: started_stopped_def started_def
      split: option.split sum.split launch_outcome.split attach_outcome.split)

text \<open>
  C27. Every outcome of every tool is one of three: a JSON object with sorted distinct keys, an error,
  or, for launch and attach only, one of the two plain texts.
\<close>

theorem outcomes_well_formed:
  "dispatch env name a ct s = Some (out, t) \<Longrightarrow> outcome_ok (name \<in> {''launch'', ''attach''}) out"
proof -
  assume d: "dispatch env name a ct s = Some (out, t)"
  have y: "outcome_ok b out" if "yields (outcome_ok b) p" "p s = Some (out, t)" for p b
    using that by (auto simp: yields_def)
  have err: "yields (outcome_ok b) (ret (Error e))" for b e
    by (simp add: yields_ret)
  from d show ?thesis
    unfolding dispatch_def
    by (elim ite_elim)
      (simp_all add: y [OF yields_status] y [OF err] y [OF yields_inspection(1)] y [OF yields_inspection(2)]
        y [OF yields_inspection(3)] y [OF yields_inspection(4)] y [OF yields_inspection(5)]
        y [OF yields_inspection(6)] y [OF yields_inspection(7)] y [OF yields_inspection(8)]
        y [OF yields_inspection(9)] y [OF yields_breakpoints(1)] y [OF yields_breakpoints(2)]
        y [OF yields_breakpoints(3)] y [OF yields_breakpoints(4)] y [OF yields_lifecycle(1)]
        y [OF yields_lifecycle(2)] y [OF yields_lifecycle(3)] y [OF yields_resume]
        handle_continue_def handle_step_over_def handle_step_into_def handle_step_out_def)
qed

theorem outcomes_well_formed_witness:
  "outcome_ok False (Error ''no debug session active. Use 'launch' or 'attach' first.'') \<and>
   dispatch (env_with closed_api) ''pause'' [] (\<lambda>_. None) (tool_server_new session_new ()) =
     Some (Error ''no debug session active. Use 'launch' or 'attach' first.'', tool_server_new session_new ())"
  (is "_ \<and> ?d = Some (?o, ?t)")
proof -
  have d: "?d = Some (?o, ?t)"
    using guarded_by_refuses [of ?t "[Running]"]
    by (simp add: dispatch_def handle_pause_def refusal_def tool_server_new_def session_new_def)
  from outcomes_well_formed [OF d] d show ?thesis by simp
qed

section \<open>Termination\<close>

definition finishes :: "('b, 'w, 'a) task \<Rightarrow> bool" where
  "finishes p \<longleftrightarrow> (\<forall>s. p s \<noteq> None)"

text \<open>A backend all of whose calls return, with a result or an error.\<close>

definition responsive :: "('b, 'w) backend_api \<Rightarrow> bool" where
  "responsive api \<longleftrightarrow>
     (\<forall>x. finishes (ba_launch api x)) \<and> (\<forall>x. finishes (ba_attach api x)) \<and> (\<forall>x. finishes (ba_disconnect api x)) \<and>
     (\<forall>x y. finishes (ba_set_source_breakpoints api x y)) \<and> (\<forall>x. finishes (ba_set_function_breakpoints api x)) \<and>
     (\<forall>x. finishes (ba_cont api x)) \<and> (\<forall>x y z. finishes (ba_step api x y z)) \<and> finishes (ba_pause api) \<and>
     finishes (ba_threads api) \<and> (\<forall>x y z. finishes (ba_stack_trace api x y z)) \<and> (\<forall>x. finishes (ba_scopes api x)) \<and>
     (\<forall>x. finishes (ba_variables api x)) \<and> (\<forall>x y z. finishes (ba_evaluate api x y z)) \<and>
     (\<forall>x y. finishes (ba_read_memory api x y)) \<and> (\<forall>x y. finishes (ba_disassemble api x y))"

named_theorems finishes_rules \<open>computations that return\<close>

lemma finishes_ret [finishes_rules]: "finishes (ret x)"
  by (simp add: finishes_def ret_def)

lemma finishes_seq [finishes_rules]: "finishes p \<Longrightarrow> (\<And>x. finishes (f x)) \<Longrightarrow> finishes (seq p f)"
  unfolding finishes_def seq_def by (auto split: option.split)

lemma finishes_session [finishes_rules]:
  "finishes (modify_session g)" "finishes (session_step h)" "finishes (read_session r)" "finishes current_backend"
  "finishes (set_backend b)" "finishes (clear_backend env)" "finishes (spawn_event_pump b)"
  "finishes (drop_backend_bounded env)"
  by (auto simp: finishes_def modify_session_def session_step_def read_session_def current_backend_def set_backend_def
      clear_backend_def spawn_event_pump_def drop_backend_bounded_def split: prod.split option.split)

lemma finishes_guarded [finishes_rules]: "finishes p \<Longrightarrow> finishes (guarded_by allowed p)"
  by (simp add: finishes_def guarded_by_def split: sum.split)

lemma finishes_arg [finishes_rules]: "(\<And>x. finishes (k x)) \<Longrightarrow> finishes (arg_or r k)"
  by (simp add: arg_or_def finishes_ret split: sum.split)

lemma finishes_call [finishes_rules]: "finishes p \<Longrightarrow> (\<And>x. finishes (k x)) \<Longrightarrow> finishes (call_or sh p k)"
  unfolding call_or_def by (auto intro!: finishes_seq finishes_ret split: sum.split)

lemma finishes_try [finishes_rules]: "finishes p \<Longrightarrow> (\<And>x. finishes (k x)) \<Longrightarrow> finishes (try_then p k)"
  unfolding try_then_def by (auto intro!: finishes_seq finishes_ret split: sum.split)

lemma finishes_with_err [finishes_rules]: "finishes p \<Longrightarrow> finishes (with_err g p)"
  unfolding with_err_def by (intro finishes_seq finishes_ret)

lemma finishes_backend [finishes_rules]:
  "(\<And>b. finishes (k (env_api env b))) \<Longrightarrow> finishes (with_backend env m k)"
  unfolding with_backend_def by (auto intro!: finishes_rules split: option.split)

lemma finishes_select [finishes_rules]: "finishes p \<Longrightarrow> finishes (select_cancel ct p)"
  unfolding finishes_def select_cancel_def by (auto split: option.split) (metis not_None_eq)

lemma finishes_flatten:
  assumes "\<And>r. finishes (fetch r)"
  shows "finishes (flatten_recursive fetch max_count var_ref pfx depth r)"
    and "finishes (flatten_loop fetch max_count pfx depth vs r)"
  using assms
proof (induction fetch max_count var_ref pfx depth r and fetch max_count pfx depth vs r
    rule: flatten_recursive_flatten_loop.induct)
  case (1 fetch max_count var_ref pfx depth r)
  then show ?case by (simp add: flatten_recursive.simps finishes_rules)
next
  case (2 fetch max_count pfx depth r)
  then show ?case by (simp add: finishes_ret)
next
  case (3 fetch max_count pfx depth v vs r)
  show ?case
    unfolding flatten_loop.simps Let_def
    using 3 by (auto intro!: finishes_ret finishes_try simp: Let_def)
qed

lemma finishes_flatten_variables [finishes_rules]:
  assumes "\<And>r. finishes (fetch r)"
  shows "finishes (flatten_variables te fetch reference depth max_count filt)"
proof -
  have "finishes (flatten_top te fetch max_count filt d vs r)" for d vs r
    using assms by (induction vs arbitrary: r) (auto intro!: finishes_rules finishes_flatten simp: Let_def)
  then show ?thesis unfolding flatten_variables_def by (intro finishes_rules assms)
qed

lemma finishes_stop_result [finishes_rules]: "finishes (handle_stop_result outcome g)"
  unfolding handle_stop_result_def by (cases outcome) (auto intro!: finishes_rules)

lemma finishes_resolve [finishes_rules]: "responsive api \<Longrightarrow> finishes (resolve_frame_id api i)"
  unfolding resolve_frame_id_def
  by (auto intro!: finishes_rules simp: responsive_def Let_def split: option.split)

lemma finishes_cached: "finishes handle_status" "finishes handle_read_output"
  unfolding handle_status_def handle_read_output_def by (auto intro!: finishes_rules)

lemma finishes_handlers:
  assumes api: "\<And>b. responsive (env_api env b)"
  shows "finishes (handle_set_breakpoint env a)" "finishes (handle_set_function_breakpoint env a)"
    "finishes (handle_remove_breakpoint env a)" "finishes (handle_list_breakpoints env)"
    "finishes (handle_backtrace env a)" "finishes (handle_threads env)" "finishes (handle_variables env a)"
    "finishes (handle_evaluate env a)" "finishes (handle_run_command env a)" "finishes (handle_read_memory env a)"
    "finishes (handle_disassemble env a)" "finishes (handle_pause env)"
  using api
  unfolding handle_set_breakpoint_def handle_set_function_breakpoint_def handle_remove_breakpoint_def
    send_remaining_def handle_list_breakpoints_def handle_backtrace_def handle_threads_def
    handle_variables_def handle_evaluate_def handle_run_command_def handle_read_memory_def handle_disassemble_def
    disassemble_from_def handle_pause_def Let_def
  by (auto intro!: finishes_rules simp: responsive_def split: option.split sum.split)

lemma finishes_driving:
  assumes api: "\<And>b. responsive (env_api env b)" and con: "finishes (env_connect env)"
  shows "finishes (handle_launch env a ct)" "finishes (handle_attach env a ct)" "finishes (handle_disconnect env a)"
    "finishes (resume_tool env r oe msg a ct)"
  using api con
  unfolding handle_launch_def handle_attach_def handle_disconnect_def best_effort_disconnect_def connected_def
    handshake_def cleanup_after_cancel_def launch_report_def attach_report_def stopped_at_start_def resume_tool_def
    run_backend_def Let_def
  by (auto intro!: finishes_rules simp: responsive_def
      split: option.split sum.split launch_outcome.split attach_outcome.split resume.split)

text \<open>
  C20. When the factory and every backend call return, with a result or an error, every tool call
  returns: no handler waits for anything else, and the expansion of variables ends for every depth
  and every chain of references.
\<close>

theorem tools_terminate:
  assumes "\<And>b. responsive (env_api env b)" "finishes (env_connect env)"
  shows "\<exists>out t. dispatch env name a ct s = Some (out, t)"
proof -
  have "finishes (dispatch env name a ct)"
    using finishes_handlers [OF assms(1)] finishes_driving [OF assms]
    by (simp add: dispatch_def finishes_ret finishes_cached handle_continue_def handle_step_over_def handle_step_into_def
        handle_step_out_def)
  then show ?thesis by (auto simp: finishes_def)
qed

theorem tools_terminate_witness:
  "\<exists>out t. dispatch (env_with closed_api) ''variables'' [(''depth'', jint 5)] (\<lambda>_. None) (stopped_server ()) = Some (out, t)"
proof (rule tools_terminate)
  show "responsive (env_api (env_with closed_api) b)" for b :: unit
    by (simp add: responsive_def closed_api_def finishes_ret)
  show "finishes (env_connect (env_with closed_api))"
    by (simp add: env_with_def finishes_ret)
qed

end
