(* ===== verification/Tool_Schema.thy ===== *)
theory Tool_Schema
  imports Lldb_Server Tool_Laws
begin

text \<open>
  What the server advertises: \<^verbatim>\<open>mcp-tools/src/schema.rs\<close> (the tools with their input schemas) and the
  \<^verbatim>\<open>ServerHandler\<close> of \<^verbatim>\<open>server.rs\<close>; the lemmas compare it with what the handlers do with a call.
\<close>

section \<open>Input schemas\<close>

record tool_prop =
  pr_name :: string
  pr_schema :: json
  pr_required :: bool

text \<open>An object literal of the \<^verbatim>\<open>json!\<close> macro.\<close>

definition json_object :: "(string \<times> json) list \<Rightarrow> json" where
  "json_object kvs = JObj (bt_of_list kvs)"

definition string_prop :: "string \<Rightarrow> string \<Rightarrow> bool \<Rightarrow> tool_prop" where
  "string_prop name description required =
     \<lparr>pr_name = name,
      pr_schema = json_object [(''type'', JStr ''string''), (''description'', JStr description)],
      pr_required = required\<rparr>"

definition string_enum_prop :: "string \<Rightarrow> string \<Rightarrow> string list \<Rightarrow> bool \<Rightarrow> tool_prop" where
  "string_enum_prop name description enum_values required =
     \<lparr>pr_name = name,
      pr_schema = json_object [(''type'', JStr ''string''), (''description'', JStr description),
                               (''enum'', JArr (map JStr enum_values))],
      pr_required = required\<rparr>"

definition number_prop :: "string \<Rightarrow> string \<Rightarrow> bool \<Rightarrow> tool_prop" where
  "number_prop name description required =
     \<lparr>pr_name = name,
      pr_schema = json_object [(''type'', JStr ''number''), (''description'', JStr description)],
      pr_required = required\<rparr>"

definition boolean_prop :: "string \<Rightarrow> string \<Rightarrow> tool_prop" where
  "boolean_prop name description =
     \<lparr>pr_name = name,
      pr_schema = json_object [(''type'', JStr ''boolean''), (''description'', JStr description)],
      pr_required = False\<rparr>"

definition object_schema :: "tool_prop list \<Rightarrow> jmap" where
  "object_schema props =
     (let properties = fold (\<lambda>p. bt_insert (pr_name p) (pr_schema p)) props [];
          required = map (\<lambda>p. JStr (pr_name p)) (filter pr_required props);
          schema = bt_insert ''properties'' (JObj properties) (bt_insert ''type'' (JStr ''object'') [])
      in if required = [] then schema else bt_insert ''required'' (JArr required) schema)"

text \<open>A tool as the protocol library holds it.\<close>

record mcp_tool =
  mt_name :: string
  mt_description :: string
  mt_input_schema :: jmap

definition tool :: "string \<Rightarrow> string \<Rightarrow> tool_prop list \<Rightarrow> mcp_tool" where
  "tool name description props =
     \<lparr>mt_name = name, mt_description = description, mt_input_schema = object_schema props\<rparr>"

definition all_tools :: "mcp_tool list" where
  "all_tools = [
     tool ''launch'' ''Launch a program under the debugger''
       [string_prop ''program'' ''Path to the executable to debug'' True,
        string_prop ''args'' ''JSON array of command-line arguments'' False,
        string_prop ''cwd'' ''Working directory for the launched program'' False,
        string_prop ''env'' ''JSON object of environment variables'' False,
        boolean_prop ''stop_on_entry'' ''Stop at program entry point (default true)''],
     tool ''attach'' ''Attach the debugger to a running process''
       [number_prop ''pid'' ''Process ID to attach to'' False,
        string_prop ''wait_for'' ''Process name to wait for'' False],
     tool ''disconnect'' ''Disconnect from the debug session''
       [boolean_prop ''terminate'' ''Terminate the debuggee (default true)''],
     tool ''set_breakpoint'' ''Set a source-line breakpoint''
       [string_prop ''file'' ''Source file path'' True,
        number_prop ''line'' ''Line number'' True,
        string_prop ''condition'' ''Conditional expression for the breakpoint'' False],
     tool ''set_function_breakpoint'' ''Set a breakpoint on a function by name''
       [string_prop ''name'' ''Function name'' True,
        string_prop ''condition'' ''Conditional expression for the breakpoint'' False],
     tool ''remove_breakpoint'' ''Remove a breakpoint by ID''
       [number_prop ''breakpoint_id'' ''Breakpoint ID to remove'' True],
     tool ''list_breakpoints'' ''List all current breakpoints'' [],
     tool ''continue'' ''Continue execution of the paused program''
       [number_prop ''thread_id'' ''Thread ID to continue (optional)'' False],
     tool ''step_over'' ''Step over the current line or instruction''
       [number_prop ''thread_id'' ''Thread ID to step (optional)'' False,
        string_enum_prop ''granularity'' ''Step granularity'' [''line'', ''instruction''] False],
     tool ''step_into'' ''Step into the current line or instruction''
       [number_prop ''thread_id'' ''Thread ID to step (optional)'' False,
        string_enum_prop ''granularity'' ''Step granularity'' [''line'', ''instruction''] False],
     tool ''step_out'' ''Step out of the current function''
       [number_prop ''thread_id'' ''Thread ID to step out (optional)'' False],
     tool ''pause'' ''Pause all threads in the running program'' [],
     tool ''status'' ''Get the current debug session status'' [],
     tool ''backtrace'' ''Get the call stack for a thread''
       [number_prop ''thread_id'' ''Thread ID (uses stopped thread if omitted)'' False,
        number_prop ''levels'' ''Maximum number of stack frames to return'' False],
     tool ''threads'' ''List all threads in the debugged process'' [],
     tool ''variables'' ''List variables in the current scope''
       [number_prop ''frame_index'' ''Stack frame index (default 0)'' False,
        string_enum_prop ''scope'' ''Variable scope'' [''local'', ''global'', ''register''] False,
        number_prop ''depth'' ''Maximum depth for nested structures'' False,
        string_prop ''filter'' ''Filter variables by name pattern'' False],
     tool ''evaluate'' ''Evaluate an expression in the debugger''
       [string_prop ''expression'' ''Expression to evaluate'' True,
        number_prop ''frame_index'' ''Stack frame index for evaluation context'' False],
     tool ''read_output'' ''Read captured program output (stdout, stderr, console)'' [],
     tool ''read_memory'' ''Read raw memory at a given address''
       [string_prop ''address'' ''Memory address (hex string, e.g. 0x1000)'' True,
        number_prop ''count'' ''Number of bytes to read'' True],
     tool ''disassemble'' ''Disassemble instructions at an address or the current PC''
       [string_prop ''address'' ''Start address (hex string, uses current PC if omitted)'' False,
        number_prop ''instruction_count'' ''Number of instructions to disassemble'' False],
     tool ''run_command'' ''Run an LLDB command directly via the debug console''
       [string_prop ''command'' ''LLDB command string to execute'' True]]"

section \<open>The protocol's side of the server\<close>

record server_info =
  in_name :: string
  in_version :: string
  in_list_changed :: "bool option"

definition get_info :: server_info where
  "get_info = \<lparr>in_name = ''debug'', in_version = ''1.0.0'', in_list_changed = Some False\<rparr>"

definition list_tools :: "mcp_tool list" where
  "list_tools = all_tools"

definition get_tool :: "string \<Rightarrow> mcp_tool option" where
  "get_tool name = find (\<lambda>t. mt_name t = name) all_tools"

definition call_tool ::
  "('b, 'w) tool_env \<Rightarrow> (json \<Rightarrow> string) \<Rightarrow> string \<Rightarrow> args option \<Rightarrow> ('b, 'w) cancel \<Rightarrow> ('b, 'w, bool \<times> string) task" where
  "call_tool env to_text name arguments ct =
     seq (dispatch env name (case arguments of Some a \<Rightarrow> a | None \<Rightarrow> []) ct) (\<lambda>out.
       ret (outcome_to_result to_text out))"

section \<open>What the schemas say\<close>

text \<open>The names of the properties of an object schema, and of the required ones.\<close>

definition schema_properties :: "jmap \<Rightarrow> string list" where
  "schema_properties m = (case bt_get m ''properties'' of Some (JObj props) \<Rightarrow> map fst props | _ \<Rightarrow> [])"

definition schema_required :: "jmap \<Rightarrow> string list" where
  "schema_required m =
     (case bt_get m ''required'' of Some (JArr xs) \<Rightarrow> List.map_filter json_as_str xs | _ \<Rightarrow> [])"

definition advertised :: "string \<Rightarrow> string list" where
  "advertised name = (case get_tool name of Some t \<Rightarrow> schema_properties (mt_input_schema t) | None \<Rightarrow> [])"

definition required :: "string \<Rightarrow> string list" where
  "required name = (case get_tool name of Some t \<Rightarrow> schema_required (mt_input_schema t) | None \<Rightarrow> [])"

text \<open>What the schema of each tool comes to, computed from the table.\<close>

definition parameters :: "(string \<times> string list \<times> string list) list" where
  "parameters =
     [(''launch'', [''args'', ''cwd'', ''env'', ''program'', ''stop_on_entry''], [''program'']),
      (''attach'', [''pid'', ''wait_for''], []),
      (''disconnect'', [''terminate''], []),
      (''set_breakpoint'', [''condition'', ''file'', ''line''], [''file'', ''line'']),
      (''set_function_breakpoint'', [''condition'', ''name''], [''name'']),
      (''remove_breakpoint'', [''breakpoint_id''], [''breakpoint_id'']),
      (''list_breakpoints'', [], []),
      (''continue'', [''thread_id''], []),
      (''step_over'', [''granularity'', ''thread_id''], []),
      (''step_into'', [''granularity'', ''thread_id''], []),
      (''step_out'', [''thread_id''], []),
      (''pause'', [], []), (''status'', [], []),
      (''backtrace'', [''levels'', ''thread_id''], []),
      (''threads'', [], []),
      (''variables'', [''depth'', ''filter'', ''frame_index'', ''scope''], []),
      (''evaluate'', [''expression'', ''frame_index''], [''expression'']),
      (''read_output'', [], []),
      (''read_memory'', [''address'', ''count''], [''address'', ''count'']),
      (''disassemble'', [''address'', ''instruction_count''], []),
      (''run_command'', [''command''], [''command''])]"

lemma parameters_of_tools:
  "map (\<lambda>t. (mt_name t, schema_properties (mt_input_schema t), schema_required (mt_input_schema t))) all_tools = parameters"
  by code_simp

lemma find_map_of: "find (\<lambda>t. f t = k) ts = map_of (map (\<lambda>t. (f t, t)) ts) k"
  by (induction ts) auto

lemma map_of_map_prod: "map_of (map (\<lambda>t. (f t, g t)) ts) k = map_option g (find (\<lambda>t. f t = k) ts)"
  by (induction ts) auto

lemma get_tool_parameters:
  "map_option (\<lambda>t. (schema_properties (mt_input_schema t), schema_required (mt_input_schema t))) (get_tool name) =
     map_of parameters name"
  unfolding get_tool_def parameters_of_tools [symmetric] by (rule map_of_map_prod [symmetric])

lemma advertised_parameters: "advertised name = (case map_of parameters name of Some (ps, _) \<Rightarrow> ps | None \<Rightarrow> [])"
  unfolding get_tool_parameters [symmetric] by (simp add: advertised_def split: option.split)

lemma required_parameters: "required name = (case map_of parameters name of Some (_, rs) \<Rightarrow> rs | None \<Rightarrow> [])"
  unfolding get_tool_parameters [symmetric] by (simp add: required_def split: option.split)

lemma get_tool_None: "get_tool name = None \<longleftrightarrow> map_of parameters name = None"
  unfolding get_tool_parameters [symmetric] by simp

section \<open>The schemas against the handlers\<close>

text \<open>Two argument objects that agree on the keys read give the same handler.\<close>

definition agree :: "string list \<Rightarrow> args \<Rightarrow> args \<Rightarrow> bool" where
  "agree ks a a' \<longleftrightarrow> (\<forall>k \<in> set ks. bt_get a k = bt_get a' k)"

definition only :: "string list \<Rightarrow> args \<Rightarrow> args" where
  "only ks a = filter (\<lambda>kv. fst kv \<in> set ks) a"

lemma agree_only: "agree ks (only ks a) a"
  unfolding agree_def only_def bt_get_def
proof
  fix k
  assume "k \<in> set ks"
  then show "map_of (filter (\<lambda>kv. fst kv \<in> set ks) a) k = map_of a k"
    by (induction a) auto
qed

lemmas accessors =
  require_string_def require_int_def require_positive_int_def get_string_def get_bool_def get_f64_def get_raw_def
  parse_json_array_def parse_json_object_def number_or_def explicit_positive_thread_id_def resolve_thread_id_def
  parse_granularity_def scope_arg_def frame_arg_def attach_target_def

lemma thread_agrees: "agree ks a a' \<Longrightarrow> ''thread_id'' \<in> set ks \<Longrightarrow> resolve_thread_id a = resolve_thread_id a'"
  by (simp add: agree_def fun_eq_iff accessors)

lemma granularity_agrees:
  "agree ks a a' \<Longrightarrow> ''granularity'' \<in> set ks \<Longrightarrow> parse_granularity a = parse_granularity a'"
  by (simp add: agree_def accessors)

lemma resume_agrees:
  assumes "agree ks a a'" "''thread_id'' \<in> set ks" "r \<noteq> Continue \<Longrightarrow> ''granularity'' \<in> set ks"
  shows "resume_tool env r op msg a = resume_tool env r op msg a'"
  using assms(3)
  by (cases r) (simp_all add: resume_tool_def fun_eq_iff thread_agrees [OF assms(1,2)] granularity_agrees [OF assms(1)])

lemma handlers_agree:
  "agree [''args'', ''cwd'', ''env'', ''program'', ''stop_on_entry''] a a' \<Longrightarrow> handle_launch env a = handle_launch env a'"
  "agree [''pid'', ''wait_for''] a a' \<Longrightarrow> handle_attach env a = handle_attach env a'"
  "agree [''terminate''] a a' \<Longrightarrow> handle_disconnect env a = handle_disconnect env a'"
  "agree [''condition'', ''file'', ''line''] a a' \<Longrightarrow> handle_set_breakpoint env a = handle_set_breakpoint env a'"
  "agree [''condition'', ''name''] a a' \<Longrightarrow> handle_set_function_breakpoint env a = handle_set_function_breakpoint env a'"
  "agree [''breakpoint_id''] a a' \<Longrightarrow> handle_remove_breakpoint env a = handle_remove_breakpoint env a'"
  "agree [''depth'', ''filter'', ''frame_index'', ''scope''] a a' \<Longrightarrow> handle_variables env a = handle_variables env a'"
  "agree [''expression'', ''frame_index''] a a' \<Longrightarrow> handle_evaluate env a = handle_evaluate env a'"
  "agree [''address'', ''count''] a a' \<Longrightarrow> handle_read_memory env a = handle_read_memory env a'"
  "agree [''address'', ''instruction_count''] a a' \<Longrightarrow> handle_disassemble env a = handle_disassemble env a'"
  "agree [''command''] a a' \<Longrightarrow> handle_run_command env a = handle_run_command env a'"
  by (simp_all add: agree_def fun_eq_iff handle_launch_def handle_attach_def handle_disconnect_def
      handle_set_breakpoint_def handle_set_function_breakpoint_def handle_remove_breakpoint_def handle_variables_def
      handle_evaluate_def handle_read_memory_def handle_disassemble_def handle_run_command_def accessors Let_def
      cong: option.case_cong if_cong)

lemma resume_handlers_agree:
  "agree [''thread_id''] a a' \<Longrightarrow> handle_continue env a = handle_continue env a'"
  "agree [''granularity'', ''thread_id''] a a' \<Longrightarrow> handle_step_over env a = handle_step_over env a'"
  "agree [''granularity'', ''thread_id''] a a' \<Longrightarrow> handle_step_into env a = handle_step_into env a'"
  unfolding handle_continue_def handle_step_over_def handle_step_into_def by (erule resume_agrees; simp)+

lemma handle_backtrace_agrees:
  assumes "agree [''levels'', ''thread_id''] a a'"
  shows "handle_backtrace env a = handle_backtrace env a'"
proof -
  from assms have "number_or f64_pos a ''levels'' 20 = number_or f64_pos a' ''levels'' 20"
    by (simp add: agree_def accessors)
  then show ?thesis by (simp add: fun_eq_iff handle_backtrace_def thread_agrees [OF assms])
qed

lemma step_out_ignores_granularity:
  "ba_step (lldb_api lb) Out tid gran = ba_step (lldb_api lb) Out tid None"
  by (simp add: lldb_api_def be_step_def)

lemma step_out_agrees:
  assumes "agree [''thread_id''] a a'"
  shows "handle_step_out (lldb_env m) a = handle_step_out (lldb_env m) a'"
proof -
  have ignored: "run_backend (lldb_api lb) (Step Out) tid (Some g) = run_backend (lldb_api lb) (Step Out) tid None" for lb tid g
    unfolding run_backend_def resume.case by (rule step_out_ignores_granularity)
  have lldb: "with_backend (lldb_env m) e K =
      seq current_backend (\<lambda>ob. if ob = None then ret (Error e) else K (lldb_api (lldb_of m)))" for e K
    by (auto simp: with_backend_def lldb_env_def fun_eq_iff seq_def split: option.split)
  show ?thesis
    by (cases "parse_granularity a"; cases "parse_granularity a'")
      (simp_all add: handle_step_out_def resume_tool_def fun_eq_iff lldb ignored thread_agrees [OF assms] cong: if_cong)
qed

text \<open>
  C24. What a tool does depends only on the parameters its advertised schema lists: an argument object
  cut down to them gives the same outcome, the same calls and the same state, on a debugger that is
  lldb (whose \<^verbatim>\<open>stepOut\<close> drops the granularity its handler passes on without advertising it).
\<close>

theorem schema_lists_every_parameter:
  "dispatch (lldb_env m) name (only (advertised name) a) ct s = dispatch (lldb_env m) name a ct s"
  by (simp add: advertised_parameters parameters_def dispatch_def handlers_agree [OF agree_only]
      resume_handlers_agree [OF agree_only] handle_backtrace_agrees [OF agree_only] step_out_agrees [OF agree_only])

text \<open>Error outcomes that leave everything as it was.\<close>

definition refuses :: "('b, 'w, tool_outcome) task \<Rightarrow> ('b, 'w) tool_server \<Rightarrow> bool" where
  "refuses p s \<longleftrightarrow> (\<exists>e. p s = Some (Error e, s))"

lemma refuses_guarded: "(\<And>u. refuses p u) \<Longrightarrow> refuses (guarded_by allowed p) s"
  by (auto simp: refuses_def guarded_by_def split: sum.split)

lemma refuses_arg: "(\<And>x. r = Inr x \<Longrightarrow> refuses (k x) s) \<Longrightarrow> refuses (arg_or r k) s"
  by (auto simp: refuses_def arg_or_def ret_def split: sum.split)

lemma refuses_absent:
  "bt_get a key = None \<Longrightarrow> refuses (arg_or (require_string a key) k) s"
  "bt_get a key = None \<Longrightarrow> refuses (arg_or (require_int a key) k') s"
  "bt_get a key = None \<Longrightarrow> refuses (arg_or (require_positive_int a key) k') s"
  by (simp_all add: refuses_def arg_or_def require_string_def require_int_def require_positive_int_def ret_def)

text \<open>
  A call that leaves out a parameter the schema marks as required is answered with an error and
  changes nothing: no request reaches the debugger, in whatever state the session is.
\<close>

theorem required_parameters_are_required:
  assumes "key \<in> set (required name)" "bt_get a key = None"
  shows "\<exists>e. dispatch env name a ct s = Some (Error e, s)"
proof -
  have "refuses (dispatch env name a ct) s"
    using assms unfolding required_parameters
    by (auto simp: parameters_def dispatch_def handle_launch_def handle_set_breakpoint_def
        handle_set_function_breakpoint_def handle_remove_breakpoint_def handle_evaluate_def handle_read_memory_def
        handle_run_command_def refuses_absent
        intro!: refuses_guarded intro: refuses_arg split: if_splits)
  then show ?thesis by (simp add: refuses_def)
qed

theorem required_parameters_are_required_witness:
  "\<exists>e. dispatch (env_with closed_api) ''set_breakpoint'' [(''file'', JStr ''a.c'')] (\<lambda>_. None) (stopped_server []) =
     Some (Error e, stopped_server [])"
  using required_parameters_are_required [of "''line''" "''set_breakpoint''" "[(''file'', JStr ''a.c'')]"
      "env_with closed_api" "\<lambda>_. None" "stopped_server []"]
  by (simp add: required_parameters parameters_def bt_get_def)

text \<open>
  The tools the server lists are exactly the tools it dispatches: a name \<^verbatim>\<open>get_tool\<close> does not know
  is answered with the unknown-tool error whatever the arguments and the state, and no listed name
  ever is on a fresh server.
\<close>

theorem listed_tools_are_dispatched:
  fixes env :: "('b, 'w) tool_env"
  shows "(\<forall>a s. dispatch env name a ct s = Some (Error (''unknown tool: '' @ name), s)) \<longleftrightarrow> get_tool name = None"
proof (cases "map_of parameters name")
  case None
  then show ?thesis
    unfolding get_tool_None by (auto simp: parameters_def dispatch_def ret_def split: if_splits)
next
  case (Some ps)
  then have "name \<in> set (map fst parameters)" by (metis map_of_eq_None_iff option.distinct(1) set_map)
  moreover
  let ?s = "tool_server_new session_new undefined :: ('b, 'w) tool_server"
  have "dispatch env name [] ct ?s \<noteq> Some (Error (''unknown tool: '' @ name), ?s)"
    using calculation
    by (auto simp: parameters_def dispatch_def guarded_handlers handle_list_breakpoints_def handle_status_def
        guarded_by_def check_state_def tool_server_new_def session_new_def arg_or_def require_string_def
        require_positive_int_def require_int_def attach_target_def get_raw_def bt_get_def missing_required_def
        seq_def read_session_def ret_def into_outcome_def quoted_def Let_def)
  ultimately show ?thesis using Some unfolding get_tool_None by auto
qed

end
