(* ===== verification/Spec2Isabelle.thy ===== *)
theory Spec2Isabelle
  imports
    Attach_Stop Breakpoint_Races Concurrent_Calls Debug_Mcp Dual_Await Launch_Progress Output_Path Read_Loop_Log
    Resume_Races Session_Reuse Stdio_Client Tool_Laws Tool_Outcomes Tool_Schema Wire_Laws
begin

text \<open>
  A model of \<^verbatim>\<open>lldb-debug-mcp\<close>, a server that lets a client of the Model Context Protocol drive
  \<^verbatim>\<open>lldb\<close>: a tool call arrives, a handler checks the session's state, calls the debugger backend, and
  answers with JSON. The backend speaks the Debug Adapter Protocol (DAP) to a child process. The
  theories follow the crates of the workspace, from the bottom to the top.

  \<^bold>\<open>The program's parts and their theories\<close> (paths under \<^verbatim>\<open>src/crates\<close>)

  \<^item> \<open>Prelude\<close>, \<open>Rust_Text\<close>, \<open>Json_Value\<close>, \<open>Serde\<close>, \<open>Computations\<close>: what the crates use of the language
    and of \<^verbatim>\<open>serde_json\<close>. Hash maps are association lists with distinct keys (their iteration order is
    a parameter wherever it shows), \<^verbatim>\<open>serde_json\<close> objects are sorted association lists, an \<^verbatim>\<open>i64\<close> is an
    \<open>int\<close> with its bounds and its wrap-around written out, the generation counter and addresses are
    64-bit words, an \<^verbatim>\<open>f64\<close> is a dyadic fraction. A computation is a function from a state to a result
    and a new state, or to \<open>None\<close> when it never returns.
  \<^item> \<open>Debugger_Core\<close> (\<^verbatim>\<open>debugger-core\<close>): the neutral types, errors and events. The trait
    \<^verbatim>\<open>DebuggerBackend\<close> is the record \<open>backend_api\<close> of \<open>Tool_Server\<close>.
  \<^item> \<open>Wire\<close> (\<^verbatim>\<open>dap-client/src/wire.rs\<close>): \<^verbatim>\<open>Content-Length\<close> frames over a byte stream and the typed
    messages. \<open>Dap_Client\<close> (\<^verbatim>\<open>client.rs\<close>, \<^verbatim>\<open>stop_waiter.rs\<close>, \<^verbatim>\<open>read_loop.rs\<close>): the record \<open>client\<close> is all the
    state behind the locks, with one cell per oneshot channel; every critical section is a function of
    it and \<open>client_step\<close> interleaves them. \<open>Dual_Await\<close>: \<^verbatim>\<open>send_and_await_both\<close> and the abort guard.
    \<open>Read_Loop_Log\<close>: the lines the read loop prints.
  \<^item> \<open>Lldb_Requests\<close>, \<open>Lldb_Body\<close>, \<open>Lldb_Backend\<close>, \<open>Subprocess\<close>, \<open>Detect\<close> (\<^verbatim>\<open>lldb-backend\<close>): the request
    builders, the decoding of the answers, the operations with the launch and attach handshakes, the
    ring buffer for the child's errors, the search for \<^verbatim>\<open>lldb-dap\<close>. \<open>Lldb_Transport\<close> runs the backend on
    the DAP client against a debugger that is an arbitrary function from requests to messages, under
    an arbitrary schedule of the read loop; \<open>Lldb_Progress\<close> is the calculus of what returns on it.
  \<^item> \<open>Session\<close>, \<open>Output_Buffer\<close> (\<^verbatim>\<open>mcp-session\<close>): the record \<open>session\<close> is \<^verbatim>\<open>Inner\<close> with the output buffer;
    one function per method of \<^verbatim>\<open>SessionManager\<close>; the event pump is a fold over the events.
  \<^item> \<open>Tool_Args\<close>, \<open>Flatten\<close>, \<open>Hex_Dump\<close>, \<open>Output_Report\<close>, \<open>Tool_Server\<close>, \<open>Breakpoint_Tools\<close>,
    \<open>Execution_Tools\<close>, \<open>Inspection_Tools\<close>, \<open>Memory_Tools\<close>, \<open>Lifecycle_Tools\<close>, \<open>Tool_Dispatch\<close>, \<open>Tool_Schema\<close>
    (\<^verbatim>\<open>mcp-tools\<close>): argument access and error texts, the formatters, every handler with all its branches,
    the dispatch, the advertised schemas. The record \<open>tool_server\<close> is the session, the connected backend,
    the running pumps and the debugger's world; a handler is a computation over it.
  \<^item> \<open>Lldb_Server\<close> joins the two halves: the backend of \<open>Lldb_Backend\<close> on its DAP world is a
    \<open>backend_api\<close>, and after each call the event pump takes part of what the client's channels hold.
  \<^item> \<open>Event_Stream\<close> (\<^verbatim>\<open>build_event_stream\<close> of \<^verbatim>\<open>lldb-backend/src/factory.rs\<close>, the channels of
    \<^verbatim>\<open>read_loop.rs\<close>, the pump as a task): read loop, merged stream, pump and callers take turns in any
    order (\<open>connection_step\<close>). \<open>Factory\<close> (\<^verbatim>\<open>LldbFactory::connect\<close>): from the operating system's answers to
    a backend, its stream and its first world; it is shown to be the \<open>connect\<close> of \<open>Lldb_Server\<close>, and its
    stream to give the events the server's pump takes. \<open>Debug_Mcp\<close> (\<^verbatim>\<open>debug-mcp/src/main.rs\<close>): the binary.
  \<^item> \<open>Concurrent_Calls\<close>, \<open>Resume_Races\<close>, \<open>Breakpoint_Races\<close>: handlers that overlap at their awaits.
  \<^item> \<open>Stdio_Client\<close>, \<open>Test_Harness\<close> (\<^verbatim>\<open>integration-tests/src/stdio.rs\<close>, \<^verbatim>\<open>harness.rs\<close>): the two drivers
    that tests put in front of the server, the first over a process and its pipes, the second in process.

  \<^bold>\<open>Interfaces.\<close> \<open>kv_store\<close> (hash maps and JSON objects), \<open>suffix_log\<close> (the output buffer and the ring
  of error output), \<open>epoch_guard\<close> (the two writes guarded by the generation), \<open>single_slot\<close> (the stop
  waiter and the initialized latch), \<open>framed_codec\<close> (the wire format), \<open>logged_transport\<close> and
  \<open>world_invariant\<close> (what the handshakes need of a transport), \<open>calm_server\<close> (what the tools need of a
  backend) and \<open>step_relation\<close> (a relation every operation of a handler stays in, interpreted three
  times: for inspections, for the live states, for interference) are locales; each is interpreted on the program's own definitions.

  \<^bold>\<open>What is proved\<close>

  \<^item> \<open>Server_Laws\<close>, \<open>Lldb_Server\<close>: any sequence of tool calls against any debugger keeps the server
    well-formed, a backend is connected exactly outside the idle state, and states change along a
    fixed diagram. \<open>Tool_Outcomes\<close>: every outcome has one of the shapes the protocol side expects, and
    every call returns if the backend's calls do. \<open>Tool_Laws\<close>: the guard of each tool; a breakpoint is
    committed only after the debugger accepted it. \<open>Breakpoint_Sync\<close>: over whole sessions, launches and
    failures included, the session's breakpoint lists refine the table of the debugger. \<open>Tool_Schema\<close>: the
    advertised parameters are those the handlers read. \<open>Test_Harness\<close>: a launch's answer is true of the
    session it leaves.
  \<^item> \<open>Concurrent_Calls\<close>: any mixture of overlapping calls keeps the session well-formed and the
    generation the number of resets. \<open>Resume_Races\<close>: what a resume writes when the session was reset
    while it waited. \<open>Breakpoint_Races\<close>: of two overlapping calls one breakpoint is lost.
  \<^item> \<open>Event_Stream\<close>: from the debugger's messages to the session, in order, to the end. \<open>Output_Path\<close>: from
    there to the answers of the tool calls, nothing lost, doubled or reordered. \<open>Factory\<close>: the process that is started and the backend agree. \<open>Read_Loop_Log\<close>: acting and reporting exclude each
    other. \<open>Stdio_Client\<close>: the result of a tool call survives the pipe.
  \<^item> \<open>Dap_Client_Laws\<close>, \<open>Read_Loop_Laws\<close>, \<open>Dual_Await\<close>: correlation of responses, finality of results,
    release of every waiter at the end of the stream, in every interleaving. \<open>Wire_Laws\<close>: what is
    written is read back. \<open>Lldb_Handshake\<close>: the order of the requests, the stop that a launch cannot
    miss, and what waits for ever: a start without the initialized event and a resume without a stop.
    \<open>Attach_Stop\<close>: an attach never reports a stop that comes before its answer. \<open>Lldb_Progress\<close>, \<open>Launch_Progress\<close>:
    against a debugger that answers, a launch returns, under every schedule, up to the tool's answer.
    \<open>Session_Reuse\<close>: a disconnect frees the session whatever the debugger does; a start that fails frees
    it too but leaves the debugger running.
  \<^item> \<open>Session_Laws\<close>, \<open>Output_Buffer\<close>, \<open>Subprocess\<close>, \<open>Detect\<close>, \<open>Flatten\<close>, \<open>Hex_Dump\<close>, \<open>Output_Report\<close>,
    \<open>Tool_Args\<close>, \<open>Tool_Server\<close>, \<open>Lldb_Body\<close>, \<open>Lldb_Requests\<close>: each component against a reference
    definition, a round trip or its bounds.

  Several theorems state defects the model shows, in their own words: \<open>attach_misses_its_stop\<close>,
  \<open>no_initialized_no_return\<close>, \<open>refused_resume_waits\<close>, \<open>closed_client_is_silent\<close>,
  \<open>launch_overwrites_termination\<close>, \<open>failed_resume_outlives_disconnect\<close>, \<open>moved_breakpoint_stays\<close>,
  \<open>overlapping_sets_lose_one\<close>, \<open>failed_start_leaves_debugger\<close>, and the last case of \<open>render_keeps_detail\<close>.

  \<^bold>\<open>Loops and bounds.\<close> No definition needs fuel to be guessed. The recursion of \<open>flatten_recursive\<close> ends by
  the remaining depth and list, the dump by the remaining bytes, the framing by the remaining stream.
  A wait on the DAP client takes as many turns of the read loop as there are messages, plus one for
  the end of the stream; \<open>wait_until_complete\<close> shows that no longer wait would find more, so that
  \<open>None\<close> is a call that never returns, and the theorems on waiting for ever rest on it.

  \<^bold>\<open>Simplifications.\<close> The code between two awaits of a handler runs as one step, and acquiring a lock is
  not a point where another task runs. A backend call takes the whole server state to a new one, so
  that whatever runs during the call is part of it; \<open>calls_follow_diagram\<close> lets the event pump run
  there and takes the tool calls one after the other, while \<open>Concurrent_Calls\<close> and \<open>Resume_Races\<close> let
  other calls run there too. A frame is written whole or the write fails, and a cancelled call stops
  between two steps. A poisoned lock and exhausted memory do not occur. In \<open>Lldb_Server\<close> the pump of a debugger
  that was left behind runs until the next connection is made; what it can still do after that is
  \<open>stale_pump_only_appends\<close>.

  \<^bold>\<open>Parameters.\<close> The JSON text parser and printer and the text of their errors, base64 decoding, lower-casing
  beyond ASCII, the operating system (processes, file system, environment), the order of hash maps,
  the moment a call is cancelled or timed out, and the debugger itself.

  \<^bold>\<open>Not modelled.\<close> The library \<^verbatim>\<open>rmcp\<close> between standard input and the four callbacks of the server; other
  tasks between two locked operations of one handler that have no await between them; poisoned locks;
  \<^verbatim>\<open>is_executable_file\<close> on systems other than Unix; accessors that only hand out a field or a lock guard;
  the tests themselves.
\<close>

end
